(* ===== verification/Prelude.thy ===== *)
theory Prelude
  imports Main "HOL-Library.Word"
begin

unbundle bit_operations_syntax

text \<open>
  Shared ground of the development.

  \<^item> The types of the data: \<open>u16\<close> is a \<^verbatim>\<open>char16_t\<close>, \<open>u16string\<close> the
    \<^verbatim>\<open>std::u16string\<close> made of them; a \<^verbatim>\<open>std::string\<close> is HOL's \<open>string\<close>,
    whose characters are exactly the 256 bytes.
  \<^item> The effects of the C++ code: an operation maps a state to an outcome and the
    state it leaves behind. The outcome is \<open>Inl\<close> of the exception that left the
    operation or \<open>Inr\<close> of its result; the state is kept when an exception is
    thrown, since C++ does not undo what was done before the throw.
  \<^item> Triples over those operations, with one rule per way of composing them,
    collected in \<open>triple_rules\<close>, so that a property of an operation is proved by
    following its text.
\<close>

section \<open>Data\<close>

type_synonym u16 = "16 word"
type_synonym u16string = "u16 list"
type_synonym flags32 = "32 word"

definition IS_SET :: "flags32 \<Rightarrow> flags32 \<Rightarrow> bool" where
  "IS_SET flags m \<longleftrightarrow> flags AND m \<noteq> 0"

lemma IS_SET_zero [simp]: "\<not> IS_SET 0 m" "\<not> IS_SET f 0"
  by (simp_all add: IS_SET_def)

lemma IS_SET_or: "IS_SET f (m OR n) \<longleftrightarrow> IS_SET f m \<or> IS_SET f n"
  by (simp add: IS_SET_def bit.conj_disj_distrib or_eq_0_iff)

section \<open>Operations with state and exceptions\<close>

type_synonym ('e, 's, 'a) exec = "'s \<Rightarrow> ('e + 'a) \<times> 's"

definition ret :: "'a \<Rightarrow> ('e, 's, 'a) exec" where
  "ret x = (\<lambda>s. (Inr x, s))"

definition raise :: "'e \<Rightarrow> ('e, 's, 'a) exec" where
  "raise e = (\<lambda>s. (Inl e, s))"

definition bindE :: "('e, 's, 'a) exec \<Rightarrow> ('a \<Rightarrow> ('e, 's, 'b) exec) \<Rightarrow> ('e, 's, 'b) exec" where
  "bindE m f = (\<lambda>s. case m s of (Inl e, s') \<Rightarrow> (Inl e, s') | (Inr x, s') \<Rightarrow> f x s')"

definition thenE :: "('e, 's, 'a) exec \<Rightarrow> ('e, 's, 'b) exec \<Rightarrow> ('e, 's, 'b) exec" where
  "thenE m n = bindE m (\<lambda>_. n)"

text \<open>\<open>tryE m h\<close> is \<^verbatim>\<open>try { m } catch (...) { h }\<close>: the handler runs on the state the
  throw left.\<close>

definition tryE :: "('e, 's, 'a) exec \<Rightarrow> ('e \<Rightarrow> ('e, 's, 'a) exec) \<Rightarrow> ('e, 's, 'a) exec" where
  "tryE m h = (\<lambda>s. case m s of (Inl e, s') \<Rightarrow> h e s' | (Inr x, s') \<Rightarrow> (Inr x, s'))"

definition getE :: "('s \<Rightarrow> 'a) \<Rightarrow> ('e, 's, 'a) exec" where
  "getE f = (\<lambda>s. (Inr (f s), s))"

definition modifyE :: "('s \<Rightarrow> 's) \<Rightarrow> ('e, 's, unit) exec" where
  "modifyE f = (\<lambda>s. (Inr (), f s))"

text \<open>A value that may be an exception, as the code that computes it without touching the
  state.\<close>

definition liftE :: "'e + 'a \<Rightarrow> ('e, 's, 'a) exec" where
  "liftE r = (\<lambda>s. (r, s))"

text \<open>The range-based \<^verbatim>\<open>for\<close>: the body runs on each element in order, and an exception
  leaves the loop.\<close>

fun forE :: "'b list \<Rightarrow> ('b \<Rightarrow> ('e, 's, unit) exec) \<Rightarrow> ('e, 's, unit) exec" where
  "forE [] f = ret ()"
| "forE (x # xs) f = thenE (f x) (forE xs f)"

text \<open>The same loop collecting results with \<^verbatim>\<open>success &= f(x)\<close>: every element is visited, also
  after one has failed.\<close>

fun conjE :: "'b list \<Rightarrow> ('b \<Rightarrow> ('e, 's, bool) exec) \<Rightarrow> bool \<Rightarrow> ('e, 's, bool) exec" where
  "conjE [] f success = ret success"
| "conjE (x # xs) f success = bindE (f x) (\<lambda>r. conjE xs f (success \<and> r))"

named_theorems exec_simps \<open>running the effect combinators on a state\<close>

lemma run_ret [exec_simps]: "ret x s = (Inr x, s)"
  by (simp add: ret_def)

lemma run_raise [exec_simps]: "raise e s = (Inl e, s)"
  by (simp add: raise_def)

lemma run_bindE [exec_simps]:
  "bindE m f s = (case m s of (Inl e, s') \<Rightarrow> (Inl e, s') | (Inr x, s') \<Rightarrow> f x s')"
  by (simp add: bindE_def)

lemma run_thenE [exec_simps]:
  "thenE m n s = (case m s of (Inl e, s') \<Rightarrow> (Inl e, s') | (Inr x, s') \<Rightarrow> n s')"
  by (simp add: thenE_def bindE_def)

lemma run_tryE [exec_simps]:
  "tryE m h s = (case m s of (Inl e, s') \<Rightarrow> h e s' | (Inr x, s') \<Rightarrow> (Inr x, s'))"
  by (simp add: tryE_def)

lemma run_getE [exec_simps]: "getE f s = (Inr (f s), s)"
  by (simp add: getE_def)

lemma run_modifyE [exec_simps]: "modifyE f s = (Inr (), f s)"
  by (simp add: modifyE_def)

lemma run_liftE [exec_simps]: "liftE r s = (r, s)"
  by (simp add: liftE_def)

lemma run_get_bind: "bindE (getE g) f s = f (g s) s"
  by (simp add: run_bindE run_getE)

section \<open>Triples\<close>

text \<open>\<open>triple P m Q E\<close>: started in a state with \<open>P\<close>, the operation either returns
  a result with \<open>Q\<close> or throws an exception with \<open>E\<close>.\<close>

definition triple ::
    "('s \<Rightarrow> bool) \<Rightarrow> ('e, 's, 'a) exec \<Rightarrow> ('a \<Rightarrow> 's \<Rightarrow> bool) \<Rightarrow> ('e \<Rightarrow> 's \<Rightarrow> bool) \<Rightarrow> bool" where
  "triple P m Q E \<longleftrightarrow>
     (\<forall>s. P s \<longrightarrow> (case m s of (Inl e, s') \<Rightarrow> E e s' | (Inr x, s') \<Rightarrow> Q x s'))"

text \<open>\<open>keeps I m\<close>: the operation keeps \<open>I\<close>, whichever way it ends.\<close>

definition keeps :: "('s \<Rightarrow> bool) \<Rightarrow> ('e, 's, 'a) exec \<Rightarrow> bool" where
  "keeps I m \<longleftrightarrow> triple I m (\<lambda>_. I) (\<lambda>_. I)"

named_theorems triple_rules \<open>one rule per way of composing operations\<close>
named_theorems keeps_rules \<open>invariants through the effect combinators\<close>

lemma tripleI:
  assumes "\<And>s x s'. P s \<Longrightarrow> m s = (Inr x, s') \<Longrightarrow> Q x s'"
    and "\<And>s e s'. P s \<Longrightarrow> m s = (Inl e, s') \<Longrightarrow> E e s'"
  shows "triple P m Q E"
  using assms by (auto simp: triple_def split: prod.splits sum.splits)

lemma triple_okD: "triple P m Q E \<Longrightarrow> P s \<Longrightarrow> m s = (Inr x, s') \<Longrightarrow> Q x s'"
  by (auto simp: triple_def split: prod.splits sum.splits)

lemma triple_errD: "triple P m Q E \<Longrightarrow> P s \<Longrightarrow> m s = (Inl e, s') \<Longrightarrow> E e s'"
  by (auto simp: triple_def split: prod.splits sum.splits)

lemma triple_weaken:
  assumes "triple P' m Q' E'" and "\<And>s. P s \<Longrightarrow> P' s"
    and "\<And>x s. Q' x s \<Longrightarrow> Q x s" and "\<And>e s. E' e s \<Longrightarrow> E e s"
  shows "triple P m Q E"
  using assms by (fastforce simp: triple_def split: prod.splits sum.splits)

lemma triple_bind [triple_rules]:
  assumes "triple P m R E" and "\<And>x. triple (R x) (f x) Q E"
  shows "triple P (bindE m f) Q E"
  using assms by (fastforce simp: triple_def bindE_def split: prod.splits sum.splits)

lemma triple_then [triple_rules]:
  assumes "triple P m (\<lambda>_. R) E" and "triple R n Q E"
  shows "triple P (thenE m n) Q E"
  unfolding thenE_def using assms by (rule triple_bind)

lemma triple_try [triple_rules]:
  assumes "triple P m Q R" and "\<And>e. triple (R e) (h e) Q E"
  shows "triple P (tryE m h) Q E"
  using assms by (fastforce simp: triple_def tryE_def split: prod.splits sum.splits)

lemma triple_if [triple_rules]:
  assumes "b \<Longrightarrow> triple P m Q E" and "\<not> b \<Longrightarrow> triple P n Q E"
  shows "triple P (if b then m else n) Q E"
  using assms by simp

lemma triple_option [triple_rules]:
  assumes "x = None \<Longrightarrow> triple P m Q E" and "\<And>y. x = Some y \<Longrightarrow> triple P (f y) Q E"
  shows "triple P (case x of None \<Rightarrow> m | Some y \<Rightarrow> f y) Q E"
  using assms by (cases x) auto

lemma triple_sum [triple_rules]:
  assumes "\<And>y. x = Inl y \<Longrightarrow> triple P (f y) Q E" and "\<And>y. x = Inr y \<Longrightarrow> triple P (g y) Q E"
  shows "triple P (case x of Inl y \<Rightarrow> f y | Inr y \<Rightarrow> g y) Q E"
  using assms by (cases x) auto

subsection \<open>Invariants\<close>

lemma keepsI: "(\<And>s. I s \<Longrightarrow> I (snd (m s))) \<Longrightarrow> keeps I m"
  unfolding keeps_def by (rule tripleI) (metis snd_conv)+

lemma keepsD: "keeps I m \<Longrightarrow> I s \<Longrightarrow> I (snd (m s))"
  by (cases "m s"; cases "fst (m s)")
     (auto simp: keeps_def dest: triple_okD triple_errD)

lemma keepsD': "keeps I m \<Longrightarrow> I s \<Longrightarrow> m s = (r, s') \<Longrightarrow> I s'"
  by (metis keepsD snd_conv)

lemma keeps_iff: "keeps I m \<longleftrightarrow> (\<forall>s. I s \<longrightarrow> I (snd (m s)))"
  by (auto intro: keepsI dest: keepsD)

lemma keeps_ret [keeps_rules]: "keeps I (ret x)"
  and keeps_raise [keeps_rules]: "keeps I (raise e)"
  and keeps_getE [keeps_rules]: "keeps I (getE f)"
  and keeps_liftE [keeps_rules]: "keeps I (liftE r)"
  by (simp_all add: keeps_iff exec_simps)

lemma keeps_modifyE: "(\<And>s. I s \<Longrightarrow> I (f s)) \<Longrightarrow> keeps I (modifyE f)"
  by (simp add: keeps_iff exec_simps)

lemma keeps_bindE [keeps_rules]: "keeps I m \<Longrightarrow> (\<And>x. keeps I (f x)) \<Longrightarrow> keeps I (bindE m f)"
  unfolding keeps_def by (rule triple_bind)

lemma keeps_thenE [keeps_rules]: "keeps I m \<Longrightarrow> keeps I n \<Longrightarrow> keeps I (thenE m n)"
  unfolding keeps_def by (rule triple_then)

lemma keeps_tryE [keeps_rules]: "keeps I m \<Longrightarrow> (\<And>e. keeps I (h e)) \<Longrightarrow> keeps I (tryE m h)"
  unfolding keeps_def by (rule triple_try)

lemma keeps_if [keeps_rules]:
  "(b \<Longrightarrow> keeps I m) \<Longrightarrow> (\<not> b \<Longrightarrow> keeps I n) \<Longrightarrow> keeps I (if b then m else n)"
  by simp

lemma keeps_option [keeps_rules]:
  "(x = None \<Longrightarrow> keeps I m) \<Longrightarrow> (\<And>y. x = Some y \<Longrightarrow> keeps I (f y)) \<Longrightarrow>
   keeps I (case x of None \<Rightarrow> m | Some y \<Rightarrow> f y)"
  by (cases x) auto

lemma keeps_sum [keeps_rules]:
  "(\<And>y. x = Inl y \<Longrightarrow> keeps I (f y)) \<Longrightarrow> (\<And>y. x = Inr y \<Longrightarrow> keeps I (g y)) \<Longrightarrow>
   keeps I (case x of Inl y \<Rightarrow> f y | Inr y \<Rightarrow> g y)"
  by (cases x) auto

lemma keeps_forE [keeps_rules]: "(\<And>x. x \<in> set xs \<Longrightarrow> keeps I (f x)) \<Longrightarrow> keeps I (forE xs f)"
  by (induction xs) (auto intro!: keeps_rules)

lemma keeps_conjE [keeps_rules]: "(\<And>x. x \<in> set xs \<Longrightarrow> keeps I (f x)) \<Longrightarrow> keeps I (conjE xs f b)"
  by (induction xs arbitrary: b) (auto intro!: keeps_rules)

subsection \<open>Exceptions an operation cannot throw\<close>

definition never_throws :: "'e \<Rightarrow> ('e, 's, 'a) exec \<Rightarrow> bool" where
  "never_throws e m \<longleftrightarrow> (\<forall>s. fst (m s) \<noteq> Inl e)"

lemma never_throwsD: "never_throws e m \<Longrightarrow> fst (m s) \<noteq> Inl e"
  by (simp add: never_throws_def)

named_theorems never_rules \<open>exceptions through the effect combinators\<close>

lemma never_ret [never_rules]: "never_throws e (ret x)"
  and never_getE [never_rules]: "never_throws e (getE f)"
  and never_modifyE [never_rules]: "never_throws e (modifyE g)"
  and never_raise [never_rules]: "e' \<noteq> e \<Longrightarrow> never_throws e (raise e')"
  and never_liftE [never_rules]: "r \<noteq> Inl e \<Longrightarrow> never_throws e (liftE r)"
  by (simp_all add: never_throws_def exec_simps)

lemma never_bindE [never_rules]:
  assumes "never_throws e m" and "\<And>x. never_throws e (f x)"
  shows "never_throws e (bindE m f)"
  unfolding never_throws_def
proof
  fix s
  show "fst (bindE m f s) \<noteq> Inl e"
    using assms by (cases "m s"; cases "fst (m s)") (auto simp: never_throws_def run_bindE dest: spec [of _ s])
qed

lemma never_thenE [never_rules]: "never_throws e m \<Longrightarrow> never_throws e n \<Longrightarrow> never_throws e (thenE m n)"
  unfolding thenE_def by (rule never_bindE)

lemma never_if [never_rules]:
  "(b \<Longrightarrow> never_throws e m) \<Longrightarrow> (\<not> b \<Longrightarrow> never_throws e n) \<Longrightarrow> never_throws e (if b then m else n)"
  by simp

lemma never_option [never_rules]:
  "(x = None \<Longrightarrow> never_throws e m) \<Longrightarrow> (\<And>y. x = Some y \<Longrightarrow> never_throws e (f y)) \<Longrightarrow>
   never_throws e (case x of None \<Rightarrow> m | Some y \<Rightarrow> f y)"
  by (cases x) auto

lemma never_forE [never_rules]: "(\<And>x. never_throws e (f x)) \<Longrightarrow> never_throws e (forE xs f)"
  by (induction xs) (auto intro: never_rules)

section \<open>Lists and C strings\<close>

text \<open>What a \<^verbatim>\<open>const char*\<close> to the bytes denotes: they end at the first NUL.\<close>

definition c_str :: "string \<Rightarrow> string" where
  "c_str s = takeWhile (\<lambda>c. c \<noteq> CHR 0x00) s"

lemma c_str_id: "CHR 0x00 \<notin> set s \<Longrightarrow> c_str s = s"
  by (auto simp: c_str_def takeWhile_eq_all_conv)

lemma c_str_no_nul: "CHR 0x00 \<notin> set (c_str s)"
  by (auto simp: c_str_def dest: set_takeWhileD)

lemma c_str_idem [simp]: "c_str (c_str s) = c_str s"
  by (simp add: c_str_id c_str_no_nul)

end
