(* ===== verification/Utf.thy ===== *)
theory Utf
  imports Prelude
begin

text \<open>
  \<^verbatim>\<open>utf8ToUtf16String\<close> and \<^verbatim>\<open>utf16ToUtf8String\<close> of \<^verbatim>\<open>jni_support.cpp\<close>. Both are one
  call of the standard library's \<^verbatim>\<open>wstring_convert\<close> over the facet
  \<^verbatim>\<open>codecvt<char16_t, char, mbstate_t>\<close>, which the C++ standard defines to convert
  between UTF-16 and UTF-8. An ill-formed input (an unpaired surrogate, an overlong or
  truncated sequence, a code point above 10FFFF) makes the conversion throw
  \<^verbatim>\<open>range_error\<close>; here it yields \<open>None\<close>. The two directions are proved to be inverse
  to each other.
\<close>

section \<open>One code point in UTF-8\<close>

definition utf8_unit :: "nat \<Rightarrow> nat list" where
  "utf8_unit c =
     (if c < 0x80 then [c]
      else if c < 0x800 then [0xC0 + c div 64, 0x80 + c mod 64]
      else if c < 0x10000 then [0xE0 + c div 4096, 0x80 + c div 64 mod 64, 0x80 + c mod 64]
      else [0xF0 + c div 262144, 0x80 + c div 4096 mod 64, 0x80 + c div 64 mod 64,
            0x80 + c mod 64])"

definition utf8_tail :: "nat \<Rightarrow> bool" where
  "utf8_tail b \<longleftrightarrow> 0x80 \<le> b \<and> b < 0xC0"

definition high_surrogate :: "nat \<Rightarrow> bool" where
  "high_surrogate u \<longleftrightarrow> 0xD800 \<le> u \<and> u < 0xDC00"

definition low_surrogate :: "nat \<Rightarrow> bool" where
  "low_surrogate u \<longleftrightarrow> 0xDC00 \<le> u \<and> u < 0xE000"

definition surrogate_pair :: "nat \<Rightarrow> nat list" where
  "surrogate_pair c = [0xD800 + (c - 0x10000) div 1024, 0xDC00 + (c - 0x10000) mod 1024]"

section \<open>The two conversions, on code units\<close>

text \<open>UTF-16 code units to UTF-8 bytes: a surrogate pair is one code point, an unpaired
  surrogate is an error.\<close>

fun to_utf8 :: "nat list \<Rightarrow> nat list option" where
  "to_utf8 [] = Some []"
| "to_utf8 [u] =
     (if high_surrogate u \<or> low_surrogate u then None else Some (utf8_unit u))"
| "to_utf8 (u # v # us) =
     (if high_surrogate u then
        (if low_surrogate v then
           map_option (\<lambda>bs. utf8_unit (0x10000 + (u - 0xD800) * 1024 + (v - 0xDC00)) @ bs)
             (to_utf8 us)
         else None)
      else if low_surrogate u then None
      else map_option (\<lambda>bs. utf8_unit u @ bs) (to_utf8 (v # us)))"

text \<open>UTF-8 bytes to UTF-16 code units. The lead byte fixes the length; the second byte of
  a sequence has a smaller range after \<^verbatim>\<open>E0\<close> and \<^verbatim>\<open>F0\<close> (no overlong forms), \<^verbatim>\<open>ED\<close> (no
  surrogates) and \<^verbatim>\<open>F4\<close> (nothing above 10FFFF).\<close>

fun from_utf8 :: "nat list \<Rightarrow> nat list option" where
  "from_utf8 [] = Some []"
| "from_utf8 (a # bs) =
     (if a < 0x80 then map_option ((#) a) (from_utf8 bs)
      else if a < 0xC2 then None
      else if a < 0xE0 then
        (case bs of b # rest \<Rightarrow>
           if utf8_tail b
           then map_option ((#) ((a - 0xC0) * 64 + (b - 0x80))) (from_utf8 rest)
           else None
         | _ \<Rightarrow> None)
      else if a < 0xF0 then
        (case bs of b # c # rest \<Rightarrow>
           if utf8_tail b \<and> utf8_tail c \<and> (a = 0xE0 \<longrightarrow> 0xA0 \<le> b) \<and> (a = 0xED \<longrightarrow> b < 0xA0)
           then map_option ((#) ((a - 0xE0) * 4096 + (b - 0x80) * 64 + (c - 0x80)))
                  (from_utf8 rest)
           else None
         | _ \<Rightarrow> None)
      else if a < 0xF5 then
        (case bs of b # c # d # rest \<Rightarrow>
           if utf8_tail b \<and> utf8_tail c \<and> utf8_tail d \<and>
              (a = 0xF0 \<longrightarrow> 0x90 \<le> b) \<and> (a = 0xF4 \<longrightarrow> b < 0x90)
           then map_option ((@) (surrogate_pair
                  ((a - 0xF0) * 262144 + (b - 0x80) * 4096 + (c - 0x80) * 64 + (d - 0x80))))
                  (from_utf8 rest)
           else None
         | _ \<Rightarrow> None)
      else None)"

declare from_utf8.simps(2) [simp del]

section \<open>Decoding what was encoded\<close>

lemma from_utf8_1: "c < 0x80 \<Longrightarrow> from_utf8 (utf8_unit c @ bs) = map_option ((#) c) (from_utf8 bs)"
  by (simp add: utf8_unit_def from_utf8.simps(2))

text \<open>A sequence of two, three or four bytes, read back from its six-bit groups.\<close>

lemma from_utf8_seq2:
  assumes "2 \<le> x" and "x < 32" and "y < 64"
  shows "from_utf8 ((0xC0 + x) # (0x80 + y) # bs) = map_option ((#) (x * 64 + y)) (from_utf8 bs)"
  using assms by (simp add: from_utf8.simps(2) utf8_tail_def)

lemma from_utf8_seq3:
  assumes "x < 16" and "y < 64" and "z < 64" and "x = 0 \<Longrightarrow> 32 \<le> y" and "x = 13 \<Longrightarrow> y < 32"
  shows "from_utf8 ((0xE0 + x) # (0x80 + y) # (0x80 + z) # bs) =
    map_option ((#) (x * 4096 + y * 64 + z)) (from_utf8 bs)"
  using assms by (simp add: from_utf8.simps(2) utf8_tail_def)

lemma from_utf8_seq4:
  assumes "w < 5" and "x < 64" and "y < 64" and "z < 64"
    and "w = 0 \<Longrightarrow> 16 \<le> x" and "w = 4 \<Longrightarrow> x < 16"
  shows "from_utf8 ((0xF0 + w) # (0x80 + x) # (0x80 + y) # (0x80 + z) # bs) =
    map_option ((@) (surrogate_pair (w * 262144 + x * 4096 + y * 64 + z))) (from_utf8 bs)"
  using assms by (simp add: from_utf8.simps(2) utf8_tail_def)

lemma split_six_bits: "(c::nat) = c div 64 * 64 + c mod 64"
  by simp

lemma split_twelve_bits: "(c::nat) = c div 4096 * 4096 + c div 64 mod 64 * 64 + c mod 64"
proof -
  have "c div 64 = c div 4096 * 64 + c div 64 mod 64"
    using split_six_bits [of "c div 64"] by (simp add: div_mult2_eq [symmetric])
  with split_six_bits [of c] show ?thesis by linarith
qed

lemma split_eighteen_bits:
  "(c::nat) = c div 262144 * 262144 + c div 4096 mod 64 * 4096 + c div 64 mod 64 * 64 + c mod 64"
proof -
  have "c div 4096 = c div 262144 * 64 + c div 4096 mod 64"
    using split_six_bits [of "c div 4096"] by (simp add: div_mult2_eq [symmetric])
  with split_twelve_bits [of c] show ?thesis by linarith
qed

lemma from_utf8_2:
  assumes "0x80 \<le> c" and "c < 0x800"
  shows "from_utf8 (utf8_unit c @ bs) = map_option ((#) c) (from_utf8 bs)"
proof -
  have "2 \<le> c div 64" and "c div 64 < 32" using assms by auto
  from from_utf8_seq2 [OF this, of "c mod 64" bs] assms split_six_bits [of c] show ?thesis
    by (simp add: utf8_unit_def)
qed

lemma from_utf8_3:
  assumes "0x800 \<le> c" and "c < 0x10000" and "\<not> high_surrogate c" and "\<not> low_surrogate c"
  shows "from_utf8 (utf8_unit c @ bs) = map_option ((#) c) (from_utf8 bs)"
proof -
  let ?x = "c div 4096" and ?y = "c div 64 mod 64" and ?z = "c mod 64"
  note c = split_twelve_bits [of c]
  have b: "?x < 16" "?y < 64" "?z < 64" using assms(2) by auto
  have e0: "32 \<le> ?y" if "?x = 0" using assms(1) b c that by linarith
  have ed: "?y < 32" if "?x = 13"
    using assms(3,4) b c that unfolding high_surrogate_def low_surrogate_def by linarith
  have "utf8_unit c = [0xE0 + ?x, 0x80 + ?y, 0x80 + ?z]"
    using assms(1,2) by (simp add: utf8_unit_def)
  with from_utf8_seq3 [OF b e0 ed, of bs] show ?thesis
    by (metis append_Cons append_Nil c)
qed

lemma from_utf8_4:
  assumes "0x10000 \<le> c" and "c < 0x110000"
  shows "from_utf8 (utf8_unit c @ bs) = map_option ((@) (surrogate_pair c)) (from_utf8 bs)"
proof -
  let ?w = "c div 262144" and ?x = "c div 4096 mod 64" and ?y = "c div 64 mod 64"
    and ?z = "c mod 64"
  note c = split_eighteen_bits [of c]
  have b: "?w < 5" "?x < 64" "?y < 64" "?z < 64" using assms(2) by auto
  have f0: "16 \<le> ?x" if "?w = 0" using assms(1) b c that by linarith
  have f4: "?x < 16" if "?w = 4" using assms(2) b c that by linarith
  have "utf8_unit c = [0xF0 + ?w, 0x80 + ?x, 0x80 + ?y, 0x80 + ?z]"
    using assms(1) by (simp add: utf8_unit_def)
  with from_utf8_seq4 [OF b f0 f4, of bs] show ?thesis
    by (metis append_Cons append_Nil c)
qed

lemma from_utf8_bmp:
  assumes "c < 0x10000" and "\<not> high_surrogate c" and "\<not> low_surrogate c"
  shows "from_utf8 (utf8_unit c @ bs) = map_option ((#) c) (from_utf8 bs)"
  using assms from_utf8_1 [of c] from_utf8_2 [of c] from_utf8_3 [of c]
  by (cases "c < 0x80"; cases "c < 0x800") auto

lemma surrogate_pair_join:
  assumes "high_surrogate u" and "low_surrogate v"
  shows "surrogate_pair (0x10000 + (u - 0xD800) * 1024 + (v - 0xDC00)) = [u, v]"
    and "0x10000 + (u - 0xD800) * 1024 + (v - 0xDC00) < 0x110000"
proof -
  obtain x y where u: "u = 0xD800 + x" "x < 1024" and v: "v = 0xDC00 + y" "y < 1024"
    using assms le_Suc_ex [of "0xD800" u] le_Suc_ex [of "0xDC00" v]
    by (auto simp: high_surrogate_def low_surrogate_def)
  have "surrogate_pair (0x10000 + x * 1024 + y) = [0xD800 + x, 0xDC00 + y]"
    using v(2) by (simp add: surrogate_pair_def)
  then show "surrogate_pair (0x10000 + (u - 0xD800) * 1024 + (v - 0xDC00)) = [u, v]"
    and "0x10000 + (u - 0xD800) * 1024 + (v - 0xDC00) < 0x110000"
    using u v by simp_all
qed

lemma from_to_utf8:
  "to_utf8 us = Some bs \<Longrightarrow> (\<forall>u\<in>set us. u < 0x10000) \<Longrightarrow> from_utf8 bs = Some us"
proof (induction us arbitrary: bs rule: to_utf8.induct)
  case 1
  then show ?case by simp
next
  case (2 u)
  then show ?case
    using from_utf8_bmp [of u "[]"] by (simp split: if_splits)
next
  case (3 u v us)
  show ?case
  proof (cases "high_surrogate u")
    case True
    with "3.prems" obtain cs where low: "low_surrogate v" and cs: "to_utf8 us = Some cs"
      and bs: "bs = utf8_unit (0x10000 + (u - 0xD800) * 1024 + (v - 0xDC00)) @ cs"
      by (auto split: if_splits)
    from "3.IH"(1) [OF True low cs] "3.prems"(2) have "from_utf8 cs = Some us" by simp
    then show ?thesis
      using surrogate_pair_join [OF True low] bs by (simp add: from_utf8_4)
  next
    case False
    with "3.prems" obtain cs where low: "\<not> low_surrogate u" and cs: "to_utf8 (v # us) = Some cs"
      and bs: "bs = utf8_unit u @ cs"
      by (auto split: if_splits)
    from "3.IH"(2) [OF False low cs] "3.prems"(2) have "from_utf8 cs = Some (v # us)" by simp
    with "3.prems"(2) show ?thesis
      using from_utf8_bmp [OF _ False low] bs by simp
  qed
qed

section \<open>Encoding what was decoded\<close>

lemma last_six_bits:
  fixes n z :: nat
  assumes "z < 64"
  shows "(n * 64 + z) div 64 = n" and "(n * 64 + z) mod 64 = z"
  using assms by simp_all

lemma utf8_unit_seq:
  shows utf8_unit_seq2: "2 \<le> x \<Longrightarrow> x < 32 \<Longrightarrow> y < 64 \<Longrightarrow>
      utf8_unit (x * 64 + y) = [0xC0 + x, 0x80 + y]"
    and utf8_unit_seq3: "x < 16 \<Longrightarrow> y < 64 \<Longrightarrow> z < 64 \<Longrightarrow> (x = 0 \<Longrightarrow> 32 \<le> y) \<Longrightarrow>
      utf8_unit (x * 4096 + y * 64 + z) = [0xE0 + x, 0x80 + y, 0x80 + z]"
    and utf8_unit_seq4: "w < 5 \<Longrightarrow> x < 64 \<Longrightarrow> y < 64 \<Longrightarrow> z < 64 \<Longrightarrow> (w = 0 \<Longrightarrow> 16 \<le> x) \<Longrightarrow>
      utf8_unit (w * 262144 + x * 4096 + y * 64 + z) = [0xF0 + w, 0x80 + x, 0x80 + y, 0x80 + z]"
proof -
  show "utf8_unit (x * 64 + y) = [0xC0 + x, 0x80 + y]" if "2 \<le> x" "x < 32" "y < 64"
    using that by (simp add: utf8_unit_def)
next
  assume b: "x < 16" "y < 64" "z < 64" and e: "x = 0 \<Longrightarrow> 32 \<le> y"
  let ?c = "x * 4096 + y * 64 + z"
  have "0x800 \<le> ?c" using e by (cases "x = 0") auto
  moreover have "?c < 0x10000" using b by linarith
  moreover have "?c = (x * 64 + y) * 64 + z" by simp
  then have d: "?c div 64 = x * 64 + y" "?c mod 64 = z" using b by (simp_all only: last_six_bits)
  moreover have "?c div 64 mod 64 = y" using b by (simp add: d)
  moreover have "?c div 4096 = ?c div 64 div 64" by (simp add: div_mult2_eq [symmetric])
  then have "?c div 4096 = x" using b by (simp add: d)
  ultimately show "utf8_unit ?c = [0xE0 + x, 0x80 + y, 0x80 + z]"
    by (simp add: utf8_unit_def)
next
  assume b: "w < 5" "x < 64" "y < 64" "z < 64" and e: "w = 0 \<Longrightarrow> 16 \<le> x"
  let ?c = "w * 262144 + x * 4096 + y * 64 + z"
  have "0x10000 \<le> ?c" using e by (cases "w = 0") auto
  moreover have "?c = (w * 4096 + x * 64 + y) * 64 + z" by simp
  then have d: "?c div 64 = w * 4096 + x * 64 + y" "?c mod 64 = z"
    using b by (simp_all only: last_six_bits)
  moreover have "w * 4096 + x * 64 + y = (w * 64 + x) * 64 + y" by simp
  then have "(w * 4096 + x * 64 + y) div 64 = w * 64 + x" "?c div 64 mod 64 = y"
    using b by (simp_all only: d last_six_bits)
  moreover have "?c div 4096 = ?c div 64 div 64" "?c div 262144 = ?c div 64 div 64 div 64"
    by (simp_all add: div_mult2_eq [symmetric])
  ultimately show "utf8_unit ?c = [0xF0 + w, 0x80 + x, 0x80 + y, 0x80 + z]"
    using b by (simp add: utf8_unit_def)
qed

lemma to_utf8_bmp:
  "\<not> high_surrogate u \<Longrightarrow> \<not> low_surrogate u \<Longrightarrow>
   to_utf8 (u # us) = map_option ((@) (utf8_unit u)) (to_utf8 us)"
  by (cases us) auto

lemma to_utf8_pair:
  assumes "0x10000 \<le> c" and "c < 0x110000"
  shows "to_utf8 (surrogate_pair c @ us) = map_option ((@) (utf8_unit c)) (to_utf8 us)"
proof -
  define d where "d = c - 0x10000"
  have c: "c = 0x10000 + d" and d: "d div 1024 < 1024" using assms by (auto simp: d_def)
  have "0x10000 + (d div 1024) * 1024 + d mod 1024 = c" by (simp add: c)
  with d show ?thesis
    by (simp add: surrogate_pair_def high_surrogate_def low_surrogate_def c add.commute)
qed

text \<open>The sequences \<open>from_utf8\<close> accepts, each with the code point it stands for.\<close>

lemma from_utf8_ConsE:
  assumes "from_utf8 bs = Some us" and "bs \<noteq> []"
  obtains (one) a rest vs where "bs = a # rest" "a < 0x80" "from_utf8 rest = Some vs" "us = a # vs"
  | (two) x y rest vs where "bs = (0xC0 + x) # (0x80 + y) # rest" "2 \<le> x" "x < 32" "y < 64"
      "from_utf8 rest = Some vs" "us = (x * 64 + y) # vs"
  | (three) x y z rest vs where "bs = (0xE0 + x) # (0x80 + y) # (0x80 + z) # rest"
      "x < 16" "y < 64" "z < 64" "x = 0 \<Longrightarrow> 32 \<le> y" "x = 13 \<Longrightarrow> y < 32"
      "from_utf8 rest = Some vs" "us = (x * 4096 + y * 64 + z) # vs"
  | (four) w x y z rest vs where "bs = (0xF0 + w) # (0x80 + x) # (0x80 + y) # (0x80 + z) # rest"
      "w < 5" "x < 64" "y < 64" "z < 64" "w = 0 \<Longrightarrow> 16 \<le> x" "w = 4 \<Longrightarrow> x < 16"
      "from_utf8 rest = Some vs"
      "us = surrogate_pair (w * 262144 + x * 4096 + y * 64 + z) @ vs"
proof -
  obtain a r where bs: "bs = a # r" using assms(2) by (cases bs) auto
  consider "a < 0x80" | "0xC2 \<le> a" "a < 0xE0" | "0xE0 \<le> a" "a < 0xF0" | "0xF0 \<le> a" "a < 0xF5"
    using assms(1) bs by (fastforce simp: from_utf8.simps(2) split: if_splits)
  then show thesis
  proof cases
    case 1
    then show thesis using one assms(1) bs by (auto simp: from_utf8.simps(2))
  next
    case 2
    with assms(1) bs obtain b rest vs where "r = b # rest" "utf8_tail b"
      "from_utf8 rest = Some vs" "us = ((a - 0xC0) * 64 + (b - 0x80)) # vs"
      by (auto simp: from_utf8.simps(2) split: list.splits if_splits)
    then show thesis
      using 2 bs two [of "a - 0xC0" "b - 0x80" rest vs] by (auto simp: utf8_tail_def)
  next
    case 3
    with assms(1) bs obtain b c rest vs where "r = b # c # rest" "utf8_tail b" "utf8_tail c"
      "a = 0xE0 \<longrightarrow> 0xA0 \<le> b" "a = 0xED \<longrightarrow> b < 0xA0" "from_utf8 rest = Some vs"
      "us = ((a - 0xE0) * 4096 + (b - 0x80) * 64 + (c - 0x80)) # vs"
      by (auto simp: from_utf8.simps(2) split: list.splits if_splits)
    then show thesis
      using 3 bs three [of "a - 0xE0" "b - 0x80" "c - 0x80" rest vs] by (auto simp: utf8_tail_def)
  next
    case 4
    with assms(1) bs obtain b c d rest vs where "r = b # c # d # rest"
      "utf8_tail b" "utf8_tail c" "utf8_tail d"
      "a = 0xF0 \<longrightarrow> 0x90 \<le> b" "a = 0xF4 \<longrightarrow> b < 0x90" "from_utf8 rest = Some vs"
      "us = surrogate_pair
         ((a - 0xF0) * 262144 + (b - 0x80) * 4096 + (c - 0x80) * 64 + (d - 0x80)) @ vs"
      by (auto simp: from_utf8.simps(2) split: list.splits if_splits)
    then show thesis
      using 4 bs four [of "a - 0xF0" "b - 0x80" "c - 0x80" "d - 0x80" rest vs]
      by (auto simp: utf8_tail_def)
  qed
qed

lemma to_from_utf8: "from_utf8 bs = Some us \<Longrightarrow> to_utf8 us = Some bs"
proof (induction "length bs" arbitrary: bs us rule: less_induct)
  case less
  show ?case
  proof (cases "bs = []")
    case True
    with less.prems show ?thesis by simp
  next
    case False
    with less.prems show ?thesis
    proof (cases rule: from_utf8_ConsE)
      case (one a rest vs)
      then show ?thesis using less.hyps [of rest vs]
        by (simp add: to_utf8_bmp high_surrogate_def low_surrogate_def utf8_unit_def)
    next
      case (two x y rest vs)
      then show ?thesis using less.hyps [of rest vs]
        by (simp add: to_utf8_bmp high_surrogate_def low_surrogate_def utf8_unit_seq2)
    next
      case (three x y z rest vs)
      then have "\<not> high_surrogate (x * 4096 + y * 64 + z)"
        and "\<not> low_surrogate (x * 4096 + y * 64 + z)"
        by (cases "x = 13"; cases "x < 13"; auto simp: high_surrogate_def low_surrogate_def)+
      with three show ?thesis using less.hyps [of rest vs]
        by (simp add: to_utf8_bmp utf8_unit_seq3)
    next
      case (four w x y z rest vs)
      then have "0x10000 \<le> w * 262144 + x * 4096 + y * 64 + z"
        and "w * 262144 + x * 4096 + y * 64 + z < 0x110000"
        by (cases "w = 0"; cases "w = 4"; auto)+
      with four show ?thesis using less.hyps [of rest vs]
        by (simp add: to_utf8_pair utf8_unit_seq4)
    qed
  qed
qed

text \<open>The bytes of an encoding are bytes, the units of a decoding are 16 bit wide.\<close>

lemma utf8_unit_bytes: "c < 0x110000 \<Longrightarrow> \<forall>b\<in>set (utf8_unit c). b < 256"
  by (auto simp: utf8_unit_def)

lemma to_utf8_bytes:
  "to_utf8 us = Some bs \<Longrightarrow> \<forall>u\<in>set us. u < 0x10000 \<Longrightarrow> \<forall>b\<in>set bs. b < 256"
proof (induction us arbitrary: bs rule: to_utf8.induct)
  case 1
  then show ?case by simp
next
  case (2 u)
  then show ?case using utf8_unit_bytes [of u] by (auto split: if_splits)
next
  case (3 u v us)
  have "u < 0x10000" using "3.prems"(2) by simp
  then have u: "\<forall>b\<in>set (utf8_unit u). b < 256" by (intro utf8_unit_bytes) simp
  show ?case
  proof (cases "high_surrogate u")
    case True
    with "3.prems" obtain cs where low: "low_surrogate v" and cs: "to_utf8 us = Some cs"
      and bs: "bs = utf8_unit (0x10000 + (u - 0xD800) * 1024 + (v - 0xDC00)) @ cs"
      by (auto split: if_splits)
    show ?thesis
      using "3.IH"(1) [OF True low cs] "3.prems"(2) bs
        utf8_unit_bytes [OF surrogate_pair_join(2) [OF True low]] by auto
  next
    case False
    with "3.prems" u "3.IH"(2) [OF False] show ?thesis by (auto split: if_splits)
  qed
qed

lemma from_utf8_units: "from_utf8 bs = Some us \<Longrightarrow> \<forall>u\<in>set us. u < 0x10000"
proof (induction "length bs" arbitrary: bs us rule: less_induct)
  case less
  show ?case
  proof (cases "bs = []")
    case True
    with less.prems show ?thesis by simp
  next
    case False
    with less.prems show ?thesis
    proof (cases rule: from_utf8_ConsE)
      case (one a rest vs)
      then show ?thesis using less.hyps [of rest vs] by auto
    next
      case (two x y rest vs)
      then show ?thesis using less.hyps [of rest vs] by auto
    next
      case (three x y z rest vs)
      then show ?thesis using less.hyps [of rest vs] by auto
    next
      case (four w x y z rest vs)
      then have "w * 262144 + x * 4096 + y * 64 + z < 0x110000" by (cases "w = 4") auto
      then have "\<forall>u\<in>set (surrogate_pair (w * 262144 + x * 4096 + y * 64 + z)). u < 0x10000"
        by (auto simp: surrogate_pair_def)
      with four less.hyps [of rest vs] show ?thesis by auto
    qed
  qed
qed

section \<open>The conversions on the program's strings\<close>

text \<open>The two functions of \<^verbatim>\<open>jni_support.cpp\<close>; \<open>None\<close> is the conversion that throws
  \<^verbatim>\<open>range_error\<close>. \<^verbatim>\<open>from_bytes\<close> takes a \<^verbatim>\<open>const char*\<close>, so it reads up to the first
  NUL.\<close>

definition utf16_to_bytes :: "u16string \<Rightarrow> string option" where
  "utf16_to_bytes s = map_option (map char_of) (to_utf8 (map unat s))"

definition bytes_to_utf16 :: "string \<Rightarrow> u16string option" where
  "bytes_to_utf16 s = map_option (map of_nat) (from_utf8 (map of_char (c_str s)))"

lemma unat_u16_less: "unat (u :: u16) < 0x10000"
  using unsigned_less [of u] by simp

lemma of_char_less: "(of_char c :: nat) < 256"
  using nat_of_char_less_256 by simp

lemma to_utf8_nonzero:
  "to_utf8 us = Some bs \<Longrightarrow> 0 \<notin> set us \<Longrightarrow> 0 \<notin> set bs"
proof (induction us arbitrary: bs rule: to_utf8.induct)
  case 1
  then show ?case by simp
next
  case (2 u)
  then show ?case by (auto simp: utf8_unit_def split: if_splits)
next
  case (3 u v us)
  then show ?case by (cases "high_surrogate u") (auto simp: utf8_unit_def split: if_splits)
qed

lemma bytes_of_utf16_roundtrip:
  assumes t: "utf16_to_bytes s = Some t" and nul: "0 \<notin> set s"
  shows "CHR 0x00 \<notin> set t" and "bytes_to_utf16 t = Some s"
proof -
  have units: "\<forall>u\<in>set (map unat s). u < 0x10000" by (auto simp: unat_u16_less)
  obtain bs where bs: "to_utf8 (map unat s) = Some bs" and t: "t = map char_of bs"
    using t by (auto simp: utf16_to_bytes_def)
  have lt: "\<forall>b\<in>set bs. b < 256" using to_utf8_bytes [OF bs units] .
  have "0 \<notin> set (map unat s)" using nul by (auto simp: unat_eq_0)
  then have "0 \<notin> set bs" using to_utf8_nonzero [OF bs] by blast
  moreover have "b = 0" if "b \<in> set bs" and "char_of b = CHR 0x00" for b :: nat
  proof -
    have "b mod 256 = of_char (char_of b :: char)" by simp
    also have "\<dots> = 0" using that(2) by simp
    finally show ?thesis using lt that(1) by auto
  qed
  ultimately show nul_t: "CHR 0x00 \<notin> set t" unfolding t set_map by (metis imageE)
  have "map of_char (c_str t) = bs"
    using lt by (simp add: c_str_id [OF nul_t]) (simp add: t map_idI)
  moreover have "map of_nat (map unat s) = s" by (simp add: map_idI)
  ultimately show "bytes_to_utf16 t = Some s"
    using from_to_utf8 [OF bs units] by (simp add: bytes_to_utf16_def)
qed

lemma utf16_of_bytes_roundtrip:
  assumes "bytes_to_utf16 t = Some s"
  shows "utf16_to_bytes s = Some (c_str t)"
proof -
  obtain us where us: "from_utf8 (map of_char (c_str t)) = Some us" and s: "s = map of_nat us"
    using assms by (auto simp: bytes_to_utf16_def)
  have "map unat s = us"
    using from_utf8_units [OF us] by (auto simp: s unat_of_nat intro!: map_idI)
  moreover have "map char_of (map of_char (c_str t) :: nat list) = c_str t" by (simp add: map_idI)
  ultimately show ?thesis
    using to_from_utf8 [OF us] by (simp add: utf16_to_bytes_def)
qed

section \<open>Convertible strings\<close>

text \<open>The strings whose conversion does not throw: those without unpaired surrogates. They are
  closed under concatenation, so a path made of convertible parts is convertible.\<close>

definition convertible :: "u16string \<Rightarrow> bool" where
  "convertible s \<longleftrightarrow> utf16_to_bytes s \<noteq> None"

lemma to_utf8_append:
  "to_utf8 us = Some a \<Longrightarrow> to_utf8 vs = Some b \<Longrightarrow> to_utf8 (us @ vs) = Some (a @ b)"
proof (induction us arbitrary: a rule: to_utf8.induct)
  case 1
  then show ?case by simp
next
  case (2 u)
  then show ?case by (cases vs) (auto split: if_splits)
next
  case (3 u v us)
  then show ?case by (cases "high_surrogate u") (auto split: if_splits)
qed

lemma convertible_append: "convertible s \<Longrightarrow> convertible t \<Longrightarrow> convertible (s @ t)"
  by (auto simp: convertible_def utf16_to_bytes_def to_utf8_append)

lemma convertible_slash: "convertible [0x2F]"
  by (simp add: convertible_def utf16_to_bytes_def high_surrogate_def low_surrogate_def)

lemma bytes_to_utf16_convertible: "bytes_to_utf16 t = Some s \<Longrightarrow> convertible s"
  by (simp add: convertible_def utf16_of_bytes_roundtrip)

text \<open>The messages of the code are ASCII, where a byte is its own code unit.\<close>

lemma from_utf8_ascii: "\<forall>b\<in>set bs. b < 0x80 \<Longrightarrow> from_utf8 bs = Some bs"
proof (induction bs)
  case Nil
  then show ?case by simp
next
  case (Cons b bs)
  then have "utf8_unit b = [b]" by (simp add: utf8_unit_def)
  with Cons from_utf8_1 [of b bs] show ?case by simp
qed

lemma bytes_to_utf16_ascii:
  assumes "\<forall>c\<in>set t. 0 < (of_char c :: nat) \<and> of_char c < (0x80 :: nat)"
  shows "bytes_to_utf16 t = Some (map (\<lambda>c. of_nat (of_char c)) t)"
proof -
  have "c \<noteq> CHR 0x00" if "c \<in> set t" for c
    using bspec [OF assms that] by (cases "c = CHR 0x00") simp_all
  then have "c_str t = t" by (intro c_str_id) blast
  moreover have "from_utf8 (map of_char t) = Some (map of_char t)"
    by (rule from_utf8_ascii) (use assms in \<open>simp only: set_map ball_simps, blast\<close>)
  ultimately show ?thesis by (simp add: bytes_to_utf16_def)
qed

end
