(* ===== verification/Errors.thy ===== *)
theory Errors
  imports Utf
begin

text \<open>
  The exceptions of the native code (\<^verbatim>\<open>exception.h\<close>, \<^verbatim>\<open>jni_support.h\<close>,
  \<^verbatim>\<open>generic_fsnotifier.h\<close>, \<^verbatim>\<open>linux_fsnotifier.h\<close>), the messages they carry and the
  text the log calls format. Building a message converts the path to UTF-8 and can
  itself throw, so the message builders return a sum.
\<close>

section \<open>Decimal and hexadecimal text\<close>

definition digit_char :: "nat \<Rightarrow> char" where
  "digit_char d = char_of (if d < 10 then 48 + d else 87 + d)"

fun show_nat :: "nat \<Rightarrow> string" where
  "show_nat n = (if n < 10 then [digit_char n] else show_nat (n div 10) @ [digit_char (n mod 10)])"

fun show_hex :: "nat \<Rightarrow> string" where
  "show_hex n = (if n < 16 then [digit_char n] else show_hex (n div 16) @ [digit_char (n mod 16)])"

declare show_nat.simps [simp del] show_hex.simps [simp del]

definition to_string :: "int \<Rightarrow> string" where
  "to_string i = (if i < 0 then CHR ''-'' # show_nat (nat (- i)) else show_nat (nat i))"

section \<open>printf\<close>

text \<open>The conversions the log calls use: \<^verbatim>\<open>%s\<close>, \<^verbatim>\<open>%d\<close> and \<^verbatim>\<open>%x\<close>, each with the argument it
  consumes.\<close>

datatype fmt_arg = Str string | Dec int | Hex "32 word"

primrec show_arg :: "fmt_arg \<Rightarrow> string" where
  "show_arg (Str s) = c_str s"
| "show_arg (Dec i) = to_string i"
| "show_arg (Hex w) = show_hex (unat w)"

fun format_text :: "string \<Rightarrow> fmt_arg list \<Rightarrow> string" where
  "format_text [] args = []"
| "format_text (c # d # cs) (a # args) =
     (if c = CHR ''%'' \<and> d \<in> set ''sdx'' then show_arg a @ format_text cs args
      else c # format_text (d # cs) (a # args))"
| "format_text (c # cs) args = c # format_text cs args"

declare format_text.simps [simp del]

section \<open>The exceptions\<close>

text \<open>The exceptions of the standard library the code can meet: the string conversions throw
  \<^verbatim>\<open>range_error\<close>, \<^verbatim>\<open>unordered_map::at\<close> throws \<^verbatim>\<open>out_of_range\<close>, an allocation \<^verbatim>\<open>bad_alloc\<close>. Their \<^verbatim>\<open>what()\<close> is the
  library's choice.\<close>

datatype std_exception = RangeError | OutOfRange | BadAlloc

datatype exn =
    StdException std_exception
  | RuntimeError string
  | FileWatcherException string
  | InotifyInstanceLimitTooLowException
  | InotifyWatchesLimitTooLowException
  | JavaExceptionThrownException

fun exn_what :: "(std_exception \<Rightarrow> string) \<Rightarrow> exn \<Rightarrow> string" where
  "exn_what lib (StdException k) = lib k"
| "exn_what lib (RuntimeError msg) = msg"
| "exn_what lib (FileWatcherException msg) = msg"
| "exn_what lib InotifyInstanceLimitTooLowException = ''Inotify instance limit too low''"
| "exn_what lib InotifyWatchesLimitTooLowException = ''Inotify watches limit too low''"
| "exn_what lib JavaExceptionThrownException = ''Java exception thrown from native code''"

section \<open>String conversions and messages\<close>

definition utf8ToUtf16String :: "string \<Rightarrow> exn + u16string" where
  "utf8ToUtf16String s =
     (case bytes_to_utf16 s of None \<Rightarrow> Inl (StdException RangeError) | Some t \<Rightarrow> Inr t)"

definition utf16ToUtf8String :: "u16string \<Rightarrow> exn + string" where
  "utf16ToUtf8String s =
     (case utf16_to_bytes s of None \<Rightarrow> Inl (StdException RangeError) | Some t \<Rightarrow> Inr t)"

text \<open>The three overloads of \<^verbatim>\<open>createMessage\<close>.\<close>

definition createMessage_path :: "string \<Rightarrow> u16string \<Rightarrow> exn + string" where
  "createMessage_path msg path =
     (case utf16ToUtf8String path of
        Inl e \<Rightarrow> Inl e
      | Inr p \<Rightarrow> Inr (msg @ '': '' @ p))"

definition createMessage_code :: "string \<Rightarrow> int \<Rightarrow> string" where
  "createMessage_code msg code = msg @ '', error = '' @ to_string code"

definition createMessage_path_code :: "string \<Rightarrow> u16string \<Rightarrow> int \<Rightarrow> exn + string" where
  "createMessage_path_code msg path code =
     (case utf16ToUtf8String path of
        Inl e \<Rightarrow> Inl e
      | Inr p \<Rightarrow> Inr (msg @ '', error = '' @ to_string code @ '': '' @ p))"

text \<open>\<^verbatim>\<open>throw FileWatcherException(...)\<close> with each of its constructors: what is thrown is the
  exception of the constructor, if building the message throws one.\<close>

definition FileWatcherException_path :: "string \<Rightarrow> u16string \<Rightarrow> exn" where
  "FileWatcherException_path msg path =
     (case createMessage_path msg path of Inl e \<Rightarrow> e | Inr m \<Rightarrow> FileWatcherException m)"

definition FileWatcherException_code :: "string \<Rightarrow> int \<Rightarrow> exn" where
  "FileWatcherException_code msg code = FileWatcherException (createMessage_code msg code)"

definition FileWatcherException_path_code :: "string \<Rightarrow> u16string \<Rightarrow> int \<Rightarrow> exn" where
  "FileWatcherException_path_code msg path code =
     (case createMessage_path_code msg path code of
        Inl e \<Rightarrow> e | Inr m \<Rightarrow> FileWatcherException m)"

lemma FileWatcherException_path_cases:
  "FileWatcherException_path msg path = StdException RangeError \<or>
   (\<exists>p. utf16ToUtf8String path = Inr p \<and>
        FileWatcherException_path msg path = FileWatcherException (msg @ '': '' @ p))"
  by (auto simp: FileWatcherException_path_def createMessage_path_def utf16ToUtf8String_def
      split: option.splits)

lemma FileWatcherException_path_code_cases:
  "FileWatcherException_path_code msg path code = StdException RangeError \<or>
   (\<exists>p. utf16ToUtf8String path = Inr p \<and>
        FileWatcherException_path_code msg path code =
          FileWatcherException (msg @ '', error = '' @ to_string code @ '': '' @ p))"
  by (auto simp: FileWatcherException_path_code_def createMessage_path_code_def
      utf16ToUtf8String_def split: option.splits)

lemma FileWatcherException_path_neq [simp]:
  "FileWatcherException_path msg path \<noteq> JavaExceptionThrownException"
  "FileWatcherException_path msg path \<noteq> StdException OutOfRange"
  using FileWatcherException_path_cases [of msg path] by auto

lemma FileWatcherException_path_code_neq [simp]:
  "FileWatcherException_path_code msg path code \<noteq> JavaExceptionThrownException"
  "FileWatcherException_path_code msg path code \<noteq> StdException OutOfRange"
  using FileWatcherException_path_code_cases [of msg path code] by auto

section \<open>Round trips of the conversions\<close>

lemma utf16ToUtf8String_Inr [simp]: "utf16ToUtf8String s = Inr t \<longleftrightarrow> utf16_to_bytes s = Some t"
  by (simp add: utf16ToUtf8String_def split: option.split)

lemma utf8ToUtf16String_Inr [simp]: "utf8ToUtf16String t = Inr s \<longleftrightarrow> bytes_to_utf16 t = Some s"
  by (simp add: utf8ToUtf16String_def split: option.split)

lemma utf16ToUtf8String_Inl [simp]:
  "utf16ToUtf8String s = Inl e \<longleftrightarrow> utf16_to_bytes s = None \<and> e = StdException RangeError"
  by (auto simp: utf16ToUtf8String_def split: option.split)

lemma utf8ToUtf16String_Inl [simp]:
  "utf8ToUtf16String s = Inl e \<longleftrightarrow> bytes_to_utf16 s = None \<and> e = StdException RangeError"
  by (auto simp: utf8ToUtf16String_def split: option.split)

lemma utf8ToUtf16String_Nil [simp]: "utf8ToUtf16String [] = Inr []"
  by (simp add: bytes_to_utf16_def c_str_def)

text \<open>
  C33: The two string conversions are inverse to each other on NUL-free strings: a UTF-16
  string converts to some UTF-8 bytes exactly when those bytes convert back to it, surrogate
  pairs included. So a path reported to Java is the path that was handed to the operating
  system, and no two paths share their UTF-8 form.
\<close>

theorem utf_conversions_inverse:
  assumes "0 \<notin> set s" and "CHR 0x00 \<notin> set t"
  shows "utf16ToUtf8String s = Inr t \<longleftrightarrow> utf8ToUtf16String t = Inr s"
  using assms bytes_of_utf16_roundtrip(2) [of s t] utf16_of_bytes_roundtrip [of t s]
  by (auto simp: c_str_id)

text \<open>The path \<open>/\<close>, U+00E9, U+1F600 as \<^verbatim>\<open>char16_t\<close> (four units) and as UTF-8 (seven bytes).\<close>

theorem utf_conversions_inverse_witness:
  "utf16ToUtf8String [0x2F, 0xE9, 0xD83D, 0xDE00] =
     Inr [CHR 0x2F, CHR 0xC3, CHR 0xA9, CHR 0xF0, CHR 0x9F, CHR 0x98, CHR 0x80] \<and>
   utf8ToUtf16String [CHR 0x2F, CHR 0xC3, CHR 0xA9, CHR 0xF0, CHR 0x9F, CHR 0x98, CHR 0x80] =
     Inr [0x2F, 0xE9, 0xD83D, 0xDE00]"
proof -
  let ?s = "[0x2F, 0xE9, 0xD83D, 0xDE00] :: u16string"
  let ?t = "[CHR 0x2F, CHR 0xC3, CHR 0xA9, CHR 0xF0, CHR 0x9F, CHR 0x98, CHR 0x80]"
  have "utf16ToUtf8String ?s = Inr ?t"
    by (simp add: utf16_to_bytes_def utf8_unit_def high_surrogate_def low_surrogate_def char_of_def
        bit_0)
  moreover have "utf16ToUtf8String ?s = Inr ?t \<longleftrightarrow> utf8ToUtf16String ?t = Inr ?s"
    by (rule utf_conversions_inverse) simp_all
  ultimately show ?thesis by simp
qed

end
