(* ===== verification/Jni.thy ===== *)
theory Jni
  imports Errors
begin

text \<open>
  The Java side as the native code sees it: \<^verbatim>\<open>jni_support.cpp\<close>, \<^verbatim>\<open>logging.cpp\<close> and their
  headers. What the virtual machine and the Java callbacks do is a parameter of the model,
  the record \<open>jni\<close>, over a type \<open>'w\<close> for everything outside the native code. The state
  of the native code, \<open>native\<close>, holds that world, \<^verbatim>\<open>errno\<close>, the Java exception pending
  in the current thread and the calls into Java made so far, in order; the servers extend
  it with their own fields.
\<close>

section \<open>The interface to Java\<close>

datatype log_level = TRACE_LEVEL | DEBUG_LEVEL | INFO_LEVEL | WARN_LEVEL | ERROR_LEVEL

text \<open>The number an \<^verbatim>\<open>enum class LogLevel : int\<close> is passed as.\<close>

primrec log_level_value :: "log_level \<Rightarrow> nat" where
  "log_level_value TRACE_LEVEL = 0"
| "log_level_value DEBUG_LEVEL = 1"
| "log_level_value INFO_LEVEL = 2"
| "log_level_value WARN_LEVEL = 3"
| "log_level_value ERROR_LEVEL = 4"

text \<open>A method of a Java object the native code calls, with its arguments. The first five are
  the static logger and the methods of \<^verbatim>\<open>NativeFileWatcherCallback\<close>; \<open>ListAdd\<close> is
  \<^verbatim>\<open>List.add\<close> on the list of dropped paths.\<close>

datatype upcall =
    LogMessage nat string
  | ReportChangeEvent nat u16string
  | ReportUnknownEvent u16string
  | ReportOverflow u16string
  | ReportFailure u16string
  | ListAdd u16string

primrec is_log :: "upcall \<Rightarrow> bool" where
  "is_log (LogMessage l m) = True"
| "is_log (ReportChangeEvent t p) = False"
| "is_log (ReportUnknownEvent p) = False"
| "is_log (ReportOverflow p) = False"
| "is_log (ReportFailure m) = False"
| "is_log (ListAdd p) = False"

text \<open>A Java exception: one the native code threw with \<^verbatim>\<open>ThrowNew\<close> (class and message), or
  one that Java code threw.\<close>

datatype jthrowable = NativeThrown string string | JavaThrown nat

record 'w jni =
  getJavaVM :: "'w \<Rightarrow> int"
  newGlobalRef :: "'w \<Rightarrow> bool"
  getEnv :: "'w \<Rightarrow> int"
  stringCritical :: "u16string \<Rightarrow> 'w \<Rightarrow> bool"
  throwNew :: "string \<Rightarrow> string \<Rightarrow> 'w \<Rightarrow> int"
  callJava :: "upcall \<Rightarrow> 'w \<Rightarrow> jthrowable option \<times> 'w"
  throwableClass :: "jthrowable \<Rightarrow> 'w \<Rightarrow> u16string option"
  throwableMessage :: "jthrowable \<Rightarrow> 'w \<Rightarrow> u16string option option"
  libraryWhat :: "std_exception \<Rightarrow> string"

text \<open>\<open>getJavaVM\<close>, \<open>getEnv\<close>, \<open>throwNew\<close>: the code the JNI function returns; \<open>newGlobalRef\<close>:
  whether \<^verbatim>\<open>NewGlobalRef\<close> returns a reference to the object it is given; \<open>stringCritical\<close>: whether
  \<^verbatim>\<open>GetStringCritical\<close> returns the characters; \<open>callJava\<close>: what the called method throws,
  if it does, and the world after it; \<open>throwableClass\<close> and \<open>throwableMessage\<close>: what
  \<^verbatim>\<open>getName\<close> and \<^verbatim>\<open>getMessage\<close> return, \<open>None\<close> where the call throws and \<open>Some None\<close>
  where the message is \<^verbatim>\<open>null\<close>.\<close>

record 'w native =
  world :: 'w
  errno :: int
  pending :: "jthrowable option"
  upcalls :: "upcall list"
  terminated :: bool
  deleted :: bool

type_synonym ('w, 'z, 'a) action = "(exn, ('w, 'z) native_scheme, 'a) exec"

definition what :: "('w, 'b) jni_scheme \<Rightarrow> exn \<Rightarrow> string" where
  "what j e = exn_what (libraryWhat j) e"

section \<open>JniSupport\<close>

abbreviation JNI_OK :: int where "JNI_OK \<equiv> 0"

definition getJavaVm :: "('w, 'b) jni_scheme \<Rightarrow> ('w, 'z, unit) action" where
  "getJavaVm j =
     bindE (getE (\<lambda>s. getJavaVM j (world s))) (\<lambda>jvmStatus.
     if jvmStatus \<noteq> 0
     then raise (RuntimeError (''Could not get jvm instance: '' @ to_string jvmStatus))
     else ret ())"

text \<open>The constructor of \<^verbatim>\<open>JniGlobalRef\<close>.\<close>

definition construct_JniGlobalRef :: "('w, 'b) jni_scheme \<Rightarrow> ('w, 'z, unit) action" where
  "construct_JniGlobalRef j =
     thenE (getJavaVm j)
     (bindE (getE (\<lambda>s. newGlobalRef j (world s))) (\<lambda>ok.
      if \<not> ok then raise (RuntimeError ''Failed to create global JNI reference'') else ret ()))"

definition getThreadEnv :: "('w, 'b) jni_scheme \<Rightarrow> ('w, 'z, unit) action" where
  "getThreadEnv j =
     bindE (getE (\<lambda>s. getEnv j (world s))) (\<lambda>r.
     if r \<noteq> JNI_OK
     then raise (RuntimeError (''Failed to get JNI env for current thread: '' @ to_string r))
     else ret ())"

text \<open>One call of a Java method: an exception it throws is pending afterwards.\<close>

definition callMethod :: "('w, 'b) jni_scheme \<Rightarrow> upcall \<Rightarrow> ('w, 'z, unit) action" where
  "callMethod j c = modifyE (\<lambda>s.
     s\<lparr>world := snd (callJava j c (world s)),
       pending := fst (callJava j c (world s)),
       upcalls := upcalls s @ [c]\<rparr>)"

definition getJavaExceptionAndPrintStacktrace :: "('w, 'z, jthrowable option) action" where
  "getJavaExceptionAndPrintStacktrace =
     bindE (getE pending) (\<lambda>exception.
     thenE (modifyE (\<lambda>s. s\<lparr>pending := None\<rparr>))
     (ret exception))"

definition javaToUtf16String :: "('w, 'b) jni_scheme \<Rightarrow> u16string \<Rightarrow> ('w, 'z, u16string) action" where
  "javaToUtf16String j javaString =
     bindE (getE (\<lambda>s. stringCritical j javaString (world s))) (\<lambda>ok.
     if \<not> ok then raise (RuntimeError ''Could not get Java string character'')
     else ret javaString)"

definition javaToUtf8String :: "('w, 'b) jni_scheme \<Rightarrow> u16string \<Rightarrow> ('w, 'z, string) action" where
  "javaToUtf8String j javaString =
     bindE (javaToUtf16String j javaString) (\<lambda>s. liftE (utf16ToUtf8String s))"

fun javaToUtf16StringArray ::
    "('w, 'b) jni_scheme \<Rightarrow> u16string list \<Rightarrow> ('w, 'z, u16string list) action" where
  "javaToUtf16StringArray j [] = ret []"
| "javaToUtf16StringArray j (javaString # rest) =
     bindE (javaToUtf16String j javaString) (\<lambda>str.
     bindE (javaToUtf16StringArray j rest) (\<lambda>strings. ret (str # strings)))"

definition rethrowJavaException :: "('w, 'b) jni_scheme \<Rightarrow> ('w, 'z, unit) action" where
  "rethrowJavaException j =
     bindE getJavaExceptionAndPrintStacktrace (\<lambda>exception.
     case exception of
       None \<Rightarrow> ret ()
     | Some t \<Rightarrow>
         thenE (modifyE (\<lambda>s. s\<lparr>pending := None\<rparr>))
         (bindE (getE (\<lambda>s. throwableClass j t (world s))) (\<lambda>javaExceptionType.
          case javaExceptionType of
            None \<Rightarrow> raise (RuntimeError ''Couldn't get exception type'')
          | Some cls \<Rightarrow>
              bindE (javaToUtf8String j cls) (\<lambda>exceptionType.
              bindE (getE (\<lambda>s. throwableMessage j t (world s))) (\<lambda>javaMessage.
              case javaMessage of
                None \<Rightarrow> raise (RuntimeError ''Couldn't get exception message'')
              | Some None \<Rightarrow> raise (RuntimeError (''Caught '' @ exceptionType))
              | Some (Some m) \<Rightarrow>
                  bindE (javaToUtf8String j m) (\<lambda>message.
                  raise (RuntimeError
                    (''Caught '' @ exceptionType @ '' with message: '' @ message))))))))"

definition throwNativeExceptionWhenJavaExceptionOccurred :: "('w, 'z, unit) action" where
  "throwNativeExceptionWhenJavaExceptionOccurred =
     bindE (getE pending) (\<lambda>exception.
     if exception \<noteq> None then raise JavaExceptionThrownException else ret ())"

section \<open>Logging\<close>

text \<open>\<^verbatim>\<open>Logging::send\<close>: the text is formatted into a buffer of 1024 bytes, the last of which is
  the terminating NUL, and handed to the Java logger. An exception of the logger is thrown
  on as a native exception.\<close>

definition LOG_BUFFER_SIZE :: nat where "LOG_BUFFER_SIZE = 1024"

definition logToJava ::
    "('w, 'b) jni_scheme \<Rightarrow> log_level \<Rightarrow> string \<Rightarrow> fmt_arg list \<Rightarrow> ('w, 'z, unit) action" where
  "logToJava j level fmt args =
     (let buffer = take (LOG_BUFFER_SIZE - 1) (format_text fmt args) in
      thenE (getThreadEnv j)
     (thenE (callMethod j (LogMessage (log_level_value level) buffer))
      (rethrowJavaException j)))"

section \<open>What the Java calls leave alone\<close>

text \<open>The calls into Java other than log messages, in order.\<close>

definition reports :: "('w, 'z) native_scheme \<Rightarrow> upcall list" where
  "reports s = filter (\<lambda>c. \<not> is_log c) (upcalls s)"

text \<open>What an operation that only talks to Java cannot touch: the fields of the server, and
  the flags of its life cycle. A \<open>silent\<close> operation logs at most.\<close>

definition same_server :: "('w, 'z) native_scheme \<Rightarrow> ('w, 'z) native_scheme \<Rightarrow> bool" where
  "same_server s s' \<longleftrightarrow> native.more s = native.more s' \<and> terminated s = terminated s' \<and>
     deleted s = deleted s'"

definition framed :: "('w, 'z, 'a) action \<Rightarrow> bool" where
  "framed m \<longleftrightarrow> (\<forall>s0. keeps (\<lambda>s. same_server s s0) m)"

definition silent :: "('w, 'z, 'a) action \<Rightarrow> bool" where
  "silent m \<longleftrightarrow> (\<forall>s0. keeps (\<lambda>s. same_server s s0 \<and> reports s = reports s0 \<and> errno s = errno s0) m)"

lemma same_server_refl [simp]: "same_server s s"
  by (simp add: same_server_def)

lemma same_server_sym: "same_server s s' \<Longrightarrow> same_server s' s"
  by (simp add: same_server_def)

lemma same_server_trans: "same_server s s' \<Longrightarrow> same_server s' s'' \<Longrightarrow> same_server s s''"
  by (simp add: same_server_def)

lemma framedD: "framed m \<Longrightarrow> same_server (snd (m s)) s"
  unfolding framed_def by (metis keepsD same_server_refl)

lemma silentD:
  assumes "silent m"
  shows "same_server (snd (m s)) s" and "reports (snd (m s)) = reports s"
    and "errno (snd (m s)) = errno s"
  using keepsD [OF assms [unfolded silent_def, rule_format, of s], of s] by simp_all

lemma framedI: "(\<And>s0. keeps (\<lambda>s. same_server s s0) m) \<Longrightarrow> framed m"
  by (simp add: framed_def)

lemma silentI:
  "(\<And>s0. keeps (\<lambda>s. same_server s s0 \<and> reports s = reports s0 \<and> errno s = errno s0) m) \<Longrightarrow> silent m"
  by (simp add: silent_def)

lemma silent_framed: "silent m \<Longrightarrow> framed m"
  by (rule framedI, rule keepsI) (blast intro: silentD same_server_trans)

text \<open>An invariant of the server's own fields survives every framed operation.\<close>

lemma framed_keeps:
  assumes "framed m" and "\<And>s s'. same_server s s' \<Longrightarrow> I s' \<Longrightarrow> I s"
  shows "keeps I m"
  using assms(2) framedD [OF assms(1)] by (intro keepsI) blast

named_theorems framed_rules \<open>operations that leave the server alone\<close>

lemma framed_getE [framed_rules]: "framed (getE f)"
  and framed_ret [framed_rules]: "framed (ret x)"
  and framed_raise [framed_rules]: "framed (raise e)"
  and framed_liftE [framed_rules]: "framed (liftE r)"
  by (auto intro!: framedI keeps_rules)

lemma framed_bindE [framed_rules]: "framed m \<Longrightarrow> (\<And>x. framed (f x)) \<Longrightarrow> framed (bindE m f)"
  by (auto simp: framed_def intro!: keeps_rules)

lemma framed_thenE [framed_rules]: "framed m \<Longrightarrow> framed n \<Longrightarrow> framed (thenE m n)"
  by (auto simp: framed_def intro!: keeps_rules)

lemma framed_tryE [framed_rules]: "framed m \<Longrightarrow> (\<And>e. framed (h e)) \<Longrightarrow> framed (tryE m h)"
  by (auto simp: framed_def intro!: keeps_rules)

lemma framed_if [framed_rules]: "framed m \<Longrightarrow> framed n \<Longrightarrow> framed (if b then m else n)"
  by simp

lemma framed_option [framed_rules]:
  "framed m \<Longrightarrow> (\<And>y. framed (f y)) \<Longrightarrow> framed (case x of None \<Rightarrow> m | Some y \<Rightarrow> f y)"
  by (simp split: option.split)

lemma framed_forE [framed_rules]: "(\<And>x. framed (f x)) \<Longrightarrow> framed (forE xs f)"
  by (auto simp: framed_def intro!: keeps_rules)

lemma silent_getE [framed_rules]: "silent (getE f)"
  and silent_ret [framed_rules]: "silent (ret x)"
  and silent_raise [framed_rules]: "silent (raise e)"
  and silent_liftE [framed_rules]: "silent (liftE r)"
  by (auto intro!: silentI keeps_rules)

lemma silent_bindE [framed_rules]: "silent m \<Longrightarrow> (\<And>x. silent (f x)) \<Longrightarrow> silent (bindE m f)"
  by (auto simp: silent_def intro!: keeps_rules)

lemma silent_thenE [framed_rules]: "silent m \<Longrightarrow> silent n \<Longrightarrow> silent (thenE m n)"
  by (auto simp: silent_def intro!: keeps_rules)

lemma silent_if [framed_rules]: "silent m \<Longrightarrow> silent n \<Longrightarrow> silent (if b then m else n)"
  by simp

lemma silent_option [framed_rules]:
  "silent m \<Longrightarrow> (\<And>y. silent (f y)) \<Longrightarrow> silent (case x of None \<Rightarrow> m | Some y \<Rightarrow> f y)"
  by (simp split: option.split)

lemma silent_getThreadEnv [framed_rules]: "silent (getThreadEnv j)"
  unfolding getThreadEnv_def by (intro framed_rules)

lemma silent_getJavaVm [framed_rules]: "silent (getJavaVm j)"
  unfolding getJavaVm_def by (intro framed_rules)

lemma silent_construct_JniGlobalRef [framed_rules]: "silent (construct_JniGlobalRef j)"
  unfolding construct_JniGlobalRef_def by (intro framed_rules)

lemma framed_callMethod [framed_rules]: "framed (callMethod j c)"
  by (auto intro!: framedI keeps_modifyE simp: callMethod_def same_server_def)

lemma silent_callMethod [framed_rules]: "silent (callMethod j (LogMessage l m))"
  by (auto intro!: silentI keeps_modifyE simp: callMethod_def same_server_def reports_def)

lemma silent_modify_pending [framed_rules]: "silent (modifyE (\<lambda>s. s\<lparr>pending := p\<rparr>))"
  by (auto intro!: silentI keeps_modifyE simp: same_server_def reports_def)

lemma silent_getJavaException [framed_rules]: "silent getJavaExceptionAndPrintStacktrace"
  unfolding getJavaExceptionAndPrintStacktrace_def by (intro framed_rules)

lemma silent_throwNative [framed_rules]: "silent throwNativeExceptionWhenJavaExceptionOccurred"
  unfolding throwNativeExceptionWhenJavaExceptionOccurred_def by (intro framed_rules)

lemma silent_javaToUtf16String [framed_rules]: "silent (javaToUtf16String j s)"
  unfolding javaToUtf16String_def by (intro framed_rules)

lemma silent_javaToUtf8String [framed_rules]: "silent (javaToUtf8String j s)"
  unfolding javaToUtf8String_def by (intro framed_rules)

lemma silent_javaToUtf16StringArray [framed_rules]: "silent (javaToUtf16StringArray j ss)"
  by (induction ss) (auto intro!: framed_rules)

lemma silent_rethrowJavaException [framed_rules]: "silent (rethrowJavaException j)"
  unfolding rethrowJavaException_def by (intro framed_rules)

lemma silent_logToJava [framed_rules]: "silent (logToJava j level fmt args)"
  unfolding logToJava_def Let_def by (intro framed_rules)

lemmas framed_of_silent [framed_rules] =
  silent_getJavaVm [THEN silent_framed] silent_construct_JniGlobalRef [THEN silent_framed]
  silent_getThreadEnv [THEN silent_framed] silent_modify_pending [THEN silent_framed]
  silent_getJavaException [THEN silent_framed] silent_throwNative [THEN silent_framed]
  silent_javaToUtf16String [THEN silent_framed] silent_javaToUtf8String [THEN silent_framed]
  silent_javaToUtf16StringArray [THEN silent_framed]
  silent_rethrowJavaException [THEN silent_framed] silent_logToJava [THEN silent_framed]

section \<open>A well-behaved virtual machine\<close>

text \<open>The thread is attached to the virtual machine and the Java logger does not throw: what
  JNI and slf4j document. Only properties of what is reported rest on it.\<close>

definition jni_ok :: "('w, 'b) jni_scheme \<Rightarrow> bool" where
  "jni_ok j \<longleftrightarrow> (\<forall>w. getEnv j w = JNI_OK) \<and> (\<forall>l m w. fst (callJava j (LogMessage l m) w) = None)"

text \<open>The state after a Java call whose exception, if any, has been cleared.\<close>

definition after_call ::
    "('w, 'b) jni_scheme \<Rightarrow> upcall \<Rightarrow> ('w, 'z) native_scheme \<Rightarrow> ('w, 'z) native_scheme" where
  "after_call j c s =
     s\<lparr>world := snd (callJava j c (world s)), pending := None, upcalls := upcalls s @ [c]\<rparr>"

lemma after_call_fields [simp]:
  "world (after_call j c s) = snd (callJava j c (world s))"
  "errno (after_call j c s) = errno s"
  "pending (after_call j c s) = None"
  "upcalls (after_call j c s) = upcalls s @ [c]"
  "terminated (after_call j c s) = terminated s"
  "deleted (after_call j c s) = deleted s"
  "native.more (after_call j c s) = native.more s"
  by (simp_all add: after_call_def)

lemma reports_after_call [simp]:
  "reports (after_call j c s) = reports s @ (if is_log c then [] else [c])"
  by (simp add: reports_def)

lemma same_server_after_call [simp]: "same_server (after_call j c s) s"
  by (simp add: same_server_def)

lemma logToJava_ok:
  assumes "jni_ok j"
  shows "logToJava j level fmt args s =
    (Inr (), after_call j (LogMessage (log_level_value level)
       (take (LOG_BUFFER_SIZE - 1) (format_text fmt args))) s)"
  using assms
  by (simp add: logToJava_def getThreadEnv_def callMethod_def rethrowJavaException_def
      getJavaExceptionAndPrintStacktrace_def exec_simps jni_ok_def after_call_def Let_def)

lemma getThreadEnv_ok: "jni_ok j \<Longrightarrow> getThreadEnv j s = (Inr (), s)"
  by (simp add: getThreadEnv_def exec_simps jni_ok_def)

text \<open>A Java call followed by clearing its exception.\<close>

lemma callMethod_cleared:
  "thenE (callMethod j c) (bindE getJavaExceptionAndPrintStacktrace (\<lambda>_. ret ())) s =
    (Inr (), after_call j c s)"
  by (simp add: callMethod_def getJavaExceptionAndPrintStacktrace_def exec_simps after_call_def)

end
