(* ===== verification/Generic.thy ===== *)
theory Generic
  imports Jni
begin

text \<open>
  The part every platform shares: \<^verbatim>\<open>generic_fsnotifier.h\<close> and \<^verbatim>\<open>generic_fsnotifier.cpp\<close>.
  \<^verbatim>\<open>AbstractServer\<close>'s reports to Java, the life cycle of its run loop, the translation of
  native exceptions to Java exceptions, and the JNI entry points, each over the virtual
  functions of a server, which are the record \<open>server_ops\<close>.
\<close>

section \<open>Change types\<close>

datatype change_type = CREATED | REMOVED | MODIFIED | INVALIDATED

text \<open>The enumerator's value, as it is passed to \<^verbatim>\<open>reportChangeEvent(int, String)\<close>.\<close>

primrec change_type_value :: "change_type \<Rightarrow> nat" where
  "change_type_value CREATED = 0"
| "change_type_value REMOVED = 1"
| "change_type_value MODIFIED = 2"
| "change_type_value INVALIDATED = 3"

text \<open>\<^verbatim>\<open>FileWatchEvent.ChangeType.values()\<close>, in Java's declaration order; the callback indexes
  it with the number it gets.\<close>

definition javaChangeTypeValues :: "change_type list" where
  "javaChangeTypeValues = [CREATED, REMOVED, MODIFIED, INVALIDATED]"

lemma change_type_value_java [simp]:
  "change_type_value t < length javaChangeTypeValues"
  "javaChangeTypeValues ! change_type_value t = t"
  by (cases t; simp add: javaChangeTypeValues_def)+

lemma inj_change_type_value: "inj change_type_value"
  by (metis change_type_value_java(2) injI)

section \<open>Creating the shared part of a server\<close>

text \<open>\<^verbatim>\<open>AbstractServer::AbstractServer\<close>: the virtual machine is looked up, and the callback is held by
  a global reference.\<close>

definition construct_AbstractServer :: "('w, 'b) jni_scheme \<Rightarrow> ('w, 'z, unit) action" where
  "construct_AbstractServer j = thenE (getJavaVm j) (construct_JniGlobalRef j)"

lemma silent_construct_AbstractServer [framed_rules]: "silent (construct_AbstractServer j)"
  unfolding construct_AbstractServer_def by (intro framed_rules)

definition vm_ok :: "('w, 'b) jni_scheme \<Rightarrow> bool" where
  "vm_ok j \<longleftrightarrow> (\<forall>w. getJavaVM j w = 0) \<and> (\<forall>w. newGlobalRef j w)"

lemma construct_AbstractServer_ok: "vm_ok j \<Longrightarrow> construct_AbstractServer j s = (Inr (), s)"
  by (simp add: construct_AbstractServer_def construct_JniGlobalRef_def getJavaVm_def vm_ok_def exec_simps)

section \<open>Reports to Java\<close>

text \<open>Each report calls one method of the callback object and clears the exception the callback
  may throw.\<close>

definition reportChangeEvent ::
    "('w, 'b) jni_scheme \<Rightarrow> change_type \<Rightarrow> u16string \<Rightarrow> ('w, 'z, unit) action" where
  "reportChangeEvent j type path =
     thenE (callMethod j (ReportChangeEvent (change_type_value type) path))
     (bindE getJavaExceptionAndPrintStacktrace (\<lambda>_. ret ()))"

definition reportUnknownEvent :: "('w, 'b) jni_scheme \<Rightarrow> u16string \<Rightarrow> ('w, 'z, unit) action" where
  "reportUnknownEvent j path =
     thenE (callMethod j (ReportUnknownEvent path))
     (bindE getJavaExceptionAndPrintStacktrace (\<lambda>_. ret ()))"

definition reportOverflow :: "('w, 'b) jni_scheme \<Rightarrow> u16string \<Rightarrow> ('w, 'z, unit) action" where
  "reportOverflow j path =
     bindE (liftE (utf16ToUtf8String path)) (\<lambda>path8.
     thenE (logToJava j INFO_LEVEL ''Detected overflow for %s'' [Str path8])
    (thenE (callMethod j (ReportOverflow path))
     (bindE getJavaExceptionAndPrintStacktrace (\<lambda>_. ret ()))))"

definition reportFailure_message :: "('w, 'b) jni_scheme \<Rightarrow> string \<Rightarrow> ('w, 'z, unit) action" where
  "reportFailure_message j message =
     bindE (liftE (utf8ToUtf16String message)) (\<lambda>utf16Message.
     thenE (callMethod j (ReportFailure utf16Message))
     (bindE getJavaExceptionAndPrintStacktrace (\<lambda>_. ret ())))"

definition reportFailure :: "('w, 'b) jni_scheme \<Rightarrow> exn \<Rightarrow> ('w, 'z, unit) action" where
  "reportFailure j ex = reportFailure_message j (what j ex)"

lemma framed_reports [framed_rules]:
  "framed (reportChangeEvent j t p)"
  "framed (reportUnknownEvent j p)"
  "framed (reportOverflow j p)"
  "framed (reportFailure_message j m)"
  "framed (reportFailure j e)"
  unfolding reportChangeEvent_def reportUnknownEvent_def reportOverflow_def
    reportFailure_message_def reportFailure_def
  by (intro framed_rules)+

lemma reportChangeEvent_run:
  "reportChangeEvent j t p s = (Inr (), after_call j (ReportChangeEvent (change_type_value t) p) s)"
  unfolding reportChangeEvent_def by (rule callMethod_cleared)

lemma reportUnknownEvent_run:
  "reportUnknownEvent j p s = (Inr (), after_call j (ReportUnknownEvent p) s)"
  unfolding reportUnknownEvent_def by (rule callMethod_cleared)

lemma reportFailure_message_run:
  "reportFailure_message j m s =
    (case utf8ToUtf16String m of
       Inl e \<Rightarrow> (Inl e, s)
     | Inr u \<Rightarrow> (Inr (), after_call j (ReportFailure u) s))"
  by (simp add: reportFailure_message_def run_bindE run_liftE callMethod_cleared split: sum.split)

lemma reportOverflow_ok:
  assumes "jni_ok j" and "utf16_to_bytes p = Some p8"
  shows "reportOverflow j p s =
    (Inr (), after_call j (ReportOverflow p)
      (after_call j (LogMessage (log_level_value INFO_LEVEL)
        (take (LOG_BUFFER_SIZE - 1) (format_text ''Detected overflow for %s'' [Str p8]))) s))"
  using assms
  by (simp add: reportOverflow_def run_bindE run_liftE run_thenE logToJava_ok utf16ToUtf8String_def
      callMethod_def getJavaExceptionAndPrintStacktrace_def run_getE run_modifyE run_ret after_call_def)

section \<open>Native exceptions as Java exceptions\<close>

definition NATIVE_EXCEPTION :: string where
  "NATIVE_EXCEPTION = ''net/rubygrapefruit/platform/NativeException''"

text \<open>\<^verbatim>\<open>rethrowAsJavaException(env, e, exceptionClass)\<close>: where \<^verbatim>\<open>ThrowNew\<close> fails it only writes to
  the standard error stream.\<close>

definition rethrowAsJavaException_class ::
    "('w, 'b) jni_scheme \<Rightarrow> exn \<Rightarrow> string \<Rightarrow> ('w, 'z, unit) action" where
  "rethrowAsJavaException_class j e exceptionClass =
     bindE (getE (\<lambda>s. throwNew j exceptionClass (what j e) (world s))) (\<lambda>r.
     if r \<noteq> 0 then ret ()
     else modifyE (\<lambda>s. s\<lparr>pending := Some (NativeThrown exceptionClass (what j e))\<rparr>))"

definition rethrowAsJavaException :: "('w, 'b) jni_scheme \<Rightarrow> exn \<Rightarrow> ('w, 'z, unit) action" where
  "rethrowAsJavaException j e =
     thenE (logToJava j ERROR_LEVEL ''Caught exception: %s'' [Str (what j e)])
     (rethrowAsJavaException_class j e NATIVE_EXCEPTION)"

lemma silent_rethrowAsJavaException_class [framed_rules]:
  "silent (rethrowAsJavaException_class j e c)"
  unfolding rethrowAsJavaException_class_def by (intro framed_rules)

lemma silent_rethrowAsJavaException [framed_rules]: "silent (rethrowAsJavaException j e)"
  unfolding rethrowAsJavaException_def by (intro framed_rules)

lemmas framed_rethrow [framed_rules] =
  silent_rethrowAsJavaException_class [THEN silent_framed]
  silent_rethrowAsJavaException [THEN silent_framed]

section \<open>The run loop's life cycle\<close>

text \<open>An operation that may never return, or whose behaviour the language leaves open, has
  \<open>None\<close> for it.\<close>

type_synonym ('w, 'z, 'a) loop =
  "('w, 'z) native_scheme \<Rightarrow> ((exn + 'a) \<times> ('w, 'z) native_scheme) option"

definition executeRunLoop ::
    "('w, 'b) jni_scheme \<Rightarrow> ('w, 'z, unit) loop \<Rightarrow> ('w, 'z, unit) loop" where
  "executeRunLoop j runLoop s =
     (case runLoop s of
        None \<Rightarrow> None
      | Some (r, s1) \<Rightarrow>
          Some (thenE (tryE (liftE r) (\<lambda>ex. rethrowAsJavaException j ex))
                      (modifyE (\<lambda>s. s\<lparr>terminated := True\<rparr>)) s1))"

text \<open>Waiting on the condition variable releases the mutex, so other threads run meanwhile:
  \<open>wait_for\<close> gives how the wait ended and the state then.\<close>

datatype cv_status = NoTimeout | Timeout

definition awaitTermination ::
    "(int \<Rightarrow> ('w, 'z) native_scheme \<Rightarrow> cv_status \<times> ('w, 'z) native_scheme) \<Rightarrow> int \<Rightarrow>
     ('w, 'z, bool) action" where
  "awaitTermination wait_for timeoutInMillis =
     (\<lambda>s. if terminated s then (Inr True, s)
          else case wait_for timeoutInMillis s of (status, s') \<Rightarrow> (Inr (status \<noteq> Timeout), s'))"

section \<open>The virtual functions, and the JNI entry points over them\<close>

record ('w, 'z) server_ops =
  op_initializeRunLoop :: "('w, 'z, unit) action"
  op_runLoop :: "('w, 'z, unit) loop"
  op_registerPaths :: "u16string list \<Rightarrow> ('w, 'z, unit) action"
  op_unregisterPaths :: "u16string list \<Rightarrow> ('w, 'z, bool) action"
  op_shutdownRunLoop :: "('w, 'z, unit) action"

text \<open>\<open>addr\<close> is what \<^verbatim>\<open>GetDirectBufferAddress\<close> returns for the buffer Java passes, \<open>None\<close> where
  it is \<^verbatim>\<open>NULL\<close>.\<close>

definition getServer :: "nat option \<Rightarrow> ('w, 'z, unit) action" where
  "getServer addr =
     (if addr = None then raise (FileWatcherException ''Closed already'') else ret ())"

definition initializeRunLoop0 ::
    "('w, 'b) jni_scheme \<Rightarrow> ('w, 'z) server_ops \<Rightarrow> nat option \<Rightarrow> ('w, 'z, unit) action" where
  "initializeRunLoop0 j ops addr =
     tryE (thenE (getServer addr) (op_initializeRunLoop ops))
          (\<lambda>e. rethrowAsJavaException j e)"

definition executeRunLoop0 ::
    "('w, 'b) jni_scheme \<Rightarrow> ('w, 'z) server_ops \<Rightarrow> nat option \<Rightarrow> ('w, 'z, unit) loop" where
  "executeRunLoop0 j ops addr s =
     (case getServer addr s of
        (Inl e, s1) \<Rightarrow> Some (rethrowAsJavaException j e s1)
      | (Inr _, s1) \<Rightarrow>
          (case executeRunLoop j (op_runLoop ops) s1 of
             None \<Rightarrow> None
           | Some (r, s2) \<Rightarrow> Some (tryE (liftE r) (\<lambda>e. rethrowAsJavaException j e) s2)))"

definition startWatching0 ::
    "('w, 'b) jni_scheme \<Rightarrow> ('w, 'z) server_ops \<Rightarrow> nat option \<Rightarrow> u16string list \<Rightarrow>
     ('w, 'z, unit) action" where
  "startWatching0 j ops addr javaPaths =
     tryE (thenE (getServer addr)
          (bindE (javaToUtf16StringArray j javaPaths) (\<lambda>paths. op_registerPaths ops paths)))
          (\<lambda>e. if e = JavaExceptionThrownException then ret ()
               else rethrowAsJavaException j e)"

definition stopWatching0 ::
    "('w, 'b) jni_scheme \<Rightarrow> ('w, 'z) server_ops \<Rightarrow> nat option \<Rightarrow> u16string list \<Rightarrow>
     ('w, 'z, bool) action" where
  "stopWatching0 j ops addr javaPaths =
     tryE (thenE (getServer addr)
          (bindE (javaToUtf16StringArray j javaPaths) (\<lambda>paths. op_unregisterPaths ops paths)))
          (\<lambda>e. thenE (rethrowAsJavaException j e) (ret False))"

definition shutdown0 ::
    "('w, 'b) jni_scheme \<Rightarrow> ('w, 'z) server_ops \<Rightarrow> nat option \<Rightarrow> ('w, 'z, unit) action" where
  "shutdown0 j ops addr =
     tryE (thenE (getServer addr) (op_shutdownRunLoop ops))
          (\<lambda>e. rethrowAsJavaException j e)"

text \<open>The conversion of a \<^verbatim>\<open>jlong\<close> to a \<^verbatim>\<open>long\<close>, which has 32 bits on Windows and 64 on the other
  platforms.\<close>

definition to_long :: "nat \<Rightarrow> int \<Rightarrow> int" where
  "to_long longBits n = signed_take_bit (longBits - 1) n"

lemma to_long_small: "0 < longBits \<Longrightarrow> - (2 ^ (longBits - 1)) \<le> n \<Longrightarrow> n < 2 ^ (longBits - 1) \<Longrightarrow>
  to_long longBits n = n"
  by (simp add: to_long_def signed_take_bit_int_eq_self)

definition awaitTermination0 ::
    "('w, 'b) jni_scheme \<Rightarrow> nat \<Rightarrow>
     (int \<Rightarrow> ('w, 'z) native_scheme \<Rightarrow> cv_status \<times> ('w, 'z) native_scheme) \<Rightarrow>
     nat option \<Rightarrow> int \<Rightarrow> ('w, 'z, bool) action" where
  "awaitTermination0 j longBits wait_for addr timeoutInMillis =
     tryE (thenE (getServer addr)
          (bindE (awaitTermination wait_for (to_long longBits timeoutInMillis)) (\<lambda>successful.
           if successful
           then thenE (modifyE (\<lambda>s. s\<lparr>deleted := True\<rparr>)) (ret True)
           else ret False)))
          (\<lambda>e. thenE (rethrowAsJavaException j e) (ret False))"

section \<open>Properties\<close>

lemma javaToUtf16StringArray_ok:
  assumes "\<forall>p w. stringCritical j p w"
  shows "javaToUtf16StringArray j ss s = (Inr ss, s)"
  using assms by (induction ss) (simp_all add: javaToUtf16String_def exec_simps)

text \<open>\<^verbatim>\<open>rethrowAsJavaException\<close> with a logger that does not throw: it returns, and the Java
  exception it threw is pending.\<close>

lemma rethrowAsJavaException_ok:
  assumes "jni_ok j"
  obtains s' where "rethrowAsJavaException j e s = (Inr (), s')" and "same_server s' s"
    and "reports s' = reports s"
    and "(\<forall>c m w. throwNew j c m w = 0) \<Longrightarrow>
      pending s' = Some (NativeThrown NATIVE_EXCEPTION (what j e))"
proof -
  let ?r = "rethrowAsJavaException j e s"
  have "fst ?r = Inr ()"
    by (simp add: rethrowAsJavaException_def rethrowAsJavaException_class_def exec_simps
        logToJava_ok [OF assms])
  moreover have "(\<forall>c m w. throwNew j c m w = 0) \<Longrightarrow>
      pending (snd ?r) = Some (NativeThrown NATIVE_EXCEPTION (what j e))"
    by (simp add: rethrowAsJavaException_def rethrowAsJavaException_class_def exec_simps
        logToJava_ok [OF assms])
  ultimately show thesis
    using that [of "snd ?r"] silentD [OF silent_rethrowAsJavaException, of j e s]
    by (metis prod.collapse)
qed

text \<open>So do the handlers of the entry points.\<close>

lemma rethrowAsJavaException_returns:
  assumes "jni_ok j"
  shows "\<exists>x s'. rethrowAsJavaException j e s = (Inr x, s')"
  using rethrowAsJavaException_ok [OF assms, of e s] by metis

lemma rethrow_unless_java_returns:
  assumes "jni_ok j"
  shows "\<exists>x s'. (if e = JavaExceptionThrownException then ret ()
    else rethrowAsJavaException j e) s = (Inr x, s')"
  using rethrowAsJavaException_returns [OF assms, of e s] by (simp add: run_ret)

lemma rethrow_false_returns:
  assumes "jni_ok j"
  shows "\<exists>x s'. thenE (rethrowAsJavaException j e) (ret False) s = (Inr x, s')"
  using rethrowAsJavaException_returns [OF assms, of e s] by (auto simp: run_thenE run_ret)

lemma tryE_returns:
  assumes "\<And>e s. \<exists>x s'. h e s = (Inr x, s')"
  shows "\<exists>x s'. tryE m h s = (Inr x, s')"
proof (cases "m s")
  case (Pair r s1)
  then show ?thesis using assms by (cases r) (simp_all add: run_tryE)
qed

lemma op_entry_points_return:
  assumes "jni_ok j"
  shows "\<exists>r s'. initializeRunLoop0 j ops addr s = (Inr r, s')"
    and "\<exists>r s'. startWatching0 j ops addr paths s = (Inr r, s')"
    and "\<exists>r s'. stopWatching0 j ops addr paths s = (Inr r, s')"
    and "\<exists>r s'. shutdown0 j ops addr s = (Inr r, s')"
    and "\<exists>r s'. awaitTermination0 j longBits wait_for addr timeout s = (Inr r, s')"
  unfolding initializeRunLoop0_def startWatching0_def stopWatching0_def shutdown0_def
    awaitTermination0_def
  by (intro tryE_returns rethrowAsJavaException_returns [OF assms]
      rethrow_unless_java_returns [OF assms] rethrow_false_returns [OF assms])+

lemma executeRunLoop0_returns:
  assumes "jni_ok j" "executeRunLoop0 j ops addr s = Some (r, s')"
  shows "\<exists>x. r = Inr x"
proof (cases addr)
  case None
  then show ?thesis
    using assms(2) rethrowAsJavaException_returns [OF assms(1), of "FileWatcherException ''Closed already''" s]
    by (auto simp: executeRunLoop0_def getServer_def run_raise)
next
  case (Some a)
  then obtain r2 s2 where "Some (tryE (liftE r2) (\<lambda>e. rethrowAsJavaException j e) s2) = Some (r, s')"
    using assms(2) by (auto simp: executeRunLoop0_def getServer_def run_ret split: option.splits)
  then show ?thesis
    using tryE_returns [of "\<lambda>e. rethrowAsJavaException j e" "liftE r2" s2]
      rethrowAsJavaException_returns [OF assms(1)] by auto
qed

text \<open>A virtual machine and a world for the witnesses: the world is one natural number, the
  callbacks return, nothing fails.\<close>

definition quiet_jni :: "nat jni" where
  "quiet_jni = \<lparr>getJavaVM = (\<lambda>_. 0), newGlobalRef = (\<lambda>_. True), getEnv = (\<lambda>_. JNI_OK), stringCritical = (\<lambda>_ _. True), throwNew = (\<lambda>_ _ _. 0),
     callJava = (\<lambda>_ w. (None, w)), throwableClass = (\<lambda>_ _. None), throwableMessage = (\<lambda>_ _. None),
     libraryWhat = (\<lambda>_. ''library'')\<rparr>"

definition idle_native :: "nat native" where
  "idle_native = \<lparr>world = 0, errno = 0, pending = None, upcalls = [], terminated = False,
     deleted = False\<rparr>"

definition failing_ops :: "exn \<Rightarrow> (nat, unit) server_ops" where
  "failing_ops e = \<lparr>op_initializeRunLoop = raise e, op_runLoop = (\<lambda>s. Some (Inl e, s)),
     op_registerPaths = (\<lambda>_. raise e), op_unregisterPaths = (\<lambda>_. raise e),
     op_shutdownRunLoop = raise e\<rparr>"

lemma quiet_jni_ok: "jni_ok quiet_jni"
  by (simp add: jni_ok_def quiet_jni_def)

text \<open>
  C29: An exception of \<^verbatim>\<open>registerPaths\<close> reaches the Java caller of \<^verbatim>\<open>startWatching\<close> as exactly one
  pending Java exception: a \<^verbatim>\<open>NativeException\<close> with the native message, or, where the server
  already threw a Java exception and left with \<^verbatim>\<open>JavaExceptionThrownException\<close>, that exception,
  which is not overwritten. Nothing is reported through the callback, and the server keeps the
  state the failed registration left.
\<close>

theorem startWatching0_surfaces_exception:
  assumes "jni_ok j" and "\<forall>c m w. throwNew j c m w = 0" and "\<forall>p w. stringCritical j p w"
    and fail: "op_registerPaths ops paths s = (Inl e, s1)"
  shows "\<exists>s'. startWatching0 j ops (Some a) paths s = (Inr (), s') \<and>
    pending s' = (if e = JavaExceptionThrownException then pending s1
                  else Some (NativeThrown NATIVE_EXCEPTION (what j e))) \<and>
    reports s' = reports s1 \<and> same_server s' s1"
proof -
  obtain s' where "rethrowAsJavaException j e s1 = (Inr (), s')" "same_server s' s1"
    "reports s' = reports s1" "pending s' = Some (NativeThrown NATIVE_EXCEPTION (what j e))"
    using rethrowAsJavaException_ok [OF assms(1), of e s1] assms(2) by metis
  then show ?thesis
    by (simp add: startWatching0_def getServer_def exec_simps
        javaToUtf16StringArray_ok [OF assms(3)] fail)
qed

theorem startWatching0_surfaces_exception_witness:
  "\<exists>s'. startWatching0 quiet_jni (failing_ops (FileWatcherException ''Couldn't add watch'')) (Some 1)
      [[0x2F]] idle_native = (Inr (), s') \<and>
    pending s' = Some (NativeThrown NATIVE_EXCEPTION ''Couldn't add watch'')"
proof -
  let ?e = "FileWatcherException ''Couldn't add watch''"
  have "op_registerPaths (failing_ops ?e) [[0x2F]] idle_native = (Inl ?e, idle_native)"
    by (simp add: failing_ops_def run_raise)
  from startWatching0_surfaces_exception [OF quiet_jni_ok _ _ this, of 1] show ?thesis
    by (auto simp: quiet_jni_def what_def)
qed

text \<open>
  C30: Whichever way the run loop ends, \<^verbatim>\<open>executeRunLoop\<close> returns with the server marked as
  terminated, so that \<^verbatim>\<open>awaitTermination\<close> can succeed; an exception of the loop is pending in
  Java afterwards.
\<close>

theorem executeRunLoop_terminates_server:
  assumes "jni_ok j" and "runLoop s = Some (r, s1)"
  shows "\<exists>s'. executeRunLoop j runLoop s = Some (Inr (), s') \<and> terminated s' \<and>
    native.more s' = native.more s1 \<and> reports s' = reports s1 \<and>
    (\<forall>e. r = Inl e \<longrightarrow> (\<forall>c m w. throwNew j c m w = 0) \<longrightarrow>
       pending s' = Some (NativeThrown NATIVE_EXCEPTION (what j e)))"
proof (cases r)
  case (Inl e)
  obtain s' where "rethrowAsJavaException j e s1 = (Inr (), s')" "same_server s' s1"
    "reports s' = reports s1" "(\<forall>c m w. throwNew j c m w = 0) \<Longrightarrow>
      pending s' = Some (NativeThrown NATIVE_EXCEPTION (what j e))"
    using rethrowAsJavaException_ok [OF assms(1), of e s1] by metis
  then show ?thesis
    using Inl assms(2)
    by (auto simp: executeRunLoop_def exec_simps reports_def same_server_def)
next
  case (Inr x)
  then show ?thesis using assms(2) by (simp add: executeRunLoop_def exec_simps reports_def)
qed

theorem executeRunLoop_terminates_server_witness:
  "\<exists>s'. executeRunLoop quiet_jni (\<lambda>s. Some (Inl (RuntimeError ''poll''), s)) idle_native
      = Some (Inr (), s') \<and> terminated s' \<and>
    pending s' = Some (NativeThrown NATIVE_EXCEPTION ''poll'')"
  using executeRunLoop_terminates_server [OF quiet_jni_ok,
      of "\<lambda>s. Some (Inl (RuntimeError ''poll''), s)" idle_native "Inl (RuntimeError ''poll'')" idle_native]
  by (auto simp: quiet_jni_def what_def)

text \<open>
  C32: A spurious wake-up of the wait of \<^verbatim>\<open>awaitTermination\<close>, which the C++ standard allows, is
  taken for termination: \<^verbatim>\<open>awaitTermination0\<close> then returns success and deletes the server while its
  run loop is still running.
\<close>

theorem awaitTermination0_spurious_wakeup:
  assumes "\<not> terminated s" and "wait_for (to_long longBits timeout) s = (NoTimeout, s)"
  shows "\<exists>s'. awaitTermination0 j longBits wait_for (Some a) timeout s = (Inr True, s') \<and>
    deleted s' \<and> \<not> terminated s'"
  using assms by (simp add: awaitTermination0_def awaitTermination_def getServer_def exec_simps)

theorem awaitTermination0_spurious_wakeup_witness:
  "\<exists>s'. awaitTermination0 quiet_jni 64 (\<lambda>t s. (NoTimeout, s)) (Some 1) 100 idle_native =
     (Inr True, s') \<and> deleted s' \<and> \<not> terminated s'"
  by (rule awaitTermination0_spurious_wakeup) (simp_all add: idle_native_def)

end
