(* ===== verification/Bytes.thy ===== *)
theory Bytes
  imports Prelude
begin

text \<open>
  Little-endian integers in byte buffers, as the records the operating systems hand to the servers
  hold them, with the layout to state what a buffer of such records is read as.
\<close>

section \<open>32-bit integers\<close>

definition read_u32 :: "string \<Rightarrow> nat \<Rightarrow> flags32" where
  "read_u32 buf i =
     of_nat (of_char (buf ! i) + 256 * (of_char (buf ! (i + 1)) +
             256 * (of_char (buf ! (i + 2)) + 256 * of_char (buf ! (i + 3)))))"

definition bytes_u32 :: "flags32 \<Rightarrow> string" where
  "bytes_u32 w = (let n = unat w in
     map char_of [n mod 256, n div 256 mod 256, n div 65536 mod 256, n div 16777216])"

lemma length_bytes_u32 [simp]: "length (bytes_u32 w) = 4"
  by (simp add: bytes_u32_def Let_def)

lemma four_bytes:
  "(n::nat) < 2 ^ 32 \<Longrightarrow>
   n mod 256 + 256 * (n div 256 mod 256 + 256 * (n div 65536 mod 256 + 256 * (n div 16777216))) = n"
proof -
  assume "n < 2 ^ 32"
  have "n div 65536 = n div 256 div 256" "n div 16777216 = n div 256 div 256 div 256"
    by (simp_all add: div_mult2_eq [symmetric])
  then show ?thesis
    by (metis mod_mult_div_eq)
qed

lemma read_bytes_u32:
  assumes "length pre = i"
  shows "read_u32 (pre @ bytes_u32 w @ post) i = w"
proof -
  let ?n = "unat w"
  have n: "?n < 2 ^ 32" using unsigned_less [of w] by simp
  have "?n div 16777216 < 256" using n by simp
  then have "read_u32 (pre @ bytes_u32 w @ post) i =
      of_nat (?n mod 256 + 256 * (?n div 256 mod 256 +
        256 * (?n div 65536 mod 256 + 256 * (?n div 16777216))))"
    by (simp add: read_u32_def bytes_u32_def Let_def nth_append assms [symmetric])
  also have "\<dots> = of_nat ?n" by (simp only: four_bytes [OF n])
  finally show ?thesis by simp
qed

section \<open>16-bit code units\<close>

definition bytes_u16 :: "u16 \<Rightarrow> string" where
  "bytes_u16 w = map char_of [unat w mod 256, unat w div 256]"

text \<open>The code units of \<open>n\<close> pairs of bytes.\<close>

fun read_u16s :: "string \<Rightarrow> u16string" where
  "read_u16s (a # b # bs) = of_nat (of_char a + 256 * of_char b) # read_u16s bs"
| "read_u16s bs = []"

lemma length_bytes_u16 [simp]: "length (bytes_u16 w) = 2"
  by (simp add: bytes_u16_def)

lemma read_u16s_append: "read_u16s (concat (map bytes_u16 ws) @ bs) = ws @ read_u16s bs"
proof (induction ws)
  case Nil
  then show ?case by simp
next
  case (Cons w ws)
  have "unat w < 65536" using unsigned_less [of w] by simp
  then have "unat w div 256 < 256" by simp
  then have "(of_nat (unat w mod 256 + 256 * (unat w div 256)) :: u16) = w"
    by (subst mod_mult_div_eq) simp
  with Cons \<open>unat w div 256 < 256\<close> show ?case by (simp add: bytes_u16_def)
qed

lemma length_bytes_u16s [simp]: "length (concat (map bytes_u16 ws)) = 2 * length ws"
  by (induction ws) simp_all

end
