(* ===== verification/Inotify.thy ===== *)
theory Inotify
  imports Generic Bytes
begin

text \<open>
  What the Linux server uses of the operating system (\<^verbatim>\<open><sys/inotify.h>\<close>, \<^verbatim>\<open><errno.h>\<close>,
  \<^verbatim>\<open>poll\<close>, \<^verbatim>\<open>eventfd\<close>, \<^verbatim>\<open>lstat\<close>). The constants and the layout of
  \<^verbatim>\<open>struct inotify_event\<close> are those of the Linux ABI; what the system calls do is a
  parameter, the record \<open>linux_api\<close>, which extends the interface to Java.
\<close>

section \<open>Constants of the ABI\<close>

definition IN_MODIFY :: flags32 where "IN_MODIFY = 0x2"
definition IN_MOVED_FROM :: flags32 where "IN_MOVED_FROM = 0x40"
definition IN_MOVED_TO :: flags32 where "IN_MOVED_TO = 0x80"
definition IN_CREATE :: flags32 where "IN_CREATE = 0x100"
definition IN_DELETE :: flags32 where "IN_DELETE = 0x200"
definition IN_DELETE_SELF :: flags32 where "IN_DELETE_SELF = 0x400"
definition IN_MOVE_SELF :: flags32 where "IN_MOVE_SELF = 0x800"
definition IN_UNMOUNT :: flags32 where "IN_UNMOUNT = 0x2000"
definition IN_Q_OVERFLOW :: flags32 where "IN_Q_OVERFLOW = 0x4000"
definition IN_IGNORED :: flags32 where "IN_IGNORED = 0x8000"
definition IN_ONLYDIR :: flags32 where "IN_ONLYDIR = 0x1000000"
definition IN_EXCL_UNLINK :: flags32 where "IN_EXCL_UNLINK = 0x4000000"
definition IN_ISDIR :: flags32 where "IN_ISDIR = 0x40000000"

definition EVENT_MASK :: flags32 where
  "EVENT_MASK = IN_CREATE OR IN_DELETE OR IN_DELETE_SELF OR IN_EXCL_UNLINK OR IN_MODIFY OR
     IN_MOVE_SELF OR IN_MOVED_FROM OR IN_MOVED_TO OR IN_ONLYDIR"

definition EAGAIN :: int where "EAGAIN = 11"
definition EINVAL :: int where "EINVAL = 22"
definition EMFILE :: int where "EMFILE = 24"
definition ENOSPC :: int where "ENOSPC = 28"

definition EVENT_BUFFER_SIZE :: nat where "EVENT_BUFFER_SIZE = 16 * 1024"

lemmas inotify_flags = IN_MODIFY_def IN_MOVED_FROM_def IN_MOVED_TO_def IN_CREATE_def IN_DELETE_def
  IN_DELETE_SELF_def IN_MOVE_SELF_def IN_UNMOUNT_def IN_Q_OVERFLOW_def IN_IGNORED_def
  IN_ONLYDIR_def IN_EXCL_UNLINK_def IN_ISDIR_def

section \<open>Events in the read buffer\<close>

record inotify_event =
  ev_wd :: int
  ev_mask :: flags32
  ev_cookie :: flags32
  ev_len :: flags32
  ev_name :: string

text \<open>The header is four 32-bit integers; \<open>ev_len\<close> bytes of name follow it.\<close>

definition INOTIFY_EVENT_SIZE :: nat where "INOTIFY_EVENT_SIZE = 16"

text \<open>\<^verbatim>\<open>(struct inotify_event*) &buffer[index]\<close>, \<open>None\<close> where the event would reach past the
  bytes that were read.\<close>

definition event_at :: "string \<Rightarrow> nat \<Rightarrow> inotify_event option" where
  "event_at buf i =
     (if i + INOTIFY_EVENT_SIZE \<le> length buf \<and>
         i + INOTIFY_EVENT_SIZE + unat (read_u32 buf (i + 12)) \<le> length buf
      then Some \<lparr>ev_wd = sint (read_u32 buf i), ev_mask = read_u32 buf (i + 4),
             ev_cookie = read_u32 buf (i + 8), ev_len = read_u32 buf (i + 12),
             ev_name = take (unat (read_u32 buf (i + 12))) (drop (i + INOTIFY_EVENT_SIZE) buf)\<rparr>
      else None)"

definition event_size :: "inotify_event \<Rightarrow> nat" where
  "event_size ev = INOTIFY_EVENT_SIZE + unat (ev_len ev)"

lemma event_at_bounds: "event_at buf i = Some ev \<Longrightarrow> i + event_size ev \<le> length buf"
  by (auto simp: event_at_def event_size_def split: if_splits)

lemma event_size_pos [simp]: "0 < event_size ev"
  by (simp add: event_size_def INOTIFY_EVENT_SIZE_def)

text \<open>How the kernel lays an event out, to state what the server does with a buffer of events.\<close>

definition event_bytes :: "inotify_event \<Rightarrow> string" where
  "event_bytes ev = bytes_u32 (word_of_int (ev_wd ev)) @ bytes_u32 (ev_mask ev) @
     bytes_u32 (ev_cookie ev) @ bytes_u32 (ev_len ev) @ ev_name ev"

definition kernel_event :: "inotify_event \<Rightarrow> bool" where
  "kernel_event ev \<longleftrightarrow> length (ev_name ev) = unat (ev_len ev) \<and> - (2 ^ 31) \<le> ev_wd ev \<and> ev_wd ev < 2 ^ 31"

lemma length_event_bytes: "kernel_event ev \<Longrightarrow> length (event_bytes ev) = event_size ev"
  by (simp add: event_bytes_def event_size_def INOTIFY_EVENT_SIZE_def kernel_event_def)

lemma event_at_event_bytes:
  assumes ev: "kernel_event ev" and i: "length pre = i"
  shows "event_at (pre @ event_bytes ev @ post) i = Some ev"
proof -
  let ?wd = "bytes_u32 (word_of_int (ev_wd ev))" and ?m = "bytes_u32 (ev_mask ev)"
    and ?c = "bytes_u32 (ev_cookie ev)" and ?l = "bytes_u32 (ev_len ev)" and ?n = "ev_name ev"
  let ?buf = "pre @ event_bytes ev @ post"
  have buf: "?buf = pre @ ?wd @ ?m @ ?c @ ?l @ ?n @ post" by (simp add: event_bytes_def)
  have wd: "read_u32 ?buf i = word_of_int (ev_wd ev)"
    using read_bytes_u32 [of pre i] i by (simp add: buf)
  have m: "read_u32 ?buf (i + 4) = ev_mask ev"
    using read_bytes_u32 [of "pre @ ?wd" "i + 4"] i by (simp add: buf)
  have c: "read_u32 ?buf (i + 8) = ev_cookie ev"
    using read_bytes_u32 [of "pre @ ?wd @ ?m" "i + 8"] i by (simp add: buf)
  have l: "read_u32 ?buf (i + 12) = ev_len ev"
    using read_bytes_u32 [of "pre @ ?wd @ ?m @ ?c" "i + 12"] i by (simp add: buf)
  have name: "take (unat (ev_len ev)) (drop (i + INOTIFY_EVENT_SIZE) ?buf) = ?n"
    using ev i by (simp add: buf kernel_event_def INOTIFY_EVENT_SIZE_def)
  have fits: "i + INOTIFY_EVENT_SIZE + unat (ev_len ev) \<le> length ?buf"
    using length_event_bytes [OF ev] i by (simp add: event_size_def)
  have "sint (word_of_int (ev_wd ev) :: flags32) = ev_wd ev"
    using ev by (simp add: kernel_event_def signed_of_int signed_take_bit_int_eq_self)
  with wd m c l name fits show ?thesis by (simp add: event_at_def)
qed

section \<open>The system calls\<close>

text \<open>A call gives \<open>Inl\<close> of the error number or \<open>Inr\<close> of its result, and the world after it.
  \<open>fionread\<close> is what the variable handed to \<^verbatim>\<open>ioctl(FIONREAD)\<close> holds afterwards,
  \<open>pollFds\<close> whether the shutdown event and the inotify descriptor are readable.
  \<open>iterationOrder\<close> is the order in which an \<^verbatim>\<open>unordered_map\<close> with the given keys is
  traversed, which the C++ standard leaves open.\<close>

record 'w linux_api = "'w jni" +
  inotifyInit :: "'w \<Rightarrow> (int + int) \<times> 'w"
  eventfdCreate :: "'w \<Rightarrow> (int + int) \<times> 'w"
  lstatInode :: "string \<Rightarrow> 'w \<Rightarrow> (int + 64 word) \<times> 'w"
  inotifyAddWatch :: "string \<Rightarrow> flags32 \<Rightarrow> 'w \<Rightarrow> (int + int) \<times> 'w"
  inotifyRmWatch :: "int \<Rightarrow> 'w \<Rightarrow> (int + unit) \<times> 'w"
  fionread :: "'w \<Rightarrow> 32 word \<times> 'w"
  readInotify :: "nat \<Rightarrow> 'w \<Rightarrow> (int + string) \<times> 'w"
  pollFds :: "int \<Rightarrow> 'w \<Rightarrow> (int + bool \<times> bool) \<times> 'w"
  readEventfd :: "'w \<Rightarrow> (int + unit) \<times> 'w"
  writeEventfd :: "'w \<Rightarrow> 'w"
  iterationOrder :: "u16string set \<Rightarrow> 'w \<Rightarrow> u16string list"

text \<open>A failing call sets \<^verbatim>\<open>errno\<close> and yields \<open>None\<close>, the code's \<^verbatim>\<open>-1\<close>.\<close>

definition syscall :: "('w \<Rightarrow> (int + 'r) \<times> 'w) \<Rightarrow> ('w, 'z, 'r option) action" where
  "syscall f = (\<lambda>s. case f (world s) of
       (Inl e, w) \<Rightarrow> (Inr None, s\<lparr>world := w, errno := e\<rparr>)
     | (Inr r, w) \<Rightarrow> (Inr (Some r), s\<lparr>world := w\<rparr>))"

lemma syscall_cases:
  obtains (fail) e w where "f (world s) = (Inl e, w)"
      "syscall f s = (Inr None, s\<lparr>world := w, errno := e\<rparr>)"
  | (ok) r w where "f (world s) = (Inr r, w)" "syscall f s = (Inr (Some r), s\<lparr>world := w\<rparr>)"
  by (cases "f (world s)"; cases "fst (f (world s))") (auto simp: syscall_def)

lemma syscall_returns: "\<exists>r s'. syscall f s = (Inr r, s')"
  by (cases rule: syscall_cases [of f s]) auto

lemma same_server_syscall: "same_server (snd (syscall f s)) s"
  by (cases rule: syscall_cases [of f s]) (auto simp: same_server_def)

lemma framed_syscall [framed_rules]: "framed (syscall f)"
  by (auto simp: framed_def keeps_iff intro: same_server_trans same_server_syscall)

lemma reports_syscall [simp]: "reports (snd (syscall f s)) = reports s"
  by (cases rule: syscall_cases [of f s]) (auto simp: reports_def)

end
