(* ===== verification/Registry.thy ===== *)
theory Registry
  imports Prelude
begin

text \<open>
  The contract the servers of all platforms share for \<^verbatim>\<open>registerPaths\<close> and
  \<^verbatim>\<open>unregisterPaths\<close>, as locales: what registering or unregistering a single path does
  to the set of watched paths. The lemmas about whole batches, which every server
  handles by a loop that stops at the first exception, are proved here once.
\<close>

locale path_registry =
  fixes inv :: "'s \<Rightarrow> bool"
    and watched :: "'s \<Rightarrow> 'p set"
    and reg1 :: "'p \<Rightarrow> ('e, 's, unit) exec"
    and unreg1 :: "'p \<Rightarrow> ('e, 's, bool) exec"
  assumes keeps_reg1: "keeps inv (reg1 p)"
    and keeps_unreg1: "keeps inv (unreg1 p)"
    and reg1_ok: "inv s \<Longrightarrow> reg1 p s = (Inr (), s') \<Longrightarrow>
      p \<notin> watched s \<and> watched s' = insert p (watched s)"
    and reg1_err: "inv s \<Longrightarrow> reg1 p s = (Inl e, s') \<Longrightarrow> watched s' = watched s"
    and unreg1_true: "inv s \<Longrightarrow> unreg1 p s = (Inr True, s') \<Longrightarrow> watched s' = watched s - {p}"
    and unreg1_any: "inv s \<Longrightarrow> unreg1 p s = (r, s') \<Longrightarrow>
      watched s - {p} \<subseteq> watched s' \<and> watched s' \<subseteq> watched s"
begin

lemma keeps_batches:
  "keeps inv (forE ps reg1)" "keeps inv (conjE ps unreg1 b)"
  by (auto intro!: keeps_rules keeps_reg1 keeps_unreg1)

lemma inv_reg1: "inv s \<Longrightarrow> reg1 p s = (r, s') \<Longrightarrow> inv s'"
  by (rule keepsD' [OF keeps_reg1])

lemma inv_unreg1: "inv s \<Longrightarrow> unreg1 p s = (r, s') \<Longrightarrow> inv s'"
  by (rule keepsD' [OF keeps_unreg1])

text \<open>A batch that is registered without an exception was free of duplicates and of paths
  watched already, and adds exactly its paths.\<close>

lemma register_batch_ok:
  assumes "inv s" and "forE ps reg1 s = (Inr (), s')"
  shows "watched s' = watched s \<union> set ps \<and> distinct ps \<and> set ps \<inter> watched s = {}"
  using assms
proof (induction ps arbitrary: s)
  case Nil
  then show ?case by (simp add: run_ret)
next
  case (Cons p ps)
  from Cons.prems(2) obtain s1 where s1: "reg1 p s = (Inr (), s1)"
    and rest: "forE ps reg1 s1 = (Inr (), s')"
    by (auto simp: run_thenE split: prod.splits sum.splits)
  from Cons.IH [OF inv_reg1 [OF Cons.prems(1) s1] rest] reg1_ok [OF Cons.prems(1) s1]
  show ?case by auto
qed

text \<open>A batch that fails stays registered up to the path that failed: there is no rollback.\<close>

lemma register_batch_err:
  assumes "inv s" and "forE ps reg1 s = (Inl e, s')"
  shows "\<exists>k < length ps. watched s' = watched s \<union> set (take k ps)"
  using assms
proof (induction ps arbitrary: s)
  case Nil
  then show ?case by (simp add: run_ret)
next
  case (Cons p ps)
  show ?case
  proof (cases "fst (reg1 p s)")
    case (Inl e')
    then have "reg1 p s = (Inl e, s')"
      using Cons.prems(2) by (cases "reg1 p s") (simp add: run_thenE)
    from reg1_err [OF Cons.prems(1) this] show ?thesis by (intro exI [of _ 0]) simp
  next
    case (Inr u)
    then obtain s1 where s1: "reg1 p s = (Inr (), s1)" by (cases "reg1 p s") simp
    then have "forE ps reg1 s1 = (Inl e, s')" using Cons.prems(2) by (simp add: run_thenE)
    from Cons.IH [OF inv_reg1 [OF Cons.prems(1) s1] this] obtain k
      where "k < length ps" "watched s' = watched s1 \<union> set (take k ps)" by blast
    with reg1_ok [OF Cons.prems(1) s1] show ?thesis by (intro exI [of _ "Suc k"]) auto
  qed
qed

text \<open>Unregistering a batch touches no path outside it and watches nothing new.\<close>

lemma unregister_batch_bounds:
  assumes "inv s" and "conjE ps unreg1 b s = (r, s')"
  shows "watched s - set ps \<subseteq> watched s' \<and> watched s' \<subseteq> watched s"
  using assms
proof (induction ps arbitrary: s b)
  case Nil
  then show ?case by (simp add: run_ret)
next
  case (Cons p ps)
  obtain r1 s1 where s1: "unreg1 p s = (r1, s1)" by fastforce
  note bounds = unreg1_any [OF Cons.prems(1) s1]
  show ?case
  proof (cases r1)
    case (Inl e)
    with s1 Cons.prems(2) have "s' = s1" by (auto simp: run_bindE)
    with bounds show ?thesis by auto
  next
    case (Inr x)
    with s1 Cons.prems(2) have "conjE ps unreg1 (b \<and> x) s1 = (r, s')" by (simp add: run_bindE)
    from Cons.IH [OF inv_unreg1 [OF Cons.prems(1) s1] this] bounds show ?thesis by auto
  qed
qed

text \<open>The result is \<open>True\<close> only if every path of the batch was unregistered.\<close>

lemma conjE_trueD: "conjE ps unreg1 b s = (Inr True, s') \<Longrightarrow> b"
  by (induction ps arbitrary: s b) (auto simp: run_ret run_bindE split: prod.splits sum.splits)

lemma unregister_batch_true:
  assumes "inv s" and "conjE ps unreg1 b s = (Inr True, s')"
  shows "watched s' = watched s - set ps"
  using assms
proof (induction ps arbitrary: s b)
  case Nil
  then show ?case by (simp add: run_ret)
next
  case (Cons p ps)
  from Cons.prems(2) obtain x s1 where s1: "unreg1 p s = (Inr x, s1)"
    and rest: "conjE ps unreg1 (b \<and> x) s1 = (Inr True, s')"
    by (auto simp: run_bindE split: prod.splits sum.splits)
  from conjE_trueD [OF rest] s1 have "unreg1 p s = (Inr True, s1)" by simp
  from Cons.IH [OF inv_unreg1 [OF Cons.prems(1) s1] rest] unreg1_true [OF Cons.prems(1) this]
  show ?case by auto
qed

end

text \<open>A server that answers \<open>True\<close> only for a path it was watching.\<close>

locale strict_path_registry = path_registry +
  assumes unreg1_true_watched: "inv s \<Longrightarrow> unreg1 p s = (Inr True, s') \<Longrightarrow> p \<in> watched s"
begin

lemma unregister_batch_true_watched:
  assumes "inv s" and "conjE ps unreg1 b s = (Inr True, s')"
  shows "set ps \<subseteq> watched s \<and> distinct ps"
  using assms
proof (induction ps arbitrary: s b)
  case Nil
  then show ?case by simp
next
  case (Cons p ps)
  from Cons.prems(2) obtain x s1 where s1: "unreg1 p s = (Inr x, s1)"
    and rest: "conjE ps unreg1 (b \<and> x) s1 = (Inr True, s')"
    by (auto simp: run_bindE split: prod.splits sum.splits)
  from conjE_trueD [OF rest] s1 have t: "unreg1 p s = (Inr True, s1)" by simp
  from Cons.IH [OF inv_unreg1 [OF Cons.prems(1) s1] rest] unreg1_true [OF Cons.prems(1) t]
    unreg1_true_watched [OF Cons.prems(1) t]
  show ?case by auto
qed

end

end
