(* ===== verification/LinuxServer.thy ===== *)
theory LinuxServer
  imports Inotify Registry
begin

text \<open>
  The Linux server: \<^verbatim>\<open>linux_fsnotifier.h\<close> and \<^verbatim>\<open>linux_fsnotifier.cpp\<close>, operation by
  operation. The state extends \<open>native\<close> with the fields of the class \<^verbatim>\<open>Server\<close>; its
  \<^verbatim>\<open>unordered_map\<close>s are maps. A \<^verbatim>\<open>WatchPoint\<close> lives in \<open>watchPoints\<close> under its path, so
  the reference the code holds to it is its key.
\<close>

section \<open>State\<close>

datatype watch_point_status = LISTENING | CANCELLED

datatype cancel_result = CANCEL_CANCELLED | CANCEL_NOT_CANCELLED | CANCEL_ALREADY_CANCELLED

record watch_point =
  wp_status :: watch_point_status
  wp_watchDescriptor :: int
  wp_path :: u16string
  wp_inode :: "64 word"

text \<open>The number logged with \<^verbatim>\<open>%d\<close>.\<close>

primrec watch_point_status_value :: "watch_point_status \<Rightarrow> int" where
  "watch_point_status_value LISTENING = 0"
| "watch_point_status_value CANCELLED = 1"

definition new_watch_point :: "u16string \<Rightarrow> int \<Rightarrow> 64 word \<Rightarrow> watch_point" where
  "new_watch_point path watchDescriptor inode =
     \<lparr>wp_status = LISTENING, wp_watchDescriptor = watchDescriptor, wp_path = path, wp_inode = inode\<rparr>"

record 'w linux_server = "'w native" +
  watchPoints :: "u16string \<rightharpoonup> watch_point"
  watchRoots :: "int \<rightharpoonup> u16string"
  recentlyUnregisteredWatchRoots :: "int \<rightharpoonup> u16string"
  shouldTerminate :: bool

type_synonym ('w, 'a) linux_action = "(exn, 'w linux_server, 'a) exec"
type_synonym ('w, 'a) linux_loop = "'w linux_server \<Rightarrow> ((exn + 'a) \<times> 'w linux_server) option"

definition set_watch_point :: "u16string \<Rightarrow> watch_point \<Rightarrow> ('w, unit) linux_action" where
  "set_watch_point path wp = modifyE (\<lambda>s. s\<lparr>watchPoints := (watchPoints s)(path \<mapsto> wp)\<rparr>)"

section \<open>Creating a server\<close>

definition init_linux_server :: "'w \<Rightarrow> 'w linux_server" where
  "init_linux_server w =
     \<lparr>world = w, errno = 0, pending = None, upcalls = [], terminated = False, deleted = False,
      watchPoints = Map.empty, watchRoots = Map.empty, recentlyUnregisteredWatchRoots = Map.empty,
      shouldTerminate = False\<rparr>"

text \<open>The constructors \<^verbatim>\<open>Inotify::Inotify\<close> and \<^verbatim>\<open>ShutdownEvent::ShutdownEvent\<close>.\<close>

definition construct_Inotify :: "'w linux_api \<Rightarrow> ('w, unit) linux_action" where
  "construct_Inotify api =
     bindE (syscall (inotifyInit api)) (\<lambda>fd.
     if fd = None then
       bindE (getE errno) (\<lambda>err.
       if err = EMFILE then raise InotifyInstanceLimitTooLowException
       else raise (FileWatcherException_code ''Couldn't register inotify handle'' err))
     else ret ())"

definition construct_ShutdownEvent :: "'w linux_api \<Rightarrow> ('w, unit) linux_action" where
  "construct_ShutdownEvent api =
     bindE (syscall (eventfdCreate api)) (\<lambda>fd.
     if fd = None then
       bindE (getE errno) (\<lambda>err. raise (FileWatcherException_code ''Couldn't register event source'' err))
     else ret ())"

text \<open>\<^verbatim>\<open>Server::Server\<close>: the base class, then the members in the order of their declaration.\<close>

definition construct_Server :: "'w linux_api \<Rightarrow> ('w, unit) linux_action" where
  "construct_Server api =
     thenE (construct_AbstractServer api)
    (thenE (construct_Inotify api) (construct_ShutdownEvent api))"

definition INSTANCE_LIMIT_EXCEPTION :: string where
  "INSTANCE_LIMIT_EXCEPTION = ''org/gradle/fileevents/internal/InotifyInstanceLimitTooLowException''"

definition WATCHES_LIMIT_EXCEPTION :: string where
  "WATCHES_LIMIT_EXCEPTION = ''org/gradle/fileevents/internal/InotifyWatchesLimitTooLowException''"

text \<open>The JNI entry point: \<open>True\<close> where it returns the new server, \<open>False\<close> where it returns
  \<^verbatim>\<open>NULL\<close>.\<close>

definition startWatcher0_linux :: "'w linux_api \<Rightarrow> ('w, bool) linux_action" where
  "startWatcher0_linux api =
     tryE (thenE (construct_Server api) (ret True))
          (\<lambda>e. if e = InotifyInstanceLimitTooLowException
               then thenE (rethrowAsJavaException_class api e INSTANCE_LIMIT_EXCEPTION) (ret False)
               else raise e)"

section \<open>Watch points\<close>

text \<open>\<^verbatim>\<open>WatchPoint::cancel\<close> on the watch point stored under \<open>key\<close>.\<close>

definition cancel :: "'w linux_api \<Rightarrow> u16string \<Rightarrow> watch_point \<Rightarrow> ('w, cancel_result) linux_action" where
  "cancel api key wp =
     (if wp_status wp = CANCELLED then ret CANCEL_ALREADY_CANCELLED
      else
        thenE (set_watch_point key (wp\<lparr>wp_status := CANCELLED\<rparr>))
        (bindE (syscall (inotifyRmWatch api (wp_watchDescriptor wp))) (\<lambda>r.
         if r = None then
           bindE (getE errno) (\<lambda>err.
           if err = EINVAL then
             bindE (liftE (utf16ToUtf8String (wp_path wp))) (\<lambda>path8.
             thenE (logToJava api INFO_LEVEL
               ''Couldn't stop watching %s (probably because the directory was removed)'' [Str path8])
             (ret CANCEL_NOT_CANCELLED))
           else raise (FileWatcherException_path_code ''Couldn't stop watching'' (wp_path wp) err))
         else ret CANCEL_CANCELLED)))"

section \<open>Registering and unregistering\<close>

definition registerPath_linux :: "'w linux_api \<Rightarrow> u16string \<Rightarrow> ('w, unit) linux_action" where
  "registerPath_linux api path =
     bindE (getE watchPoints) (\<lambda>points.
     if points path \<noteq> None then raise (FileWatcherException_path ''Already watching path'' path)
     else
       bindE (liftE (utf16ToUtf8String path)) (\<lambda>pathNarrow.
       bindE (syscall (lstatInode api (c_str pathNarrow))) (\<lambda>st.
       case st of
         None \<Rightarrow> bindE (getE errno) (\<lambda>err.
           raise (FileWatcherException_path_code ''Couldn't add watch, stat failed'' path err))
       | Some st_ino \<Rightarrow>
           bindE (syscall (inotifyAddWatch api (c_str pathNarrow) EVENT_MASK)) (\<lambda>wd.
           case wd of
             None \<Rightarrow> bindE (getE errno) (\<lambda>err.
               if err = ENOSPC then
                 thenE (getThreadEnv api)
                (thenE (rethrowAsJavaException_class api InotifyWatchesLimitTooLowException
                          WATCHES_LIMIT_EXCEPTION)
                 (raise JavaExceptionThrownException))
               else raise (FileWatcherException_path_code
                 ''Couldn't add watch, inotify_add_watch failed'' path err))
           | Some watchDescriptor \<Rightarrow>
               bindE (getE watchRoots) (\<lambda>roots.
               if roots watchDescriptor \<noteq> None
               then raise (FileWatcherException_path ''Already watching path'' path)
               else
                 thenE (set_watch_point path (new_watch_point path watchDescriptor st_ino))
                 (modifyE (\<lambda>s. s\<lparr>watchRoots := (watchRoots s)(watchDescriptor \<mapsto> path)\<rparr>)))))))"

definition registerPaths_linux :: "'w linux_api \<Rightarrow> u16string list \<Rightarrow> ('w, unit) linux_action" where
  "registerPaths_linux api paths = forE paths (registerPath_linux api)"

text \<open>\<^verbatim>\<open>unordered_map::emplace\<close> keeps an entry that is there already.\<close>

definition emplace :: "'k \<Rightarrow> 'v \<Rightarrow> ('k \<rightharpoonup> 'v) \<Rightarrow> ('k \<rightharpoonup> 'v)" where
  "emplace k v m = (case m k of None \<Rightarrow> m(k \<mapsto> v) | Some _ \<Rightarrow> m)"

definition unregisterPath_linux :: "'w linux_api \<Rightarrow> u16string \<Rightarrow> ('w, bool) linux_action" where
  "unregisterPath_linux api path =
     bindE (getE watchPoints) (\<lambda>points.
     case points path of
       None \<Rightarrow>
         bindE (liftE (utf16ToUtf8String path)) (\<lambda>path8.
         thenE (logToJava api INFO_LEVEL ''Path is not watched: %s'' [Str path8])
         (ret False))
     | Some watchPoint \<Rightarrow>
         bindE (cancel api path watchPoint) (\<lambda>result.
         if result = CANCEL_ALREADY_CANCELLED then ret False
         else
           thenE (modifyE (\<lambda>s. s\<lparr>recentlyUnregisteredWatchRoots :=
             emplace (wp_watchDescriptor watchPoint) path (recentlyUnregisteredWatchRoots s)\<rparr>))
          (thenE (modifyE (\<lambda>s. s\<lparr>watchRoots := (watchRoots s)(wp_watchDescriptor watchPoint := None)\<rparr>))
          (thenE (modifyE (\<lambda>s. s\<lparr>watchPoints := (watchPoints s)(path := None)\<rparr>))
           (ret (result = CANCEL_CANCELLED))))))"

definition unregisterPaths_linux :: "'w linux_api \<Rightarrow> u16string list \<Rightarrow> ('w, bool) linux_action" where
  "unregisterPaths_linux api paths = conjE paths (unregisterPath_linux api) True"

section \<open>Dropping moved paths\<close>

definition addToList :: "'w linux_api \<Rightarrow> u16string \<Rightarrow> ('w, unit) linux_action" where
  "addToList api jString =
     thenE (callMethod api (ListAdd jString)) throwNativeExceptionWhenJavaExceptionOccurred"

definition stopWatchingMovedPath :: "'w linux_api \<Rightarrow> u16string \<Rightarrow> ('w, unit) linux_action" where
  "stopWatchingMovedPath api jPathToCheck =
     bindE (javaToUtf16String api jPathToCheck) (\<lambda>pathToCheck.
     bindE (getE watchPoints) (\<lambda>points.
     case points pathToCheck of
       None \<Rightarrow> addToList api jPathToCheck
     | Some watchPoint \<Rightarrow>
         if wp_status watchPoint \<noteq> LISTENING then addToList api jPathToCheck
         else
           bindE (liftE (utf16ToUtf8String (wp_path watchPoint))) (\<lambda>pathNarrow.
           bindE (syscall (lstatInode api (c_str pathNarrow))) (\<lambda>st.
           if st = Some (wp_inode watchPoint) then ret ()
           else
             thenE (addToList api jPathToCheck)
             (bindE (cancel api pathToCheck watchPoint) (\<lambda>_. ret ()))))))"

definition stopWatchingMovedPaths_linux :: "'w linux_api \<Rightarrow> u16string list \<Rightarrow> ('w, unit) linux_action" where
  "stopWatchingMovedPaths_linux api absolutePathsToCheck =
     thenE (getThreadEnv api) (forE absolutePathsToCheck (stopWatchingMovedPath api))"

definition stopWatchingMovedPaths0_linux ::
    "'w linux_api \<Rightarrow> nat option \<Rightarrow> u16string list \<Rightarrow> ('w, unit) linux_action" where
  "stopWatchingMovedPaths0_linux api addr paths =
     tryE (thenE (getServer addr) (stopWatchingMovedPaths_linux api paths))
          (\<lambda>e. if e = JavaExceptionThrownException then ret () else rethrowAsJavaException api e)"

end
