(* ===== verification/LinuxEvents.thy ===== *)
theory LinuxEvents
  imports LinuxServer
begin

text \<open>
  The Linux server's run loop (\<^verbatim>\<open>linux_fsnotifier.cpp\<close>): the handler of one inotify event,
  the loop over the events of a read buffer, the loop over reads, and the loop over
  \<^verbatim>\<open>poll\<close>. The loops need not end, so their results are options.
\<close>

section \<open>Handling one event\<close>

text \<open>The part of \<^verbatim>\<open>handleEvent\<close> that picks the change type; \<open>None\<close> is the unknown event.\<close>

definition change_type_of_mask :: "flags32 \<Rightarrow> change_type option" where
  "change_type_of_mask m =
     (if IS_SET m (IN_CREATE OR IN_MOVED_TO) then Some CREATED
      else if IS_SET m (IN_DELETE OR IN_DELETE_SELF OR IN_MOVED_FROM) then Some REMOVED
      else if IS_SET m IN_MODIFY then Some MODIFIED
      else None)"

text \<open>\<^verbatim>\<open>path.append(u"/"); path.append(name)\<close>, unless the name is empty.\<close>

definition event_path :: "u16string \<Rightarrow> u16string \<Rightarrow> u16string" where
  "event_path path name = (if name \<noteq> [] then path @ [0x2F] @ name else path)"

text \<open>The last part of \<^verbatim>\<open>handleEvent\<close>, for a watch point that is listening.\<close>

definition reportEvent :: "'w linux_api \<Rightarrow> flags32 \<Rightarrow> string \<Rightarrow> u16string \<Rightarrow> ('w, unit) linux_action" where
  "reportEvent api m eventName path0 =
     bindE (liftE (utf8ToUtf16String eventName)) (\<lambda>name.
     let path = event_path path0 name in
     case change_type_of_mask m of
       None \<Rightarrow>
         bindE (liftE (utf16ToUtf8String path)) (\<lambda>path8.
         thenE (logToJava api WARN_LEVEL ''Unknown event 0x%x for %s'' [Hex m, Str path8])
         (reportUnknownEvent api path))
     | Some type \<Rightarrow> reportChangeEvent api type path)"

text \<open>The branch of \<^verbatim>\<open>handleEvent\<close> for a watch descriptor that is not in \<open>watchRoots\<close>.\<close>

definition handleUnregisteredEvent :: "'w linux_api \<Rightarrow> inotify_event \<Rightarrow> ('w, unit) linux_action" where
  "handleUnregisteredEvent api event =
     bindE (getE recentlyUnregisteredWatchRoots) (\<lambda>recent.
     case recent (ev_wd event) of
       None \<Rightarrow> logToJava api INFO_LEVEL ''Received event for unknown watch descriptor %d''
         [Dec (ev_wd event)]
     | Some path \<Rightarrow>
         bindE (liftE (utf16ToUtf8String path)) (\<lambda>path8.
         if IS_SET (ev_mask event) IN_IGNORED then
           thenE (logToJava api TRACE_LEVEL
             ''Finished watching recently unregistered watch point '%s' (wd = %d)''
             [Str path8, Dec (ev_wd event)])
           (modifyE (\<lambda>s. s\<lparr>recentlyUnregisteredWatchRoots :=
             (recentlyUnregisteredWatchRoots s)(ev_wd event := None)\<rparr>))
         else
           logToJava api TRACE_LEVEL
             ''Ignoring incoming events for recently removed watch descriptor for '%s' (wd = %d)''
             [Str path8, Dec (ev_wd event)]))"

text \<open>The rest of \<^verbatim>\<open>handleEvent\<close>, for a descriptor that \<open>watchRoots\<close> maps to \<open>path\<close>. The lookup
  with \<^verbatim>\<open>watchPoints.at\<close> throws where the path is missing.\<close>

definition handleRegisteredEvent ::
    "'w linux_api \<Rightarrow> inotify_event \<Rightarrow> string \<Rightarrow> u16string \<Rightarrow> ('w, unit) linux_action" where
  "handleRegisteredEvent api event eventName path =
     bindE (getE watchPoints) (\<lambda>points.
     case points path of
       None \<Rightarrow> raise (StdException OutOfRange)
     | Some watchPoint \<Rightarrow>
         if IS_SET (ev_mask event) IN_IGNORED then
           bindE (liftE (utf16ToUtf8String path)) (\<lambda>path8.
           thenE (logToJava api TRACE_LEVEL ''Finished watching still registered '%s' (wd = %d)''
             [Str path8, Dec (ev_wd event)])
          (thenE (modifyE (\<lambda>s. s\<lparr>watchRoots := (watchRoots s)(ev_wd event := None)\<rparr>))
           (modifyE (\<lambda>s. s\<lparr>watchPoints := (watchPoints s)(path := None)\<rparr>))))
         else if wp_status watchPoint \<noteq> LISTENING then
           bindE (liftE (utf16ToUtf8String path)) (\<lambda>path8.
           logToJava api TRACE_LEVEL
             ''Ignoring incoming events for %s as watch-point is not listening (status = %d)''
             [Str path8, Dec (watch_point_status_value (wp_status watchPoint))])
         else
           bindE (getE shouldTerminate) (\<lambda>terminating.
           if terminating then
             bindE (liftE (utf16ToUtf8String path)) (\<lambda>path8.
             logToJava api TRACE_LEVEL
               ''Ignoring incoming events for %s because server is terminating (status = %d)''
               [Str path8, Dec (watch_point_status_value (wp_status watchPoint))])
           else reportEvent api (ev_mask event) eventName path))"

definition handleEvent_linux :: "'w linux_api \<Rightarrow> inotify_event \<Rightarrow> ('w, unit) linux_action" where
  "handleEvent_linux api event =
     (let eventName = (if ev_len event = 0 then [] else c_str (ev_name event)) in
      thenE (logToJava api TRACE_LEVEL
        ''Event mask: 0x%x for %s (wd = %d, cookie = 0x%x, len = %d)''
        [Hex (ev_mask event), Str eventName, Dec (ev_wd event), Hex (ev_cookie event),
         Dec (sint (ev_len event))])
      (if IS_SET (ev_mask event) IN_UNMOUNT then ret ()
       else if IS_SET (ev_mask event) IN_Q_OVERFLOW then
         bindE (getE (\<lambda>s. iterationOrder api (dom (watchPoints s)) (world s))) (\<lambda>paths.
         forE paths (\<lambda>path. reportOverflow api path))
       else
         bindE (getE watchRoots) (\<lambda>roots.
         case roots (ev_wd event) of
           None \<Rightarrow> handleUnregisteredEvent api event
         | Some path \<Rightarrow> handleRegisteredEvent api event eventName path)))"

section \<open>The events of a buffer\<close>

text \<open>\<^verbatim>\<open>while (index < bytesRead)\<close>, with the number of events handled as the result. A read holds
  at most 16 KiB, so the \<^verbatim>\<open>int\<close> index does not wrap. \<open>None\<close>: the code would read past the
  bytes of the buffer.\<close>

function processEvents ::
    "'w linux_api \<Rightarrow> string \<Rightarrow> nat \<Rightarrow> int \<Rightarrow> ('w, int) linux_loop" where
  "processEvents api buf index count s =
     (if index < length buf then
        (case event_at buf index of
           None \<Rightarrow> None
         | Some event \<Rightarrow>
             (case handleEvent_linux api event s of
                (Inl e, s1) \<Rightarrow> Some (Inl e, s1)
              | (Inr _, s1) \<Rightarrow> processEvents api buf (index + event_size event) (count + 1) s1))
      else Some (Inr count, s))"
  by pat_completeness auto
termination
  by (relation "measure (\<lambda>(api, buf, index, count, s). length buf - index)")
     (auto dest: event_at_bounds simp: event_size_def INOTIFY_EVENT_SIZE_def)

declare processEvents.simps [simp del]

definition processBuffer :: "'w linux_api \<Rightarrow> string \<Rightarrow> ('w, unit) linux_loop" where
  "processBuffer api buf s =
     (case thenE (getThreadEnv api)
            (logToJava api TRACE_LEVEL ''Processing %d bytes worth of events'' [Dec (int (length buf))]) s of
        (Inl e, s1) \<Rightarrow> Some (Inl e, s1)
      | (Inr _, s1) \<Rightarrow>
          (case processEvents api buf 0 0 s1 of
             None \<Rightarrow> None
           | Some (Inl e, s2) \<Rightarrow> Some (Inl e, s2)
           | Some (Inr count, s2) \<Rightarrow>
               Some (logToJava api TRACE_LEVEL ''Processed %d events'' [Dec count] s2)))"

section \<open>Reading and polling\<close>

text \<open>The loop of \<^verbatim>\<open>handleEvents\<close>; \<open>available\<close> is an \<^verbatim>\<open>unsigned int\<close> and wraps when a read returns
  more than was announced.\<close>

partial_function (option) readEvents :: "'w linux_api \<Rightarrow> 32 word \<Rightarrow> ('w, unit) linux_loop" where
  "readEvents api available s =
     (if available = 0 then Some (Inr (), s)
      else
        (case syscall (readInotify api EVENT_BUFFER_SIZE) s of
           (Inl e, s1) \<Rightarrow> Some (Inl e, s1)
         | (Inr None, s1) \<Rightarrow>
             if errno s1 = EAGAIN then Some (Inr (), s1)
             else Some (Inl (FileWatcherException_code ''Couldn't read from inotify'' (errno s1)), s1)
         | (Inr (Some buf), s1) \<Rightarrow>
             if buf = [] then
               Some (Inl (FileWatcherException_code ''EOF reading from inotify'' (errno s1)), s1)
             else
               (case processBuffer api buf s1 of
                  None \<Rightarrow> None
                | Some (Inl e, s2) \<Rightarrow> Some (Inl e, s2)
                | Some (Inr _, s2) \<Rightarrow> readEvents api (available - of_nat (length buf)) s2)))"

definition handleEvents_linux :: "'w linux_api \<Rightarrow> ('w, unit) linux_loop" where
  "handleEvents_linux api s =
     (case fionread api (world s) of
        (available, w) \<Rightarrow> readEvents api available (s\<lparr>world := w\<rparr>))"

definition consume_ShutdownEvent :: "'w linux_api \<Rightarrow> ('w, unit) linux_action" where
  "consume_ShutdownEvent api =
     bindE (syscall (readEventfd api)) (\<lambda>r.
     if r = None then bindE (getE errno) (\<lambda>err.
       raise (FileWatcherException_code ''Couldn't read from termination event notifier'' err))
     else ret ())"

definition trigger_ShutdownEvent :: "'w linux_api \<Rightarrow> ('w, unit) linux_action" where
  "trigger_ShutdownEvent api = modifyE (\<lambda>s. s\<lparr>world := writeEventfd api (world s)\<rparr>)"

definition processQueues :: "'w linux_api \<Rightarrow> int \<Rightarrow> ('w, unit) linux_loop" where
  "processQueues api timeout s =
     (case syscall (pollFds api timeout) s of
        (Inl e, s1) \<Rightarrow> Some (Inl e, s1)
      | (Inr None, s1) \<Rightarrow>
          Some (Inl (FileWatcherException_code ''Couldn't poll for events'' (errno s1)), s1)
      | (Inr (Some (shutdownReadable, inotifyReadable)), s1) \<Rightarrow>
          if shutdownReadable then
            Some (thenE (consume_ShutdownEvent api)
                        (modifyE (\<lambda>s. s\<lparr>shouldTerminate := True\<rparr>)) s1)
          else if inotifyReadable then
            (case handleEvents_linux api s1 of
               None \<Rightarrow> None
             | Some (r, s2) \<Rightarrow>
                 Some (tryE (liftE r)
                   (\<lambda>ex. thenE (getThreadEnv api) (reportFailure api ex)) s2))
          else Some (Inr (), s1))"

definition FOREVER :: int where "FOREVER = 2 ^ 31 - 1"

partial_function (option) runLoop_linux :: "'w linux_api \<Rightarrow> ('w, unit) linux_loop" where
  "runLoop_linux api s =
     (if shouldTerminate s then Some (Inr (), s)
      else
        (case processQueues api FOREVER s of
           None \<Rightarrow> None
         | Some (Inl e, s1) \<Rightarrow> Some (Inl e, s1)
         | Some (Inr _, s1) \<Rightarrow> runLoop_linux api s1))"

definition shutdownRunLoop_linux :: "'w linux_api \<Rightarrow> ('w, unit) linux_action" where
  "shutdownRunLoop_linux api = trigger_ShutdownEvent api"

definition initializeRunLoop_linux :: "('w, unit) linux_action" where
  "initializeRunLoop_linux = ret ()"

text \<open>The server as an implementation of the virtual functions the JNI entry points call.\<close>

definition linux_ops :: "'w linux_api \<Rightarrow>
    ('w, \<lparr>watchPoints :: u16string \<rightharpoonup> watch_point, watchRoots :: int \<rightharpoonup> u16string,
          recentlyUnregisteredWatchRoots :: int \<rightharpoonup> u16string, shouldTerminate :: bool\<rparr>) server_ops" where
  "linux_ops api = \<lparr>op_initializeRunLoop = initializeRunLoop_linux, op_runLoop = runLoop_linux api,
     op_registerPaths = registerPaths_linux api, op_unregisterPaths = unregisterPaths_linux api,
     op_shutdownRunLoop = shutdownRunLoop_linux api\<rparr>"

end
