(* ===== verification/LinuxTables.thy ===== *)
theory LinuxTables
  imports LinuxEvents
begin

text \<open>
  What each operation of the Linux server does to the server's tables, for every behaviour
  of the operating system and of Java: one summary per operation, from which the
  invariants and the contracts follow.
\<close>

section \<open>The tables of a server\<close>

type_synonym tables =
  "(u16string \<rightharpoonup> watch_point) \<times> (int \<rightharpoonup> u16string) \<times> (int \<rightharpoonup> u16string) \<times> bool"

definition tables :: "'w linux_server \<Rightarrow> tables" where
  "tables s = (watchPoints s, watchRoots s, recentlyUnregisteredWatchRoots s, shouldTerminate s)"

definition has_tables :: "tables \<Rightarrow> 'w linux_server \<Rightarrow> bool" where
  "has_tables T s \<longleftrightarrow> tables s = T"

lemma same_server_tables: "same_server s s' \<Longrightarrow> tables s = tables s'"
  by (cases s; cases s') (simp add: same_server_def tables_def)

lemma tables_after_call [simp]:
  fixes s :: "'w linux_server"
  shows
  "watchPoints (after_call j c s) = watchPoints s"
  "watchRoots (after_call j c s) = watchRoots s"
  "recentlyUnregisteredWatchRoots (after_call j c s) = recentlyUnregisteredWatchRoots s"
  "shouldTerminate (after_call j c s) = shouldTerminate s"
  using same_server_tables [OF same_server_after_call, of j c s] by (simp_all add: tables_def)

text \<open>Triples that start from given tables: a framed operation keeps them, reading a table
  gives its value, and every other step says what it makes of them.\<close>

lemma tab_bind:
  assumes "framed m" and "\<And>e s. has_tables T s \<Longrightarrow> E e s"
    and "\<And>x. triple (has_tables T) (f x) Q E"
  shows "triple (has_tables T) (bindE m f) Q E"
proof (rule triple_bind [OF _ assms(3)])
  have "keeps (has_tables T) m"
    by (rule framed_keeps [OF assms(1)]) (metis has_tables_def same_server_tables)
  then show "triple (has_tables T) m (\<lambda>_. has_tables T) E"
    unfolding keeps_def by (rule triple_weaken) (auto intro: assms(2))
qed

lemma tab_then:
  assumes "framed m" and "\<And>e s. has_tables T s \<Longrightarrow> E e s" and "triple (has_tables T) n Q E"
  shows "triple (has_tables T) (thenE m n) Q E"
  unfolding thenE_def by (rule tab_bind [OF assms])

lemma tab_framed:
  assumes "framed m" and "\<And>x s. has_tables T s \<Longrightarrow> Q x s" and "\<And>e s. has_tables T s \<Longrightarrow> E e s"
  shows "triple (has_tables T) m Q E"
proof -
  have "keeps (has_tables T) m"
    by (rule framed_keeps [OF assms(1)]) (metis has_tables_def same_server_tables)
  then show ?thesis unfolding keeps_def by (rule triple_weaken) (auto intro: assms(2,3))
qed

lemma tab_get:
  assumes "triple (has_tables T) (f (g T)) Q E" and "\<And>s. getter s = g (tables s)"
  shows "triple (has_tables T) (bindE (getE getter) f) Q E"
  using assms by (auto simp: triple_def has_tables_def exec_simps)

lemma tab_get_watchPoints:
  "triple (has_tables T) (f (fst T)) Q E \<Longrightarrow> triple (has_tables T) (bindE (getE watchPoints) f) Q E"
  by (rule tab_get [where g = fst]) (simp_all add: tables_def)

lemma tab_get_watchRoots:
  "triple (has_tables T) (f (fst (snd T))) Q E \<Longrightarrow>
   triple (has_tables T) (bindE (getE watchRoots) f) Q E"
  by (rule tab_get [where g = "\<lambda>T. fst (snd T)"]) (simp_all add: tables_def)

lemma tab_get_recent:
  "triple (has_tables T) (f (fst (snd (snd T)))) Q E \<Longrightarrow>
   triple (has_tables T) (bindE (getE recentlyUnregisteredWatchRoots) f) Q E"
  by (rule tab_get [where g = "\<lambda>T. fst (snd (snd T))"]) (simp_all add: tables_def)

lemma tab_get_shouldTerminate:
  "triple (has_tables T) (f (snd (snd (snd T)))) Q E \<Longrightarrow>
   triple (has_tables T) (bindE (getE shouldTerminate) f) Q E"
  by (rule tab_get [where g = "\<lambda>T. snd (snd (snd T))"]) (simp_all add: tables_def)

lemma tab_modify:
  assumes "triple (has_tables (h T)) n Q E" and "\<And>s. tables (g s) = h (tables s)"
  shows "triple (has_tables T) (thenE (modifyE g) n) Q E"
  using assms by (auto simp: triple_def has_tables_def exec_simps)

lemma tab_set_watch_point:
  assumes "triple (has_tables ((fst T)(path \<mapsto> wp), snd T)) n Q E"
  shows "triple (has_tables T) (thenE (set_watch_point path wp) n) Q E"
  unfolding set_watch_point_def
  by (rule tab_modify [where h = "\<lambda>T. ((fst T)(path \<mapsto> wp), snd T)"]) (simp_all add: assms tables_def)

lemma tab_set_watchRoots:
  assumes "triple (has_tables (fst T, g (fst (snd T)), snd (snd T))) n Q E"
  shows "triple (has_tables T) (thenE (modifyE (\<lambda>s. s\<lparr>watchRoots := g (watchRoots s)\<rparr>)) n) Q E"
  by (rule tab_modify [where h = "\<lambda>T. (fst T, g (fst (snd T)), snd (snd T))"])
     (simp_all add: assms tables_def)

lemma tab_set_watchPoints:
  assumes "triple (has_tables (g (fst T), snd T)) n Q E"
  shows "triple (has_tables T) (thenE (modifyE (\<lambda>s. s\<lparr>watchPoints := g (watchPoints s)\<rparr>)) n) Q E"
  by (rule tab_modify [where h = "\<lambda>T. (g (fst T), snd T)"]) (simp_all add: assms tables_def)

lemma tab_set_recent:
  assumes "triple (has_tables (fst T, fst (snd T), g (fst (snd (snd T))), snd (snd (snd T)))) n Q E"
  shows "triple (has_tables T) (thenE (modifyE (\<lambda>s. s\<lparr>recentlyUnregisteredWatchRoots :=
    g (recentlyUnregisteredWatchRoots s)\<rparr>)) n) Q E"
  by (rule tab_modify [where h = "\<lambda>T. (fst T, fst (snd T), g (fst (snd (snd T))), snd (snd (snd T)))"])
     (simp_all add: assms tables_def)

text \<open>The same updates as the last step of an operation.\<close>

lemma tab_last: "triple P (thenE m (ret ())) Q E \<Longrightarrow> triple P m Q E"
  by (auto simp: triple_def exec_simps split: prod.splits sum.splits)

lemmas tab_last_watchRoots = tab_last [OF tab_set_watchRoots]
lemmas tab_last_watchPoints = tab_last [OF tab_set_watchPoints]
lemmas tab_last_recent = tab_last [OF tab_set_recent]

lemma tab_ret: "(\<And>s. has_tables T s \<Longrightarrow> Q x s) \<Longrightarrow> triple (has_tables T) (ret x) Q E"
  and tab_raise: "(\<And>s. has_tables T s \<Longrightarrow> E e s) \<Longrightarrow> triple (has_tables T) (raise e) Q E"
  by (auto simp: triple_def exec_simps)

lemma tab_liftE:
  assumes "\<And>e s. r = Inl e \<Longrightarrow> has_tables T s \<Longrightarrow> E e s"
    and "\<And>x. r = Inr x \<Longrightarrow> triple (has_tables T) (f x) Q E"
  shows "triple (has_tables T) (bindE (liftE r) f) Q E"
  using assms by (cases r) (auto simp: triple_def exec_simps)

text \<open>Where a step is neither a read nor an update of the tables, it is framed.\<close>

lemmas tab_steps = tab_get_watchPoints tab_get_watchRoots tab_get_recent tab_get_shouldTerminate
  tab_set_watch_point tab_set_watchRoots tab_set_watchPoints tab_set_recent
  tab_last_watchRoots tab_last_watchPoints tab_last_recent triple_if
  triple_option triple_sum tab_ret tab_raise tab_liftE tab_bind tab_then tab_framed framed_rules

section \<open>One summary per operation\<close>

definition cancelled_in :: "u16string \<Rightarrow> watch_point \<Rightarrow> tables \<Rightarrow> tables" where
  "cancelled_in key wp T = ((fst T)(key \<mapsto> wp\<lparr>wp_status := CANCELLED\<rparr>), snd T)"

lemma cancel_tables:
  "triple (has_tables T) (cancel api key wp)
    (\<lambda>r s. if r = CANCEL_ALREADY_CANCELLED then wp_status wp = CANCELLED \<and> has_tables T s
           else wp_status wp = LISTENING \<and> has_tables (cancelled_in key wp T) s)
    (\<lambda>e s. wp_status wp = LISTENING \<and> has_tables (cancelled_in key wp T) s)"
  unfolding cancel_def cancelled_in_def
  by (cases "wp_status wp") (intro tab_steps; simp)+

lemma tab_cancel:
  assumes "wp_status wp = CANCELLED \<Longrightarrow> triple (has_tables T) (f CANCEL_ALREADY_CANCELLED) Q E"
    and "\<And>r. wp_status wp = LISTENING \<Longrightarrow> r \<noteq> CANCEL_ALREADY_CANCELLED \<Longrightarrow>
      triple (has_tables (cancelled_in key wp T)) (f r) Q E"
    and "\<And>e s. wp_status wp = LISTENING \<Longrightarrow> has_tables (cancelled_in key wp T) s \<Longrightarrow> E e s"
  shows "triple (has_tables T) (bindE (cancel api key wp) f) Q E"
proof (rule triple_bind)
  show "triple (has_tables T) (cancel api key wp)
      (\<lambda>r s. if r = CANCEL_ALREADY_CANCELLED then wp_status wp = CANCELLED \<and> has_tables T s
             else wp_status wp = LISTENING \<and> has_tables (cancelled_in key wp T) s) E"
    by (rule triple_weaken [OF cancel_tables]) (use assms(3) in auto)
  show "triple (\<lambda>s. if r = CANCEL_ALREADY_CANCELLED then wp_status wp = CANCELLED \<and> has_tables T s
      else wp_status wp = LISTENING \<and> has_tables (cancelled_in key wp T) s) (f r) Q E" for r
    using assms(1) assms(2) [of r] by (cases "wp_status wp") (auto simp: triple_def)
qed

definition registered_in :: "u16string \<Rightarrow> int \<Rightarrow> 64 word \<Rightarrow> tables \<Rightarrow> tables" where
  "registered_in path wd inode T =
     ((fst T)(path \<mapsto> new_watch_point path wd inode), (fst (snd T))(wd \<mapsto> path), snd (snd T))"

lemma registerPath_tables:
  "triple (has_tables T) (registerPath_linux api path)
    (\<lambda>_ s. fst T path = None \<and> convertible path \<and> (\<exists>wd inode. fst (snd T) wd = None \<and>
       has_tables (registered_in path wd inode T) s))
    (\<lambda>_. has_tables T)"
  unfolding registerPath_linux_def registered_in_def convertible_def
  by (intro tab_steps)
     (assumption | simp only: fst_conv snd_conv utf16ToUtf8String_Inr, metis option.distinct(1))+

text \<open>Unregistering a path that is not watched, or is cancelled already, changes nothing; otherwise
  the watch point leaves both tables, unless the cancellation throws: then it stays, cancelled.\<close>

definition unregistered_in :: "u16string \<Rightarrow> watch_point \<Rightarrow> tables \<Rightarrow> tables" where
  "unregistered_in path wp T =
     ((fst T)(path := None), (fst (snd T))(wp_watchDescriptor wp := None),
      emplace (wp_watchDescriptor wp) path (fst (snd (snd T))), snd (snd (snd T)))"

lemma unregisterPath_tables:
  "triple (has_tables T) (unregisterPath_linux api path)
    (\<lambda>r s. (\<not> r \<and> has_tables T s \<and> (\<forall>wp. fst T path = Some wp \<longrightarrow> wp_status wp = CANCELLED)) \<or>
       (\<exists>wp. fst T path = Some wp \<and> wp_status wp = LISTENING \<and> has_tables (unregistered_in path wp T) s))
    (\<lambda>e s. has_tables T s \<or>
       (\<exists>wp. fst T path = Some wp \<and> wp_status wp = LISTENING \<and> has_tables (cancelled_in path wp T) s))"
  unfolding unregisterPath_linux_def unregistered_in_def
  by (intro tab_cancel tab_steps)
     (assumption | (simp; fail) | (simp only: cancelled_in_def fst_conv snd_conv fun_upd_upd, metis))+

text \<open>Checking for moved paths keeps the keys of the tables; it can cancel the watch point of the
  path it checks.\<close>

lemma tab_javaToUtf16String:
  assumes "triple (has_tables T) (f p) Q E" and "\<And>e s. has_tables T s \<Longrightarrow> E e s"
  shows "triple (has_tables T) (bindE (javaToUtf16String j p) f) Q E"
  using assms by (auto simp: triple_def javaToUtf16String_def exec_simps)

lemma framed_addToList [framed_rules]: "framed (addToList api p)"
  unfolding addToList_def by (intro framed_rules)

lemma stopWatchingMovedPath_tables:
  "triple (has_tables T) (stopWatchingMovedPath api path)
    (\<lambda>_ s. has_tables T s \<or>
       (\<exists>wp. fst T path = Some wp \<and> wp_status wp = LISTENING \<and> has_tables (cancelled_in path wp T) s))
    (\<lambda>_ s. has_tables T s \<or>
       (\<exists>wp. fst T path = Some wp \<and> wp_status wp = LISTENING \<and> has_tables (cancelled_in path wp T) s))"
  unfolding stopWatchingMovedPath_def
  by (intro tab_javaToUtf16String tab_cancel tab_steps framed_addToList)
     (assumption | (simp; fail) | metis)+

section \<open>Handling an event\<close>

definition finished_recent :: "int \<Rightarrow> tables \<Rightarrow> tables" where
  "finished_recent wd T =
     (fst T, fst (snd T), (fst (snd (snd T)))(wd := None), snd (snd (snd T)))"

definition finished_registered :: "int \<Rightarrow> u16string \<Rightarrow> tables \<Rightarrow> tables" where
  "finished_registered wd path T = ((fst T)(path := None), (fst (snd T))(wd := None), snd (snd T))"

lemma framed_reportEvent [framed_rules]: "framed (reportEvent api m name path)"
  unfolding reportEvent_def Let_def by (intro framed_rules)

lemma handleUnregisteredEvent_tables:
  "triple (has_tables T) (handleUnregisteredEvent api event)
    (\<lambda>_ s. has_tables T s \<or> (IS_SET (ev_mask event) IN_IGNORED \<and>
       has_tables (finished_recent (ev_wd event) T) s))
    (\<lambda>_ s. has_tables T s)"
  unfolding handleUnregisteredEvent_def finished_recent_def
  by (intro tab_steps) (assumption | blast)+

lemma handleRegisteredEvent_tables:
  "triple (has_tables T) (handleRegisteredEvent api event name path)
    (\<lambda>_ s. has_tables T s \<or> (IS_SET (ev_mask event) IN_IGNORED \<and>
       has_tables (finished_registered (ev_wd event) path T) s))
    (\<lambda>_ s. has_tables T s)"
  unfolding handleRegisteredEvent_def finished_registered_def
  by (intro tab_steps framed_reportEvent) (assumption | (simp only: fst_conv snd_conv)?, blast)+

lemma framed_overflow: "framed (bindE (getE (\<lambda>s. iterationOrder api (dom (watchPoints s)) (world s)))
    (\<lambda>paths. forE paths (\<lambda>path. reportOverflow api path)))"
  by (intro framed_rules)

text \<open>An event changes the tables only if it is \<^verbatim>\<open>IN_IGNORED\<close>: it takes the watch descriptor out of
  the table it is in.\<close>

lemma handleEvent_tables:
  "triple (has_tables T) (handleEvent_linux api event)
    (\<lambda>_ s. has_tables T s \<or>
       IS_SET (ev_mask event) IN_IGNORED \<and>
       (has_tables (finished_recent (ev_wd event) T) s \<or>
        (\<exists>path. fst (snd T) (ev_wd event) = Some path \<and>
           has_tables (finished_registered (ev_wd event) path T) s)))
    (\<lambda>_ s. has_tables T s)"
  unfolding handleEvent_linux_def Let_def
  apply (rule tab_then)
    apply (intro framed_rules)
   apply assumption
  apply (rule triple_if)
   apply (rule tab_ret, simp)
  apply (rule triple_if)
   apply (rule tab_framed [OF framed_overflow]; simp)
  apply (rule tab_get_watchRoots, rule triple_option)
   apply (rule triple_weaken [OF handleUnregisteredEvent_tables]; auto)
  apply (rule triple_weaken [OF handleRegisteredEvent_tables]; auto)
  done

end
