(* ===== verification/LinuxInv.thy ===== *)
theory LinuxInv
  imports LinuxTables
begin

text \<open>
  The invariant of the Linux server's tables, kept by every operation whatever the operating
  system and Java do; the contract of \<open>Registry\<close> for registering and unregistering paths; and
  the states a server can reach.
\<close>

section \<open>The invariant\<close>

text \<open>\<open>watchPoints\<close> and \<open>watchRoots\<close> are inverse to each other: a watch point is stored under its
  own path and found through its descriptor, and every descriptor leads to its watch point. The
  paths in the tables can be converted to UTF-8: registering one converts it.\<close>

definition tables_inv :: "tables \<Rightarrow> bool" where
  "tables_inv T \<longleftrightarrow>
     (\<forall>p wp. fst T p = Some wp \<longrightarrow> wp_path wp = p \<and> fst (snd T) (wp_watchDescriptor wp) = Some p) \<and>
     (\<forall>wd p. fst (snd T) wd = Some p \<longrightarrow> (\<exists>wp. fst T p = Some wp \<and> wp_watchDescriptor wp = wd)) \<and>
     finite (dom (fst T)) \<and>
     (\<forall>p wp. fst T p = Some wp \<longrightarrow> convertible p) \<and>
     (\<forall>wd p. fst (snd (snd T)) wd = Some p \<longrightarrow> convertible p)"

definition linux_inv :: "'w linux_server \<Rightarrow> bool" where
  "linux_inv s \<longleftrightarrow> tables_inv (tables s)"

lemma tables_invD:
  assumes "tables_inv T"
  shows "fst T p = Some wp \<Longrightarrow> wp_path wp = p"
    and "fst T p = Some wp \<Longrightarrow> fst (snd T) (wp_watchDescriptor wp) = Some p"
    and "fst (snd T) wd = Some p \<Longrightarrow> \<exists>wp. fst T p = Some wp \<and> wp_watchDescriptor wp = wd"
    and "finite (dom (fst T))"
    and "fst T p = Some wp \<Longrightarrow> convertible p"
    and "fst (snd (snd T)) wd = Some p \<Longrightarrow> convertible p"
  using assms unfolding tables_inv_def by metis+

lemma linux_invD:
  assumes "linux_inv s"
  shows "watchPoints s p = Some wp \<Longrightarrow> wp_path wp = p"
    and "watchPoints s p = Some wp \<Longrightarrow> watchRoots s (wp_watchDescriptor wp) = Some p"
    and "watchRoots s wd = Some p \<Longrightarrow> \<exists>wp. watchPoints s p = Some wp \<and> wp_watchDescriptor wp = wd"
    and "finite (dom (watchPoints s))"
    and "watchPoints s p = Some wp \<Longrightarrow> convertible p"
    and "recentlyUnregisteredWatchRoots s wd = Some p \<Longrightarrow> convertible p"
  using tables_invD [OF assms [unfolded linux_inv_def]] by (auto simp: tables_def)

lemma inv_cancelled_in:
  assumes inv: "tables_inv T" and p: "fst T p = Some wp"
  shows "tables_inv (cancelled_in p wp T)"
  unfolding tables_inv_def
proof (intro conjI allI impI)
  let ?T = "cancelled_in p wp T"
  have roots: "fst (snd ?T) = fst (snd T)" by (simp add: cancelled_in_def)
  fix q wq assume q: "fst ?T q = Some wq"
  then have "\<exists>w. fst T q = Some w \<and> wp_path wq = wp_path w \<and>
      wp_watchDescriptor wq = wp_watchDescriptor w"
    using p by (cases "q = p") (auto simp: cancelled_in_def)
  then show "wp_path wq = q" "fst (snd ?T) (wp_watchDescriptor wq) = Some q" "convertible q"
    using tables_invD(1,2,5) [OF inv] roots by metis+
next
  fix wd q assume "fst (snd (cancelled_in p wp T)) wd = Some q"
  then obtain w where "fst T q = Some w" "wp_watchDescriptor w = wd"
    using tables_invD(3) [OF inv] by (auto simp: cancelled_in_def)
  then show "\<exists>wq. fst (cancelled_in p wp T) q = Some wq \<and> wp_watchDescriptor wq = wd"
    using p by (cases "q = p") (auto simp: cancelled_in_def)
next
  show "finite (dom (fst (cancelled_in p wp T)))"
    using tables_invD(4) [OF inv] by (simp add: cancelled_in_def)
  show "convertible q" if "fst (snd (snd (cancelled_in p wp T))) wd = Some q" for wd q
    using tables_invD(6) [OF inv, of wd q] that by (simp add: cancelled_in_def)
qed

lemma inv_registered_in:
  "tables_inv T \<Longrightarrow> fst T p = None \<Longrightarrow> convertible p \<Longrightarrow> fst (snd T) wd = None \<Longrightarrow>
   tables_inv (registered_in p wd i T)"
  by (force simp: tables_inv_def registered_in_def new_watch_point_def)

lemma inv_finished_recent: "tables_inv T \<Longrightarrow> tables_inv (finished_recent wd T)"
  by (simp add: tables_inv_def finished_recent_def)

lemma inv_removed:
  assumes inv: "tables_inv T" and p: "fst T p = Some wp"
    and recent: "\<And>wd q. fst R wd = Some q \<Longrightarrow> convertible q"
  shows "tables_inv ((fst T)(p := None), (fst (snd T))(wp_watchDescriptor wp := None), R)"
proof -
  note t = tables_invD [OF inv]
  have other: "q \<noteq> p \<Longrightarrow> fst T q = Some wq \<Longrightarrow> wp_watchDescriptor wq \<noteq> wp_watchDescriptor wp" for q wq
    using t(2) [OF p] t(2) [of q wq] by auto
  have kept: "wd \<noteq> wp_watchDescriptor wp \<Longrightarrow> fst (snd T) wd = Some q \<Longrightarrow> q \<noteq> p" for wd q
    using t(3) [of wd q] p by auto
  show ?thesis
    unfolding tables_inv_def
    using t(1,2,4,5) t(3) recent other kept by (auto simp: dom_fun_upd split: if_splits)
qed

lemma inv_unregistered_in:
  "tables_inv T \<Longrightarrow> fst T p = Some wp \<Longrightarrow> tables_inv (unregistered_in p wp T)"
  unfolding unregistered_in_def
  by (rule inv_removed) (auto simp: emplace_def dest: tables_invD(5,6) split: option.splits if_splits)

lemma inv_finished_registered:
  "tables_inv T \<Longrightarrow> fst (snd T) wd = Some p \<Longrightarrow> tables_inv (finished_registered wd p T)"
  unfolding finished_registered_def
  using inv_removed [of T p _ "snd (snd T)"] tables_invD(3,6) by metis

lemmas inv_steps = inv_cancelled_in inv_registered_in inv_finished_recent inv_unregistered_in
  inv_finished_registered

section \<open>Every operation keeps it\<close>

lemma keeps_linux_inv:
  assumes "\<And>T. tables_inv T \<Longrightarrow> triple (has_tables T) m (Q T) (E T)"
    and "\<And>T x s. tables_inv T \<Longrightarrow> Q T x s \<Longrightarrow> tables_inv (tables s)"
    and "\<And>T e s. tables_inv T \<Longrightarrow> E T e s \<Longrightarrow> tables_inv (tables s)"
  shows "keeps linux_inv m"
  unfolding keeps_def
proof (rule tripleI)
  fix s x s' assume "linux_inv s" "m s = (Inr x, s')"
  then show "linux_inv s'"
    using assms(1) [of "tables s"] assms(2) [of "tables s" x s']
    by (auto simp: linux_inv_def has_tables_def dest: triple_okD)
next
  fix s e s' assume "linux_inv s" "m s = (Inl e, s')"
  then show "linux_inv s'"
    using assms(1) [of "tables s"] assms(3) [of "tables s" e s']
    by (auto simp: linux_inv_def has_tables_def dest: triple_errD)
qed

lemma has_tables_inv: "tables_inv T \<Longrightarrow> has_tables T s \<Longrightarrow> tables_inv (tables s)"
  by (simp add: has_tables_def)

lemma framed_keeps_linux_inv: "framed m \<Longrightarrow> keeps linux_inv m"
  by (rule framed_keeps) (auto simp: linux_inv_def dest: same_server_tables)

lemma registerPath_keeps_inv: "keeps linux_inv (registerPath_linux api path)"
  by (rule keeps_linux_inv [OF registerPath_tables]) (auto intro: has_tables_inv inv_steps)

lemma unregisterPath_keeps_inv: "keeps linux_inv (unregisterPath_linux api path)"
  by (rule keeps_linux_inv [OF unregisterPath_tables]) (auto intro: has_tables_inv inv_steps)

lemma stopWatchingMovedPath_keeps_inv: "keeps linux_inv (stopWatchingMovedPath api path)"
  by (rule keeps_linux_inv [OF stopWatchingMovedPath_tables]) (auto intro: has_tables_inv inv_steps)

lemma handleEvent_keeps_inv: "keeps linux_inv (handleEvent_linux api event)"
  by (rule keeps_linux_inv [OF handleEvent_tables]) (auto intro: has_tables_inv inv_steps)

lemma stopWatchingMovedPaths_keeps_inv: "keeps linux_inv (stopWatchingMovedPaths_linux api paths)"
  unfolding stopWatchingMovedPaths_linux_def
  by (intro keeps_thenE keeps_forE stopWatchingMovedPath_keeps_inv framed_keeps_linux_inv framed_rules)

section \<open>The contract of registration\<close>

definition watched_linux :: "'w linux_server \<Rightarrow> u16string set" where
  "watched_linux s = dom (watchPoints s)"

lemma watched_has_tables: "has_tables T s \<Longrightarrow> watched_linux s = dom (fst T)"
  by (auto simp: has_tables_def tables_def watched_linux_def)

lemma has_own_tables: "has_tables (tables s) s"
  by (simp add: has_tables_def)

lemma watched_tables: "dom (fst (tables s)) = watched_linux s"
  by (simp add: tables_def watched_linux_def)

lemma registerPath_watched:
  assumes "registerPath_linux api p s = (Inr (), s')"
  shows "p \<notin> watched_linux s \<and> watched_linux s' = insert p (watched_linux s)"
proof -
  from triple_okD [OF registerPath_tables has_own_tables assms] obtain wd i
    where "fst (tables s) p = None" "has_tables (registered_in p wd i (tables s)) s'" by blast
  then show ?thesis
    using watched_has_tables [of "registered_in p wd i (tables s)" s']
    by (auto simp: registered_in_def tables_def watched_linux_def)
qed

lemma registerPath_error_tables:
  "registerPath_linux api p s = (Inl e, s') \<Longrightarrow> tables s' = tables s"
  using triple_errD [OF registerPath_tables has_own_tables] by (simp add: has_tables_def)

lemma unregisterPath_result:
  assumes "unregisterPath_linux api p s = (r, s')"
  obtains (unchanged) "r \<noteq> Inr True" "tables s' = tables s"
      "\<And>b wp. r = Inr b \<Longrightarrow> watchPoints s p = Some wp \<Longrightarrow> wp_status wp = CANCELLED"
  | (removed) wp where "watchPoints s p = Some wp" "wp_status wp = LISTENING" "\<exists>b. r = Inr b"
      "tables s' = unregistered_in p wp (tables s)"
  | (failed) wp e where "watchPoints s p = Some wp" "wp_status wp = LISTENING" "r = Inl e"
      "tables s' = cancelled_in p wp (tables s)"
proof (cases r)
  case (Inl e)
  then show ?thesis
    using that triple_errD [OF unregisterPath_tables has_own_tables, of api p s e s'] assms
    by (auto simp: has_tables_def) (auto simp: tables_def)
next
  case (Inr b)
  then show ?thesis
    using that triple_okD [OF unregisterPath_tables has_own_tables, of api p s b s'] assms
    by (auto simp: has_tables_def) (auto simp: tables_def)
qed

lemma unregisterPath_watched:
  assumes "unregisterPath_linux api p s = (r, s')"
  shows "watched_linux s - {p} \<subseteq> watched_linux s' \<and> watched_linux s' \<subseteq> watched_linux s \<and>
    (r = Inr True \<longrightarrow> watched_linux s' = watched_linux s - {p} \<and> p \<in> watched_linux s)"
  using assms
  by (cases rule: unregisterPath_result)
     (auto simp: watched_tables [symmetric] unregistered_in_def cancelled_in_def tables_def)

interpretation linux_registry: strict_path_registry linux_inv watched_linux
    "registerPath_linux api" "unregisterPath_linux api" for api
proof unfold_locales
  fix s :: "'a linux_server" and s' p and e :: exn and r
  show "registerPath_linux api p s = (Inr (), s') \<Longrightarrow>
      p \<notin> watched_linux s \<and> watched_linux s' = insert p (watched_linux s)"
    by (rule registerPath_watched)
  show "registerPath_linux api p s = (Inl e, s') \<Longrightarrow> watched_linux s' = watched_linux s"
    by (drule registerPath_error_tables) (simp add: watched_tables [symmetric])
  show "unregisterPath_linux api p s = (Inr True, s') \<Longrightarrow> watched_linux s' = watched_linux s - {p}"
    using unregisterPath_watched by blast
  show "unregisterPath_linux api p s = (r, s') \<Longrightarrow>
      watched_linux s - {p} \<subseteq> watched_linux s' \<and> watched_linux s' \<subseteq> watched_linux s"
    using unregisterPath_watched by blast
  show "unregisterPath_linux api p s = (Inr True, s') \<Longrightarrow> p \<in> watched_linux s"
    using unregisterPath_watched by blast
qed (rule registerPath_keeps_inv unregisterPath_keeps_inv)+

end
