(* ===== verification/LinuxSteps.thy ===== *)
theory LinuxSteps
  imports LinuxInv
begin

text \<open>
  The threads of the Linux server interleaved: a step relation whose steps are the sections the
  code runs under \<^verbatim>\<open>mutationMutex\<close> (registering, unregistering, the events of one read buffer),
  each path that \<^verbatim>\<open>stopWatchingMovedPaths\<close> checks, which the code does without the mutex, the
  end of the run loop, and everything that leaves the server's tables alone. The loops of the
  code are sequences of these steps, and the invariant holds in every reachable state.
\<close>

section \<open>The loops keep the invariant\<close>

lemma processEvents_keeps_inv:
  "linux_inv s \<Longrightarrow> processEvents api buf index count s = Some (r, s') \<Longrightarrow> linux_inv s'"
proof (induction api buf index count s arbitrary: r s' rule: processEvents.induct)
  case (1 api buf index count s)
  show ?case
  proof (cases "index < length buf")
    case False
    with 1 show ?thesis by (simp add: processEvents.simps [of api buf index])
  next
    case True
    with 1(3) obtain event where event: "event_at buf index = Some event"
      by (cases "event_at buf index") (auto simp: processEvents.simps [of api buf index])
    obtain r1 s1 where step: "handleEvent_linux api event s = (r1, s1)" by fastforce
    have s1: "linux_inv s1" by (rule keepsD' [OF handleEvent_keeps_inv 1(2) step])
    show ?thesis
    proof (cases r1)
      case (Inl e)
      with 1(3) True event step s1 show ?thesis by (simp add: processEvents.simps [of api buf index])
    next
      case (Inr u)
      with 1(3) True event step
      have "processEvents api buf (index + event_size event) (count + 1) s1 = Some (r, s')"
        by (simp add: processEvents.simps [of api buf index])
      with 1(1) [OF True event step [symmetric] Inr s1] show ?thesis .
    qed
  qed
qed

lemma processBuffer_keeps_inv:
  assumes "linux_inv s" and "processBuffer api buf s = Some (r, s')"
  shows "linux_inv s'"
proof -
  have log: "keeps linux_inv (logToJava api level fmt args)" for level fmt args
    by (intro framed_keeps_linux_inv framed_rules)
  have start: "keeps linux_inv (thenE (getThreadEnv api) (logToJava api level fmt args))"
    for level fmt args
    by (intro framed_keeps_linux_inv framed_rules)
  show ?thesis
    using assms
    by (auto simp: processBuffer_def split: prod.splits sum.splits option.splits
        dest!: keepsD' [OF log, rotated] keepsD' [OF start, rotated] dest: processEvents_keeps_inv)
qed

section \<open>Steps\<close>

inductive linux_step :: "'w linux_api \<Rightarrow> 'w linux_server \<Rightarrow> 'w linux_server \<Rightarrow> bool"
  for api :: "'w linux_api" where
  register: "registerPaths_linux api paths s = (r, s') \<Longrightarrow> linux_step api s s'"
| unregister: "unregisterPaths_linux api paths s = (r, s') \<Longrightarrow> linux_step api s s'"
| check_moved: "stopWatchingMovedPath api path s = (r, s') \<Longrightarrow> linux_step api s s'"
| buffer: "processBuffer api buf s = Some (r, s') \<Longrightarrow> linux_step api s s'"
| terminate: "s' = s\<lparr>shouldTerminate := True\<rparr> \<Longrightarrow> linux_step api s s'"
| other: "same_server s' s \<Longrightarrow> linux_step api s s'"

inductive_cases linux_stepE: "linux_step api s s'"

inductive linux_steps :: "'w linux_api \<Rightarrow> 'w linux_server \<Rightarrow> 'w linux_server \<Rightarrow> bool"
  for api :: "'w linux_api" where
  no_step: "linux_steps api s s"
| more_steps: "linux_step api s s1 \<Longrightarrow> linux_steps api s1 s' \<Longrightarrow> linux_steps api s s'"

lemma linux_steps_trans: "linux_steps api s s1 \<Longrightarrow> linux_steps api s1 s' \<Longrightarrow> linux_steps api s s'"
  by (induction rule: linux_steps.induct) (auto intro: linux_steps.intros)

lemma linux_steps_step: "linux_step api s s' \<Longrightarrow> linux_steps api s s'"
  by (rule linux_steps.more_steps [OF _ linux_steps.no_step])

definition linux_reachable :: "'w linux_api \<Rightarrow> 'w linux_server \<Rightarrow> bool" where
  "linux_reachable api s \<longleftrightarrow> (\<exists>w. linux_steps api (init_linux_server w) s)"

lemma linux_step_keeps_inv: "linux_step api s s' \<Longrightarrow> linux_inv s \<Longrightarrow> linux_inv s'"
proof (induction rule: linux_step.induct)
  case (register paths s r s')
  then show ?case
    unfolding registerPaths_linux_def
    using keepsD' [OF linux_registry.keeps_batches(1)] by blast
next
  case (unregister paths s r s')
  then show ?case
    unfolding unregisterPaths_linux_def
    using keepsD' [OF linux_registry.keeps_batches(2)] by blast
next
  case (check_moved path s r s')
  then show ?case using keepsD' [OF stopWatchingMovedPath_keeps_inv] by blast
next
  case (buffer buf s r s')
  then show ?case by (blast intro: processBuffer_keeps_inv)
next
  case (terminate s' s)
  then show ?case by (simp add: linux_inv_def tables_def tables_inv_def)
next
  case (other s' s)
  then show ?case by (simp add: linux_inv_def same_server_tables)
qed

lemma linux_steps_keep_inv: "linux_steps api s s' \<Longrightarrow> linux_inv s \<Longrightarrow> linux_inv s'"
  by (induction rule: linux_steps.induct) (auto dest: linux_step_keeps_inv)

lemma linux_inv_init: "linux_inv (init_linux_server w)"
  by (simp add: linux_inv_def tables_inv_def tables_def init_linux_server_def)

lemma reachable_inv: "linux_reachable api s \<Longrightarrow> linux_inv s"
  by (auto simp: linux_reachable_def intro: linux_steps_keep_inv [OF _ linux_inv_init])

section \<open>The loops are sequences of steps\<close>

lemma framed_step: "framed m \<Longrightarrow> m s = (r, s') \<Longrightarrow> linux_step api s s'"
  by (metis framedD linux_step.other snd_conv)

lemma readEvents_steps:
  assumes "readEvents api available s = Some (r, s')"
  shows "linux_steps api s s'"
proof (rule readEvents.raw_induct [of "\<lambda>api available s (r, s'). linux_steps api s s'", THEN case_prodD])
  fix rec :: "'a linux_api \<Rightarrow> 32 word \<Rightarrow> ('a, unit) linux_loop"
    and api :: "'a linux_api" and available s and p :: "(exn + unit) \<times> 'a linux_server"
  assume IH: "\<And>api available s p. rec api available s = Some p \<Longrightarrow>
      (case p of (r, s') \<Rightarrow> linux_steps api s s')"
    and body: "(if available = 0 then Some (Inr (), s)
      else
        (case syscall (readInotify api EVENT_BUFFER_SIZE) s of
           (Inl e, s1) \<Rightarrow> Some (Inl e, s1)
         | (Inr None, s1) \<Rightarrow>
             if errno s1 = EAGAIN then Some (Inr (), s1)
             else Some (Inl (FileWatcherException_code ''Couldn't read from inotify'' (errno s1)), s1)
         | (Inr (Some buf), s1) \<Rightarrow>
             if buf = [] then
               Some (Inl (FileWatcherException_code ''EOF reading from inotify'' (errno s1)), s1)
             else
               (case processBuffer api buf s1 of
                  None \<Rightarrow> None
                | Some (Inl e, s2) \<Rightarrow> Some (Inl e, s2)
                | Some (Inr _, s2) \<Rightarrow> rec api (available - of_nat (length buf)) s2))) = Some p"
  obtain r1 s1 where read: "syscall (readInotify api EVENT_BUFFER_SIZE) s = (r1, s1)" by fastforce
  note s1 = linux_steps_step [OF framed_step [OF framed_syscall read, of api]]
  have tail: "linux_steps api s s2"
    if "processBuffer api buf s1 = Some (r2, s2)" for buf r2 s2
    by (rule linux_steps_trans [OF s1 linux_steps_step [OF linux_step.buffer [OF that]]])
  show "case p of (r, s') \<Rightarrow> linux_steps api s s'"
    using body read s1 tail IH
    by (auto simp: linux_steps.no_step split: if_splits sum.splits option.splits prod.splits
        dest!: IH) (metis tail linux_steps_trans)+
qed (rule assms)

lemma handleEvents_steps:
  assumes "handleEvents_linux api s = Some (r, s')"
  shows "linux_steps api s s'"
proof -
  obtain available w where f: "fionread api (world s) = (available, w)" by fastforce
  have "linux_step api s (s\<lparr>world := w\<rparr>)" by (rule linux_step.other) (simp add: same_server_def)
  with f assms show ?thesis
    by (auto simp: handleEvents_linux_def dest: readEvents_steps intro: linux_steps.more_steps)
qed

lemma consume_terminate_steps:
  assumes "thenE (consume_ShutdownEvent api) (modifyE (\<lambda>s. s\<lparr>shouldTerminate := True\<rparr>)) s = (r, s')"
  shows "linux_steps api s s'"
proof -
  have fr: "framed (consume_ShutdownEvent api)"
    unfolding consume_ShutdownEvent_def by (intro framed_rules)
  obtain r1 s1 where c: "consume_ShutdownEvent api s = (r1, s1)" by fastforce
  with assms have "s' = s1 \<or> s' = s1\<lparr>shouldTerminate := True\<rparr>"
    by (auto simp: exec_simps split: sum.splits)
  moreover have "linux_step api s s1" by (rule framed_step [OF fr c])
  ultimately show ?thesis
    by (metis linux_step.terminate linux_steps.no_step linux_steps.more_steps)
qed

lemma processQueues_steps:
  assumes "processQueues api timeout s = Some (r, s')"
  shows "linux_steps api s s'"
proof -
  obtain r1 s1 where poll: "syscall (pollFds api timeout) s = (r1, s1)" by fastforce
  note s1 = linux_steps_step [OF framed_step [OF framed_syscall poll, of api]]
  have report: "linux_step api s2 s3"
    if "tryE (liftE r2) (\<lambda>ex. thenE (getThreadEnv api) (reportFailure api ex)) s2 = (r3, s3)"
    for r2 :: "exn + unit" and s2 r3 s3
  proof -
    have fr: "framed (tryE (liftE r2) (\<lambda>ex. thenE (getThreadEnv api) (reportFailure api ex)) ::
        ('a, unit) linux_action)"
      by (intro framed_rules)
    show ?thesis using framedD [OF fr, of s2] that by (auto intro: linux_step.other)
  qed
  have "s' = s1 \<or> linux_steps api s1 s'"
    using assms poll
    by (auto simp: processQueues_def split: sum.splits option.splits prod.splits if_splits
        dest: consume_terminate_steps handleEvents_steps)
       (metis handleEvents_steps report linux_steps_step linux_steps_trans)+
  with s1 show ?thesis by (auto intro: linux_steps_trans)
qed

lemma runLoop_steps:
  assumes "runLoop_linux api s = Some (r, s')"
  shows "linux_steps api s s' \<and> (r = Inr () \<longrightarrow> shouldTerminate s')"
proof (rule runLoop_linux.raw_induct [of "\<lambda>api s (r, s'). linux_steps api s s' \<and>
    (r = Inr () \<longrightarrow> shouldTerminate s')", THEN case_prodD])
  fix rec :: "'a linux_api \<Rightarrow> ('a, unit) linux_loop"
    and api :: "'a linux_api" and s and p :: "(exn + unit) \<times> 'a linux_server"
  assume IH: "\<And>api s p. rec api s = Some p \<Longrightarrow>
      (case p of (r, s') \<Rightarrow> linux_steps api s s' \<and> (r = Inr () \<longrightarrow> shouldTerminate s'))"
    and body: "(if shouldTerminate s then Some (Inr (), s)
      else (case processQueues api FOREVER s of
           None \<Rightarrow> None
         | Some (Inl e, s1) \<Rightarrow> Some (Inl e, s1)
         | Some (Inr _, s1) \<Rightarrow> rec api s1)) = Some p"
  show "case p of (r, s') \<Rightarrow> linux_steps api s s' \<and> (r = Inr () \<longrightarrow> shouldTerminate s')"
    using body
    by (auto simp: linux_steps.no_step split: if_splits option.splits sum.splits prod.splits
        dest!: IH dest: processQueues_steps intro: linux_steps_trans [OF processQueues_steps])
qed (rule assms)

end
