(* ===== verification/LinuxSpec.thy ===== *)
theory LinuxSpec
  imports LinuxSteps
begin

text \<open>
  What the Linux server promises about events, without its tables: which watch descriptors are
  watched, for which path, and which event leads to which report. The event handler and the
  loop over a read buffer refine it.
\<close>

section \<open>The abstract server\<close>

text \<open>Each watch descriptor with its path and whether its events are still wanted; the
  descriptors that were unregistered and may still have events in flight; whether the server
  is ending.\<close>

record watch_view =
  vw_watches :: "int \<rightharpoonup> u16string \<times> bool"
  vw_recent :: "int set"
  vw_ending :: bool

definition view :: "'w linux_server \<Rightarrow> watch_view" where
  "view s = \<lparr>
     vw_watches = (\<lambda>wd. case watchRoots s wd of
         None \<Rightarrow> None
       | Some p \<Rightarrow> (case watchPoints s p of
             None \<Rightarrow> None
           | Some wp \<Rightarrow> Some (p, wp_status wp = LISTENING))),
     vw_recent = dom (recentlyUnregisteredWatchRoots s),
     vw_ending = shouldTerminate s\<rparr>"

definition vw_paths :: "watch_view \<Rightarrow> u16string set" where
  "vw_paths V = fst ` ran (vw_watches V)"

definition event_report :: "flags32 \<Rightarrow> u16string \<Rightarrow> upcall" where
  "event_report m path =
     (if IS_SET m IN_CREATE \<or> IS_SET m IN_MOVED_TO then ReportChangeEvent 0 path
      else if IS_SET m IN_DELETE \<or> IS_SET m IN_DELETE_SELF \<or> IS_SET m IN_MOVED_FROM
      then ReportChangeEvent 1 path
      else if IS_SET m IN_MODIFY then ReportChangeEvent 2 path
      else ReportUnknownEvent path)"

lemma event_report_eq:
  "event_report m path =
     (case change_type_of_mask m of
        None \<Rightarrow> ReportUnknownEvent path
      | Some t \<Rightarrow> ReportChangeEvent (change_type_value t) path)"
  by (simp add: event_report_def change_type_of_mask_def IS_SET_or)

definition joined_path :: "u16string \<Rightarrow> u16string \<Rightarrow> u16string" where
  "joined_path path name = path @ (if name = [] then [] else 0x2F # name)"

lemma event_path_joined: "event_path path name = joined_path path name"
  by (simp add: event_path_def joined_path_def)

text \<open>The reports an event leads to; \<open>order\<close> lists the watched paths, for an overflow.\<close>

definition event_reports :: "u16string list \<Rightarrow> inotify_event \<Rightarrow> u16string \<Rightarrow> watch_view \<Rightarrow> upcall list" where
  "event_reports order ev name V =
     (if IS_SET (ev_mask ev) IN_UNMOUNT then []
      else if IS_SET (ev_mask ev) IN_Q_OVERFLOW then map ReportOverflow order
      else if IS_SET (ev_mask ev) IN_IGNORED then []
      else case vw_watches V (ev_wd ev) of
        Some (path, True) \<Rightarrow>
          if vw_ending V then [] else [event_report (ev_mask ev) (joined_path path name)]
      | _ \<Rightarrow> [])"

text \<open>Only the last event of a descriptor, \<^verbatim>\<open>IN_IGNORED\<close>, changes the view: the descriptor
  leaves it.\<close>

definition event_view :: "inotify_event \<Rightarrow> watch_view \<Rightarrow> watch_view" where
  "event_view ev V =
     (if IS_SET (ev_mask ev) IN_UNMOUNT \<or> IS_SET (ev_mask ev) IN_Q_OVERFLOW \<or>
         \<not> IS_SET (ev_mask ev) IN_IGNORED then V
      else if vw_watches V (ev_wd ev) \<noteq> None
        then V\<lparr>vw_watches := (vw_watches V)(ev_wd ev := None)\<rparr>
      else V\<lparr>vw_recent := vw_recent V - {ev_wd ev}\<rparr>)"

section \<open>The view of a concrete state\<close>

lemma view_same_server: "same_server s s' \<Longrightarrow> view s = view s'"
  by (drule same_server_tables) (simp add: view_def tables_def cong: option.case_cong)

lemma view_after_call [simp]: "view (after_call j c s) = view s"
  by (rule view_same_server) simp

lemma linux_inv_after_call [simp]: "linux_inv (after_call j c s) = linux_inv s"
  for s :: "'w linux_server"
  by (simp add: linux_inv_def tables_def)

lemma view_watches:
  assumes "linux_inv s"
  shows "vw_watches (view s) wd = Some (p, l) \<longleftrightarrow>
    (\<exists>wp. watchPoints s p = Some wp \<and> wp_watchDescriptor wp = wd \<and> l = (wp_status wp = LISTENING))"
    (is "?L \<longleftrightarrow> ?R")
proof
  assume ?L
  then obtain wp where "watchRoots s wd = Some p" "watchPoints s p = Some wp"
    "l = (wp_status wp = LISTENING)"
    by (auto simp: view_def split: option.splits)
  with linux_invD(3) [OF assms] show ?R by fastforce
next
  assume ?R
  with linux_invD(2) [OF assms] show ?L by (auto simp: view_def)
qed

lemma view_watches_None:
  assumes "linux_inv s"
  shows "vw_watches (view s) wd = None \<longleftrightarrow> watchRoots s wd = None"
  using linux_invD(3) [OF assms] by (fastforce simp: view_def split: option.splits)

lemma vw_paths_view:
  assumes "linux_inv s"
  shows "vw_paths (view s) = dom (watchPoints s)"
proof
  show "vw_paths (view s) \<subseteq> dom (watchPoints s)"
    using view_watches [OF assms] by (auto simp: vw_paths_def ran_def)
  show "dom (watchPoints s) \<subseteq> vw_paths (view s)"
  proof
    fix p assume "p \<in> dom (watchPoints s)"
    then obtain wp where "watchPoints s p = Some wp" by blast
    with view_watches [OF assms]
    have "vw_watches (view s) (wp_watchDescriptor wp) = Some (p, wp_status wp = LISTENING)" by blast
    then show "p \<in> vw_paths (view s)" unfolding vw_paths_def by (force intro: ranI)
  qed
qed

section \<open>The handler refines the abstract event\<close>

text \<open>The name the handler sees.\<close>

definition event_name :: "inotify_event \<Rightarrow> string" where
  "event_name ev = (if ev_len ev = 0 then [] else c_str (ev_name ev))"

text \<open>What the C++ standard promises about traversing an \<^verbatim>\<open>unordered_map\<close>: each key once.\<close>

definition iteration_ok :: "'w linux_api \<Rightarrow> bool" where
  "iteration_ok api \<longleftrightarrow> (\<forall>D w. finite D \<longrightarrow>
     set (iterationOrder api D w) = D \<and> distinct (iterationOrder api D w))"

text \<open>An operation that ends without an exception with the given reports and view.\<close>

definition does :: "('w, unit) linux_action \<Rightarrow> 'w linux_server \<Rightarrow> upcall list \<Rightarrow> watch_view \<Rightarrow> bool" where
  "does m s rs V \<longleftrightarrow> (\<exists>s'. m s = (Inr (), s') \<and> reports s' = reports s @ rs \<and> view s' = V)"

lemma does_log:
  assumes "jni_ok api"
  shows "does (logToJava api level fmt args) s [] (view s)"
  by (simp add: does_def logToJava_ok [OF assms])

lemma does_then_log:
  assumes "jni_ok api"
    and "\<And>c. is_log c \<Longrightarrow> does m (after_call api c s) rs V"
  shows "does (thenE (logToJava api level fmt args) m) s rs V"
  using assms(2) [of "LogMessage (log_level_value level)
      (take (LOG_BUFFER_SIZE - 1) (format_text fmt args))"]
  by (auto simp: does_def run_thenE logToJava_ok [OF assms(1)])

lemma does_path8:
  assumes "convertible path" and "\<And>p8. does (f p8) s rs V"
  shows "does (bindE (liftE (utf16ToUtf8String path)) f) s rs V"
  using assms by (auto simp: does_def convertible_def run_bindE run_liftE utf16ToUtf8String_def)

lemma does_reportOverflow:
  assumes "jni_ok api" and "convertible p"
  shows "does (reportOverflow api p) s [ReportOverflow p] (view s)"
proof -
  obtain p8 where "utf16_to_bytes p = Some p8" using assms(2) by (auto simp: convertible_def)
  then show ?thesis by (simp add: does_def reportOverflow_ok [OF assms(1)])
qed

lemma does_overflows:
  assumes "jni_ok api" and "\<forall>p\<in>set ps. convertible p"
  shows "does (forE ps (\<lambda>path. reportOverflow api path)) s (map ReportOverflow ps) (view s)"
  using assms(2)
proof (induction ps arbitrary: s)
  case Nil
  then show ?case by (simp add: does_def run_ret)
next
  case (Cons p ps)
  obtain s1 where s1: "reportOverflow api p s = (Inr (), s1)"
    "reports s1 = reports s @ [ReportOverflow p]" "view s1 = view s"
    using does_reportOverflow [OF assms(1), of p s] Cons.prems by (auto simp: does_def)
  from Cons.IH [of s1] Cons.prems s1 show ?case by (auto simp: does_def run_thenE)
qed

lemma does_reportEvent:
  assumes "jni_ok api" and "bytes_to_utf16 eventName = Some name" and "convertible path"
  shows "does (reportEvent api m eventName path) s [event_report m (joined_path path name)] (view s)"
proof -
  have "convertible (joined_path path name)"
    using assms(3) convertible_append [of path "0x2F # name"]
      convertible_append [of "[0x2F]" name] bytes_to_utf16_convertible [OF assms(2)] convertible_slash
    by (simp add: joined_path_def)
  then obtain p8 where "utf16_to_bytes (joined_path path name) = Some p8"
    by (auto simp: convertible_def)
  with assms(1,2) show ?thesis
    by (cases "change_type_of_mask m")
       (simp_all add: does_def reportEvent_def run_bindE run_thenE run_liftE Let_def
         utf8ToUtf16String_def utf16ToUtf8String_def logToJava_ok reportChangeEvent_run
         reportUnknownEvent_run event_report_eq event_path_joined)
qed

lemma does_handleUnregisteredEvent:
  assumes "jni_ok api" and inv: "linux_inv s" and "vw_watches (view s) (ev_wd ev) = None"
    and "\<not> IS_SET (ev_mask ev) IN_UNMOUNT" and "\<not> IS_SET (ev_mask ev) IN_Q_OVERFLOW"
  shows "does (handleUnregisteredEvent api ev) s [] (event_view ev (view s))"
proof (cases "recentlyUnregisteredWatchRoots s (ev_wd ev)")
  case None
  then have "event_view ev (view s) = view s"
    using assms(3) by (auto simp: event_view_def view_def dom_def)
  with None show ?thesis
    by (simp add: does_def handleUnregisteredEvent_def run_bindE run_getE logToJava_ok [OF assms(1)])
next
  case (Some path)
  obtain p8 where "utf16_to_bytes path = Some p8"
    using linux_invD(6) [OF inv Some] by (auto simp: convertible_def)
  moreover have "view (s'\<lparr>recentlyUnregisteredWatchRoots := m\<rparr>) = (view s')\<lparr>vw_recent := dom m\<rparr>"
    for s' :: "'a linux_server" and m
    by (auto simp: view_def cong: option.case_cong)
  moreover have "dom (recentlyUnregisteredWatchRoots s) = vw_recent (view s)"
    by (simp add: view_def)
  moreover have "reports (s'\<lparr>recentlyUnregisteredWatchRoots := m\<rparr>) = reports s'"
    for s' :: "'a linux_server" and m
    by (simp add: reports_def)
  ultimately show ?thesis
    using Some assms(3-)
    by (simp add: does_def handleUnregisteredEvent_def run_bindE run_thenE run_getE run_liftE
        run_modifyE logToJava_ok [OF assms(1)] event_view_def utf16ToUtf8String_def)
qed

lemma view_finished:
  assumes inv: "linux_inv s" and p: "watchPoints s path = Some wp" and wd: "watchRoots s wd = Some path"
  shows "view (s\<lparr>watchRoots := (watchRoots s)(wd := None), watchPoints := (watchPoints s)(path := None)\<rparr>)
    = (view s)\<lparr>vw_watches := (vw_watches (view s))(wd := None)\<rparr>"
proof -
  have "q \<noteq> path" if "wd' \<noteq> wd" and "watchRoots s wd' = Some q" for wd' q
    using linux_invD(3) [OF inv that(2)] linux_invD(3) [OF inv wd] that(1) p by auto
  then show ?thesis by (auto simp: view_def split: option.split)
qed

lemma does_handleRegisteredEvent:
  assumes jni: "jni_ok api" and inv: "linux_inv s"
    and root: "watchRoots s (ev_wd ev) = Some path"
    and name: "bytes_to_utf16 eventName = Some name"
    and "\<not> IS_SET (ev_mask ev) IN_UNMOUNT" and "\<not> IS_SET (ev_mask ev) IN_Q_OVERFLOW"
  shows "does (handleRegisteredEvent api ev eventName path) s (event_reports order ev name (view s))
    (event_view ev (view s))"
proof -
  obtain wp where wp: "watchPoints s path = Some wp" "wp_watchDescriptor wp = ev_wd ev"
    using linux_invD(3) [OF inv root] by blast
  then have V: "vw_watches (view s) (ev_wd ev) = Some (path, wp_status wp = LISTENING)"
    using view_watches [OF inv] by blast
  have path: "convertible path" by (rule linux_invD(5) [OF inv wp(1)])
  then obtain p8 where p8: "utf16_to_bytes path = Some p8" by (auto simp: convertible_def)
  note run = does_def handleRegisteredEvent_def run_bindE run_thenE run_getE run_liftE run_modifyE
    logToJava_ok [OF jni] utf16ToUtf8String_def
  show ?thesis
  proof (cases "IS_SET (ev_mask ev) IN_IGNORED")
    case True
    let ?s = "after_call api (LogMessage (log_level_value TRACE_LEVEL) (take (LOG_BUFFER_SIZE - 1)
      (format_text ''Finished watching still registered '%s' (wd = %d)'' [Str p8, Dec (ev_wd ev)]))) s"
    have "view (?s\<lparr>watchRoots := (watchRoots ?s)(ev_wd ev := None),
        watchPoints := (watchPoints ?s)(path := None)\<rparr>) = event_view ev (view s)"
      using view_finished [of ?s path wp "ev_wd ev"] inv wp root True V assms(5,6)
      by (simp add: event_view_def)
    with True V wp p8 show ?thesis
      by (simp add: run event_reports_def assms(5,6)) (simp add: reports_def)
  next
    case False
    then have ev: "event_view ev (view s) = view s" by (simp add: event_view_def)
    show ?thesis
    proof (cases "wp_status wp = LISTENING \<and> \<not> shouldTerminate s")
      case True
      then have "event_reports order ev name (view s) = [event_report (ev_mask ev) (joined_path path name)]"
        using V False assms(5,6) by (simp add: event_reports_def) (simp add: view_def)
      with True False wp ev does_reportEvent [OF jni name path, of "ev_mask ev" s] show ?thesis
        by (simp add: run)
    next
      case F: False
      then have "event_reports order ev name (view s) = []"
        using V False assms(5,6) by (auto simp: event_reports_def view_def split: bool.splits)
      with F False wp ev p8 show ?thesis by (auto simp: run)
    qed
  qed
qed

lemma does_handleEvent:
  assumes jni: "jni_ok api" and iter: "iteration_ok api" and inv: "linux_inv s"
    and name: "bytes_to_utf16 (event_name ev) = Some name"
  obtains order where "set order = vw_paths (view s)" "distinct order"
    "does (handleEvent_linux api ev) s (event_reports order ev name (view s)) (event_view ev (view s))"
proof -
  define log where "log = LogMessage (log_level_value TRACE_LEVEL) (take (LOG_BUFFER_SIZE - 1)
    (format_text ''Event mask: 0x%x for %s (wd = %d, cookie = 0x%x, len = %d)''
        [Hex (ev_mask ev), Str (event_name ev), Dec (ev_wd ev), Hex (ev_cookie ev),
         Dec (sint (ev_len ev))]))"
  let ?s = "after_call api log s"
  let ?body = "if IS_SET (ev_mask ev) IN_UNMOUNT then ret ()
       else if IS_SET (ev_mask ev) IN_Q_OVERFLOW then
         bindE (getE (\<lambda>s. iterationOrder api (dom (watchPoints s)) (world s))) (\<lambda>paths.
         forE paths (\<lambda>path. reportOverflow api path))
       else
         bindE (getE watchRoots) (\<lambda>roots.
         case roots (ev_wd ev) of
           None \<Rightarrow> handleUnregisteredEvent api ev
         | Some path \<Rightarrow> handleRegisteredEvent api ev (event_name ev) path)"
  define order where "order = iterationOrder api (dom (watchPoints s)) (world ?s)"
  have order: "set order = vw_paths (view s)" "distinct order"
    using iter linux_invD(4) [OF inv] vw_paths_view [OF inv] by (auto simp: order_def iteration_ok_def)
  have conv: "\<forall>p\<in>set order. convertible p"
    using order(1) vw_paths_view [OF inv] linux_invD(5) [OF inv] by auto
  have inv': "linux_inv ?s" using inv by simp
  have body: "does ?body ?s (event_reports order ev name (view s)) (event_view ev (view s))"
  proof (cases "IS_SET (ev_mask ev) IN_UNMOUNT \<or> IS_SET (ev_mask ev) IN_Q_OVERFLOW")
    case True
    with does_overflows [OF jni conv, of ?s] show ?thesis
      by (auto simp: does_def event_reports_def event_view_def run_ret run_bindE run_getE order_def)
  next
    case False
    show ?thesis
    proof (cases "watchRoots s (ev_wd ev)")
      case None
      then have V: "vw_watches (view s) (ev_wd ev) = None" using view_watches_None [OF inv] by simp
      then have "event_reports order ev name (view s) = []" using False by (simp add: event_reports_def)
      with None False V does_handleUnregisteredEvent [OF jni inv', of ev] show ?thesis
        by (simp add: does_def run_bindE run_getE)
    next
      case (Some path)
      with False does_handleRegisteredEvent [OF jni inv' _ name, of ev path order] show ?thesis
        by (simp add: does_def run_bindE run_getE)
    qed
  qed
  have "handleEvent_linux api ev s = ?body ?s"
    by (simp only: handleEvent_linux_def Let_def event_name_def [symmetric] run_thenE
        logToJava_ok [OF jni] log_def prod.case sum.case)
  with body have "does (handleEvent_linux api ev) s (event_reports order ev name (view s))
      (event_view ev (view s))"
    by (simp add: does_def log_def)
  with order that show thesis by blast
qed

section \<open>A buffer of events\<close>

text \<open>The abstract server on a sequence of events: it handles them in order.\<close>

inductive view_run :: "inotify_event list \<Rightarrow> watch_view \<Rightarrow> upcall list \<Rightarrow> watch_view \<Rightarrow> bool" where
  no_event: "view_run [] V [] V"
| next_event: "bytes_to_utf16 (event_name ev) = Some name \<Longrightarrow>
     set order = vw_paths V \<Longrightarrow> distinct order \<Longrightarrow> view_run evs (event_view ev V) rs V' \<Longrightarrow>
     view_run (ev # evs) V (event_reports order ev name V @ rs) V'"

inductive_cases view_run_NilE: "view_run [] V rs V'"
inductive_cases view_run_ConsE: "view_run (ev # evs) V rs V'"

lemma processEvents_step:
  assumes "kernel_event ev"
  shows "processEvents api (pre @ event_bytes ev @ post) (length pre) n s =
    (case handleEvent_linux api ev s of
       (Inl e, s1) \<Rightarrow> Some (Inl e, s1)
     | (Inr _, s1) \<Rightarrow>
         processEvents api ((pre @ event_bytes ev) @ post) (length (pre @ event_bytes ev)) (n + 1) s1)"
  using event_at_event_bytes [OF assms refl, of pre post] length_event_bytes [OF assms]
  by (subst processEvents.simps) (auto split: prod.splits sum.splits)

lemma processEvents_done: "processEvents api buf (length buf) n s = Some (Inr n, s)"
  by (subst processEvents.simps) simp

lemma processEvents_view_run:
  assumes "jni_ok api" and "iteration_ok api" and "linux_inv s"
    and "\<forall>ev\<in>set evs. kernel_event ev \<and> bytes_to_utf16 (event_name ev) \<noteq> None"
  shows "\<exists>s' rs. processEvents api (pre @ concat (map event_bytes evs)) (length pre) n s =
      Some (Inr (n + int (length evs)), s') \<and>
    view_run evs (view s) rs (view s') \<and> reports s' = reports s @ rs"
  using assms(3,4)
proof (induction evs arbitrary: pre n s)
  case Nil
  then show ?case using processEvents_done [of api pre n s] by (auto intro: view_run.no_event)
next
  case (Cons ev evs)
  then obtain name where name: "bytes_to_utf16 (event_name ev) = Some name" by auto
  from does_handleEvent [OF assms(1,2) Cons.prems(1) name] obtain order s1 where order:
    "set order = vw_paths (view s)" "distinct order" and s1: "handleEvent_linux api ev s = (Inr (), s1)"
    "reports s1 = reports s @ event_reports order ev name (view s)" "view s1 = event_view ev (view s)"
    unfolding does_def by metis
  have "linux_inv s1" by (rule keepsD' [OF handleEvent_keeps_inv Cons.prems(1) s1(1)])
  from Cons.IH [OF this, of "pre @ event_bytes ev" "n + 1"] Cons.prems(2) obtain s' rs where
    "processEvents api ((pre @ event_bytes ev) @ concat (map event_bytes evs))
       (length (pre @ event_bytes ev)) (n + 1) s1 = Some (Inr (n + 1 + int (length evs)), s')"
    and rs: "view_run evs (view s1) rs (view s')" "reports s' = reports s1 @ rs" by auto
  moreover have "kernel_event ev" using Cons.prems(2) by simp
  ultimately have "processEvents api (pre @ concat (map event_bytes (ev # evs))) (length pre) n s =
      Some (Inr (n + int (length (ev # evs))), s')"
    using processEvents_step [of ev api pre "concat (map event_bytes evs)" n s] s1(1)
    by (simp add: algebra_simps)
  moreover have "view_run (ev # evs) (view s) (event_reports order ev name (view s) @ rs) (view s')"
    by (rule view_run.next_event [OF name order]) (use rs(1) s1(3) in simp)
  ultimately show ?case using rs(2) s1(2) by (metis append.assoc)
qed

end
