(* ===== verification/LinuxProps.thy ===== *)
theory LinuxProps
  imports LinuxSpec "HOL-Library.List_Lexorder"
begin

text \<open>
  The properties of the Linux server: what is reported for which event, what registering and
  unregistering promise, which errors reach Java, and that shutting down ends the run loop.
\<close>

section \<open>An operating system and a server to evaluate on\<close>

definition quiet_linux :: "nat linux_api" where
  "quiet_linux = jni.extend quiet_jni \<lparr>
     inotifyInit = (\<lambda>w. (Inr 3, w)), eventfdCreate = (\<lambda>w. (Inr 4, w)),
     lstatInode = (\<lambda>_ w. (Inr 7, w)), inotifyAddWatch = (\<lambda>_ _ w. (Inr (int w + 1), w + 1)),
     inotifyRmWatch = (\<lambda>_ w. (Inr (), w)), fionread = (\<lambda>w. (0, w)),
     readInotify = (\<lambda>_ w. (Inl EAGAIN, w)), pollFds = (\<lambda>_ w. (Inr (True, False), w)),
     readEventfd = (\<lambda>w. (Inr (), w)), writeEventfd = (\<lambda>w. w),
     iterationOrder = (\<lambda>D w. sorted_list_of_set D)\<rparr>"

lemma quiet_linux_select [simp]:
  "stringCritical quiet_linux = (\<lambda>_ _. True)" "throwNew quiet_linux = (\<lambda>_ _ _. 0)"
  "callJava quiet_linux = (\<lambda>_ w. (None, w))" "getEnv quiet_linux = (\<lambda>_. JNI_OK)"
  "getJavaVM quiet_linux = (\<lambda>_. 0)" "newGlobalRef quiet_linux = (\<lambda>_. True)"
  "libraryWhat quiet_linux = (\<lambda>_. ''library'')"
  "inotifyInit quiet_linux = (\<lambda>w. (Inr 3, w))" "eventfdCreate quiet_linux = (\<lambda>w. (Inr 4, w))"
  "lstatInode quiet_linux = (\<lambda>_ w. (Inr 7, w))"
  "inotifyAddWatch quiet_linux = (\<lambda>_ _ w. (Inr (int w + 1), w + 1))"
  "inotifyRmWatch quiet_linux = (\<lambda>_ w. (Inr (), w))" "fionread quiet_linux = (\<lambda>w. (0, w))"
  "readInotify quiet_linux = (\<lambda>_ w. (Inl EAGAIN, w))"
  "pollFds quiet_linux = (\<lambda>_ w. (Inr (True, False), w))"
  "readEventfd quiet_linux = (\<lambda>w. (Inr (), w))"
  "iterationOrder quiet_linux = (\<lambda>D w. sorted_list_of_set D)"
  by (simp_all add: quiet_linux_def jni.defs quiet_jni_def)

lemma quiet_linux_ok: "jni_ok quiet_linux" "iteration_ok quiet_linux"
  by (simp_all add: jni_ok_def iteration_ok_def)

text \<open>A server that watches \<open>/a\<close> through descriptor 1.\<close>

definition sample_path :: u16string where "sample_path = [0x2F, 0x61]"

definition sample_server :: "nat linux_server" where
  "sample_server = snd (registerPath_linux quiet_linux sample_path (init_linux_server 0))"

lemma sample_path_utf8 [simp]: "utf16_to_bytes sample_path = Some ''/a''"
  by (simp add: sample_path_def utf16_to_bytes_def utf8_unit_def high_surrogate_def low_surrogate_def
      char_of_def bit_0)

lemma register_sample:
  "registerPath_linux quiet_linux sample_path (init_linux_server 0) = (Inr (), sample_server)"
  by (simp add: sample_server_def registerPath_linux_def exec_simps init_linux_server_def
      utf16ToUtf8String_def syscall_def set_watch_point_def)

lemma sample_server_fields [simp]:
  "watchPoints sample_server = [sample_path \<mapsto> new_watch_point sample_path 1 7]"
  "watchRoots sample_server = [1 \<mapsto> sample_path]"
  "recentlyUnregisteredWatchRoots sample_server = Map.empty"
  "shouldTerminate sample_server = False" "world sample_server = 1" "upcalls sample_server = []"
  "pending sample_server = None" "terminated sample_server = False"
  by (simp_all add: sample_server_def registerPath_linux_def exec_simps init_linux_server_def
      utf16ToUtf8String_def syscall_def set_watch_point_def)

lemma sample_reachable: "linux_reachable quiet_linux sample_server"
proof -
  have "registerPaths_linux quiet_linux [sample_path] (init_linux_server 0) = (Inr (), sample_server)"
    by (simp add: registerPaths_linux_def run_thenE run_ret register_sample)
  then show ?thesis
    unfolding linux_reachable_def by (metis linux_step.register linux_steps_step)
qed

lemma sample_inv: "linux_inv sample_server"
  by (rule reachable_inv [OF sample_reachable])

definition sample_event :: "flags32 \<Rightarrow> inotify_event" where
  "sample_event m = \<lparr>ev_wd = 1, ev_mask = m, ev_cookie = 0, ev_len = 4, ev_name = ''b'' @ replicate 3 CHR 0x00\<rparr>"

lemma sample_event_name [simp]: "event_name (sample_event m) = ''b''"
  by (simp add: event_name_def sample_event_def c_str_def numeral_3_eq_3)

lemma utf16_b [simp]: "bytes_to_utf16 ''b'' = Some [0x62]"
  by (rule bytes_of_utf16_roundtrip(2))
     (simp_all add: utf16_to_bytes_def utf8_unit_def high_surrogate_def low_surrogate_def
       char_of_def bit_0)

lemma sample_event_kernel: "kernel_event (sample_event m)"
  by (simp add: kernel_event_def sample_event_def)

section \<open>Consistency\<close>

text \<open>
  C3: In every state the server's threads can reach, whatever the operating system and Java do,
  the tables agree: a watch point is stored under its own path and its descriptor leads back to
  it, each descriptor leads to a watch point, no two watched paths share a descriptor, and every
  watched path can be converted to UTF-8.
\<close>

theorem linux_reachable_consistent:
  assumes "linux_reachable api s"
  shows "(\<forall>p wp. watchPoints s p = Some wp \<longrightarrow>
            wp_path wp = p \<and> watchRoots s (wp_watchDescriptor wp) = Some p \<and> convertible p) \<and>
    (\<forall>wd p. watchRoots s wd = Some p \<longrightarrow>
       (\<exists>wp. watchPoints s p = Some wp \<and> wp_watchDescriptor wp = wd)) \<and>
    (\<forall>p q wp wq. watchPoints s p = Some wp \<longrightarrow> watchPoints s q = Some wq \<longrightarrow>
       wp_watchDescriptor wp = wp_watchDescriptor wq \<longrightarrow> p = q)"
proof (intro conjI allI impI)
  note inv = linux_invD [OF reachable_inv [OF assms]]
  show "wp_path wp = p" "watchRoots s (wp_watchDescriptor wp) = Some p" "convertible p"
    if "watchPoints s p = Some wp" for p wp
    using inv(1,2,5) that by auto
  show "\<exists>wp. watchPoints s p = Some wp \<and> wp_watchDescriptor wp = wd"
    if "watchRoots s wd = Some p" for wd p
    using inv(3) [OF that] .
  show "p = q" if "watchPoints s p = Some wp" "watchPoints s q = Some wq"
    "wp_watchDescriptor wp = wp_watchDescriptor wq" for p q wp wq
    using inv(2) [OF that(1)] inv(2) [OF that(2)] that(3) by simp
qed

theorem linux_reachable_consistent_witness:
  "\<exists>wp. watchPoints sample_server sample_path = Some wp \<and> wp_watchDescriptor wp = 1 \<and>
     watchRoots sample_server (wp_watchDescriptor wp) = Some sample_path"
proof -
  have "watchPoints sample_server sample_path = Some (new_watch_point sample_path 1 7)" by simp
  from conjunct1 [OF linux_reachable_consistent [OF sample_reachable], rule_format, OF this] this
  show ?thesis unfolding new_watch_point_def by auto
qed

lemma never_javaToUtf8 [never_rules]: "never_throws (StdException OutOfRange) (javaToUtf8String j x)"
  unfolding javaToUtf8String_def javaToUtf16String_def by (auto intro!: never_rules)

lemma never_logToJava [never_rules]:
  "never_throws (StdException OutOfRange) (logToJava j level fmt args)"
  unfolding logToJava_def Let_def getThreadEnv_def callMethod_def rethrowJavaException_def
    getJavaExceptionAndPrintStacktrace_def
  by (auto intro!: never_rules split: option.split)

lemma never_reports [never_rules]:
  "never_throws (StdException OutOfRange) (reportChangeEvent j t p)"
  "never_throws (StdException OutOfRange) (reportUnknownEvent j p)"
  "never_throws (StdException OutOfRange) (reportOverflow j p)"
  unfolding reportChangeEvent_def reportUnknownEvent_def reportOverflow_def callMethod_def
    getJavaExceptionAndPrintStacktrace_def
  by (auto intro!: never_rules)

lemma never_handleUnregisteredEvent:
  "never_throws (StdException OutOfRange) (handleUnregisteredEvent api ev)"
  unfolding handleUnregisteredEvent_def by (auto intro!: never_rules)

lemma never_reportEvent [never_rules]:
  "never_throws (StdException OutOfRange) (reportEvent api m name path)"
  unfolding reportEvent_def Let_def by (auto intro!: never_rules)

lemma handleRegisteredEvent_found:
  assumes "watchPoints s path = Some wp"
  shows "fst (handleRegisteredEvent api ev name path s) \<noteq> Inl (StdException OutOfRange)"
  unfolding handleRegisteredEvent_def
  by (subst run_get_bind, subst assms, subst option.case, rule never_throwsD)
     (intro never_rules; simp)

text \<open>
  C16: \<^verbatim>\<open>watchPoints.at(path)\<close> in the event handler never throws: in no reachable state, for no
  event, does \<^verbatim>\<open>handleEvent\<close> end with \<^verbatim>\<open>out_of_range\<close>.
\<close>

theorem handleEvent_never_out_of_range:
  assumes "linux_reachable api s"
  shows "fst (handleEvent_linux api ev s) \<noteq> Inl (StdException OutOfRange)"
proof -
  let ?log = "logToJava api TRACE_LEVEL
    ''Event mask: 0x%x for %s (wd = %d, cookie = 0x%x, len = %d)''
    [Hex (ev_mask ev), Str (event_name ev), Dec (ev_wd ev), Hex (ev_cookie ev), Dec (sint (ev_len ev))]"
  obtain r s1 where log: "?log s = (r, s1)" by fastforce
  have "framed ?log" by (intro framed_rules)
  then have "linux_inv s1"
    using keepsD [OF framed_keeps_linux_inv reachable_inv [OF assms]] log by (metis snd_conv)
  note root = linux_invD(3) [OF this]
  have "fst (bindE (getE watchRoots) (\<lambda>roots. case roots (ev_wd ev) of
      None \<Rightarrow> handleUnregisteredEvent api ev
    | Some path \<Rightarrow> handleRegisteredEvent api ev (event_name ev) path) s1) \<noteq> Inl (StdException OutOfRange)"
    using root never_throwsD [OF never_handleUnregisteredEvent, of api ev s1]
    by (auto simp: run_get_bind handleRegisteredEvent_found split: option.split dest!: root)
  moreover have "never_throws (StdException OutOfRange)
      (bindE (getE (\<lambda>s. iterationOrder api (dom (watchPoints s)) (world s)))
        (\<lambda>paths. forE paths (\<lambda>path. reportOverflow api path)))"
    by (auto intro!: never_rules)
  moreover have "r \<noteq> Inl (StdException OutOfRange)"
    using never_throwsD [OF never_logToJava, where s = s] log by (metis fst_conv)
  ultimately show ?thesis
    using log unfolding handleEvent_linux_def Let_def event_name_def [symmetric] run_thenE
    by (auto simp: run_ret dest: never_throwsD split: sum.split)
qed

theorem handleEvent_never_out_of_range_witness:
  "fst (handleEvent_linux quiet_linux (sample_event IN_CREATE) sample_server)
     \<noteq> Inl (StdException OutOfRange)"
  by (rule handleEvent_never_out_of_range [OF sample_reachable])

section \<open>Events\<close>

text \<open>
  C1: \<^verbatim>\<open>handleEvent\<close> does what the abstract server does on an event whose name is valid UTF-8: it
  reports exactly what the event means (nothing for an unmount, an overflow of every watched path
  once, nothing for a descriptor that is unknown, unregistered, cancelled or finished or when the
  server is ending, and otherwise the change with the path of the watch point and the name of the
  entry), throws nothing, and changes the view only on \<^verbatim>\<open>IN_IGNORED\<close>.
\<close>

theorem handleEvent_refines_view:
  assumes "jni_ok api" and "iteration_ok api" and "linux_reachable api s"
    and "bytes_to_utf16 (event_name ev) = Some name"
  shows "\<exists>order s'. set order = vw_paths (view s) \<and> distinct order \<and>
    handleEvent_linux api ev s = (Inr (), s') \<and>
    reports s' = reports s @ event_reports order ev name (view s) \<and>
    view s' = event_view ev (view s)"
  using does_handleEvent [OF assms(1,2) reachable_inv [OF assms(3)] assms(4)]
  unfolding does_def by metis

lemma sample_view: "vw_watches (view sample_server) = [1 \<mapsto> (sample_path, True)]"
  "vw_ending (view sample_server) = False"
  by (auto simp: view_def new_watch_point_def)

text \<open>Creating \<open>b\<close> in the watched directory is reported as \<open>/a/b\<close>, created.\<close>

theorem handleEvent_refines_view_witness:
  "\<exists>s'. handleEvent_linux quiet_linux (sample_event IN_CREATE) sample_server = (Inr (), s') \<and>
     reports s' = [ReportChangeEvent 0 [0x2F, 0x61, 0x2F, 0x62]] \<and>
     view s' = view sample_server"
proof -
  have "reports sample_server = []" by (simp add: reports_def)
  moreover have "event_reports order (sample_event IN_CREATE) [0x62] (view sample_server) =
      [ReportChangeEvent 0 [0x2F, 0x61, 0x2F, 0x62]]" for order
    by (simp add: event_reports_def sample_view sample_event_def inotify_flags IS_SET_def
        event_report_def joined_path_def sample_path_def)
  moreover have "event_view (sample_event IN_CREATE) (view sample_server) = view sample_server"
    by (simp add: event_view_def sample_event_def inotify_flags IS_SET_def)
  ultimately show ?thesis
    using handleEvent_refines_view [OF quiet_linux_ok sample_reachable, of "sample_event IN_CREATE" "[0x62]"]
    by auto
qed

text \<open>
  C2: The loop over a read buffer handles every event the kernel wrote into it, in order: on the
  bytes of a sequence of events with valid names it ends at the end of the buffer, counts all the
  events, and reports what the abstract server reports on that sequence.
\<close>

theorem processEvents_refines_view:
  assumes "jni_ok api" and "iteration_ok api" and "linux_reachable api s"
    and "\<forall>ev\<in>set evs. kernel_event ev \<and> bytes_to_utf16 (event_name ev) \<noteq> None"
  shows "\<exists>s' rs. processEvents api (concat (map event_bytes evs)) 0 0 s =
      Some (Inr (int (length evs)), s') \<and>
    view_run evs (view s) rs (view s') \<and> reports s' = reports s @ rs"
  using processEvents_view_run [OF assms(1,2) reachable_inv [OF assms(3)] assms(4), of "[]" 0]
  by simp

theorem processEvents_refines_view_witness:
  "\<exists>s' rs. processEvents quiet_linux
       (concat (map event_bytes [sample_event IN_CREATE, sample_event IN_IGNORED])) 0 0 sample_server =
      Some (Inr 2, s') \<and>
    view_run [sample_event IN_CREATE, sample_event IN_IGNORED] (view sample_server) rs (view s') \<and>
    reports s' = rs"
  using processEvents_refines_view [OF quiet_linux_ok sample_reachable,
      of "[sample_event IN_CREATE, sample_event IN_IGNORED]"]
  by (simp add: sample_event_kernel reports_def)

lemma unregisterPath_view:
  assumes inv: "linux_inv s" and wp: "watchPoints s p = Some wp" "wp_status wp = LISTENING"
    and un: "unregisterPath_linux api p s = (Inr b, s')"
  shows "vw_watches (view s') (wp_watchDescriptor wp) = None"
proof -
  have "watchRoots s' (wp_watchDescriptor wp) = None"
    using un
  proof (cases rule: unregisterPath_result)
    case unchanged
    then show ?thesis using wp by fastforce
  next
    case (removed wp')
    with wp show ?thesis by (simp add: unregistered_in_def tables_def)
  qed simp
  then show ?thesis by (simp add: view_def)
qed

lemma view_run_unwatched:
  "view_run evs V rs V' \<Longrightarrow> vw_watches V wd = None \<Longrightarrow>
   \<forall>ev\<in>set evs. ev_wd ev = wd \<and> \<not> IS_SET (ev_mask ev) IN_Q_OVERFLOW \<Longrightarrow> rs = []"
proof (induction rule: view_run.induct)
  case (no_event V)
  then show ?case by simp
next
  case (next_event ev name order V evs rs V')
  then have "vw_watches (event_view ev V) wd = None" by (simp add: event_view_def)
  with next_event show ?case by (simp add: event_reports_def)
qed

text \<open>
  C13: After \<^verbatim>\<open>unregisterPath\<close> has removed a watch point, also when the kernel had dropped the watch
  already, the events of its descriptor that are still in flight are swallowed: a buffer that holds
  only such events is handled to its end and nothing at all is reported.
\<close>

theorem unregistered_events_swallowed:
  assumes "jni_ok api" and "iteration_ok api" and "linux_reachable api s"
    and "watchPoints s p = Some wp" and "wp_status wp = LISTENING"
    and "unregisterPath_linux api p s = (Inr b, s1)"
    and "\<forall>ev\<in>set evs. kernel_event ev \<and> bytes_to_utf16 (event_name ev) \<noteq> None \<and>
      ev_wd ev = wp_watchDescriptor wp \<and> \<not> IS_SET (ev_mask ev) IN_Q_OVERFLOW"
  shows "\<exists>s'. processEvents api (concat (map event_bytes evs)) 0 0 s1 =
      Some (Inr (int (length evs)), s') \<and> reports s' = reports s1"
proof -
  note inv = reachable_inv [OF assms(3)]
  have inv1: "linux_inv s1" by (rule keepsD' [OF unregisterPath_keeps_inv inv assms(6)])
  have "\<forall>ev\<in>set evs. kernel_event ev \<and> bytes_to_utf16 (event_name ev) \<noteq> None" using assms(7) by blast
  from processEvents_view_run [OF assms(1,2) inv1 this, of "[]" 0] obtain s' rs where
    s': "processEvents api (concat (map event_bytes evs)) 0 0 s1 = Some (Inr (int (length evs)), s')"
    "view_run evs (view s1) rs (view s')" "reports s' = reports s1 @ rs" by auto
  have "rs = []"
    using view_run_unwatched [OF s'(2) unregisterPath_view [OF inv assms(4-6)]] assms(7) by blast
  with s' show ?thesis by simp
qed

definition sample_unregistered :: "nat linux_server" where
  "sample_unregistered = snd (unregisterPath_linux quiet_linux sample_path sample_server)"

lemma unregister_sample:
  "unregisterPath_linux quiet_linux sample_path sample_server = (Inr True, sample_unregistered)"
  by (simp add: sample_unregistered_def unregisterPath_linux_def cancel_def exec_simps syscall_def
      set_watch_point_def new_watch_point_def)

theorem unregistered_events_swallowed_witness:
  "\<exists>s'. processEvents quiet_linux
       (concat (map event_bytes [sample_event IN_MODIFY, sample_event IN_IGNORED])) 0 0
       sample_unregistered = Some (Inr 2, s') \<and> reports s' = reports sample_unregistered"
proof -
  have wp: "watchPoints sample_server sample_path = Some (new_watch_point sample_path 1 7)" by simp
  have evs: "\<forall>ev\<in>set [sample_event IN_MODIFY, sample_event IN_IGNORED].
      kernel_event ev \<and> bytes_to_utf16 (event_name ev) \<noteq> None \<and>
      ev_wd ev = wp_watchDescriptor (new_watch_point sample_path 1 7) \<and>
      \<not> IS_SET (ev_mask ev) IN_Q_OVERFLOW"
    by (simp add: sample_event_kernel)
       (simp add: sample_event_def new_watch_point_def inotify_flags IS_SET_def)
  have "wp_status (new_watch_point sample_path 1 7) = LISTENING" by (simp add: new_watch_point_def)
  from unregistered_events_swallowed [OF quiet_linux_ok sample_reachable wp this unregister_sample evs]
  show ?thesis by simp
qed

text \<open>
  C27: A file whose name is not valid UTF-8 costs the events behind it: when the handler meets its
  event for a watch point that is listening, the conversion throws, the rest of the buffer is
  dropped whatever it holds, and neither this event nor any later one of the buffer is reported.
\<close>

theorem invalid_name_drops_buffer:
  assumes jni: "jni_ok api" and "linux_reachable api s"
    and wp: "vw_watches (view s) (ev_wd ev) = Some (path, True)" and "\<not> vw_ending (view s)"
    and ev: "kernel_event ev" and bad: "bytes_to_utf16 (event_name ev) = None"
    and mask: "\<not> IS_SET (ev_mask ev) IN_UNMOUNT" "\<not> IS_SET (ev_mask ev) IN_Q_OVERFLOW"
      "\<not> IS_SET (ev_mask ev) IN_IGNORED"
  shows "\<exists>s'. processBuffer api (event_bytes ev @ rest) s = Some (Inl (StdException RangeError), s') \<and>
    reports s' = reports s \<and> view s' = view s"
proof -
  have bad_event: "\<exists>s'. handleEvent_linux api ev s1 = (Inl (StdException RangeError), s') \<and>
      reports s' = reports s \<and> view s' = view s"
    if inv: "linux_inv s1" and s1: "reports s1 = reports s" "view s1 = view s" for s1
  proof -
    obtain wp where p: "watchPoints s1 path = Some wp" "wp_watchDescriptor wp = ev_wd ev"
      "wp_status wp = LISTENING"
      using wp s1(2) view_watches [OF inv, of "ev_wd ev" path True] by auto
    have "watchRoots s1 (ev_wd ev) = Some path" using linux_invD(2) [OF inv p(1)] p(2) by simp
    moreover have "\<not> shouldTerminate s1" using assms(4) s1(2) by (auto simp: view_def)
    ultimately show ?thesis
      using p mask bad s1
      by (simp add: handleEvent_linux_def event_name_def [symmetric] Let_def run_thenE run_bindE
          run_getE run_liftE logToJava_ok [OF jni] handleRegisteredEvent_def reportEvent_def
          utf8ToUtf16String_def)
  qed
  let ?buf = "event_bytes ev @ rest"
  let ?s1 = "after_call api (LogMessage (log_level_value TRACE_LEVEL) (take (LOG_BUFFER_SIZE - 1)
    (format_text ''Processing %d bytes worth of events'' [Dec (int (length ?buf))]))) s"
  have start: "thenE (getThreadEnv api)
      (logToJava api TRACE_LEVEL ''Processing %d bytes worth of events'' [Dec (int (length ?buf))]) s =
      (Inr (), ?s1)"
    by (simp add: run_thenE getThreadEnv_ok [OF jni] logToJava_ok [OF jni])
  from bad_event [of ?s1] reachable_inv [OF assms(2)] obtain s' where
    "handleEvent_linux api ev ?s1 = (Inl (StdException RangeError), s')"
    "reports s' = reports s" "view s' = view s" by auto
  with processEvents_step [OF ev, of api "[]" rest 0 ?s1] start show ?thesis
    by (simp add: processBuffer_def)
qed

text \<open>An event for an entry whose name is the single byte \<^verbatim>\<open>0xFF\<close>.\<close>

definition bad_event :: inotify_event where
  "bad_event = \<lparr>ev_wd = 1, ev_mask = IN_CREATE, ev_cookie = 0, ev_len = 4,
     ev_name = CHR 0xFF # replicate 3 CHR 0x00\<rparr>"

lemma bad_event_name: "event_name bad_event = [CHR 0xFF]" "bytes_to_utf16 [CHR 0xFF] = None"
proof -
  show "event_name bad_event = [CHR 0xFF]"
    by (simp add: event_name_def bad_event_def c_str_def numeral_3_eq_3)
  have "(of_char (CHR 0xFF) :: nat) = 255" by simp
  then show "bytes_to_utf16 [CHR 0xFF] = None"
    by (simp add: bytes_to_utf16_def c_str_def from_utf8.simps)
qed

theorem invalid_name_drops_buffer_witness:
  "\<exists>s'. processBuffer quiet_linux (event_bytes bad_event @ event_bytes (sample_event IN_CREATE))
       sample_server = (Some (Inl (StdException RangeError), s')) \<and> reports s' = []"
proof -
  have "\<exists>s'. processBuffer quiet_linux (event_bytes bad_event @ event_bytes (sample_event IN_CREATE))
      sample_server = (Some (Inl (StdException RangeError), s')) \<and>
      reports s' = reports sample_server \<and> view s' = view sample_server"
    by (rule invalid_name_drops_buffer [OF quiet_linux_ok(1) sample_reachable])
       (simp_all add: sample_view bad_event_name, simp_all add: bad_event_def kernel_event_def
         inotify_flags IS_SET_def)
  then show ?thesis by (auto simp: reports_def)
qed

section \<open>Registering and unregistering\<close>

text \<open>
  C17: Registering a batch: if it returns, the batch had no duplicates and no path watched before,
  and exactly its paths are watched in addition; if it throws, the paths before the one that
  failed stay watched, and nothing else changes.
\<close>

theorem registerPaths_batch:
  assumes "linux_reachable api s" and "registerPaths_linux api paths s = (r, s')"
  shows "(r = Inr () \<longrightarrow> watched_linux s' = watched_linux s \<union> set paths \<and> distinct paths \<and>
            set paths \<inter> watched_linux s = {}) \<and>
    (\<forall>e. r = Inl e \<longrightarrow>
       (\<exists>k < length paths. watched_linux s' = watched_linux s \<union> set (take k paths)))"
  using assms(2) linux_registry.register_batch_ok [OF reachable_inv [OF assms(1)]]
    linux_registry.register_batch_err [OF reachable_inv [OF assms(1)]]
  unfolding registerPaths_linux_def by blast

lemma sample_watched: "watched_linux sample_server = {sample_path}"
  by (simp add: watched_linux_def)

theorem registerPaths_batch_witness:
  "\<exists>e s'. registerPaths_linux quiet_linux [sample_path] sample_server = (Inl e, s') \<and>
     watched_linux s' = {sample_path}"
proof -
  obtain e s' where r: "registerPaths_linux quiet_linux [sample_path] sample_server = (Inl e, s')"
    by (simp add: registerPaths_linux_def registerPath_linux_def exec_simps)
  from registerPaths_batch [OF sample_reachable r] have "watched_linux s' = {sample_path}"
    by (auto simp: sample_watched)
  with r show ?thesis by blast
qed

text \<open>
  C18: Unregistering a batch: whatever happens, no path outside the batch is touched and nothing is
  watched that was not before; if the answer is \<^verbatim>\<open>true\<close>, all paths of the batch were watched, each
  is named once, and none is watched afterwards.
\<close>

theorem unregisterPaths_batch:
  assumes "linux_reachable api s" and "unregisterPaths_linux api paths s = (r, s')"
  shows "watched_linux s - set paths \<subseteq> watched_linux s' \<and> watched_linux s' \<subseteq> watched_linux s \<and>
    (r = Inr True \<longrightarrow> watched_linux s' = watched_linux s - set paths \<and>
       set paths \<subseteq> watched_linux s \<and> distinct paths)"
  using assms(2) linux_registry.unregister_batch_bounds [OF reachable_inv [OF assms(1)]]
    linux_registry.unregister_batch_true [OF reachable_inv [OF assms(1)]]
    linux_registry.unregister_batch_true_watched [OF reachable_inv [OF assms(1)]]
  unfolding unregisterPaths_linux_def by blast

theorem unregisterPaths_batch_witness:
  "\<exists>s'. unregisterPaths_linux quiet_linux [sample_path] sample_server = (Inr True, s') \<and>
     watched_linux s' = {}"
proof -
  have "unregisterPaths_linux quiet_linux [sample_path] sample_server = (Inr True, sample_unregistered)"
    by (simp add: unregisterPaths_linux_def run_bindE run_ret unregister_sample)
  with unregisterPaths_batch [OF sample_reachable this] show ?thesis
    by (auto simp: sample_watched)
qed

text \<open>
  C20: When the kernel answers a registration with a descriptor that another watched path holds,
  because both lead to the same directory, the registration is refused and the tables are left
  as they were: the watch point of the other path is not overwritten.
\<close>

theorem registerPath_same_directory:
  assumes "watchPoints s path = None" and "utf16_to_bytes path = Some p8"
    and "lstatInode api (c_str p8) (world s) = (Inr inode, w1)"
    and "inotifyAddWatch api (c_str p8) EVENT_MASK w1 = (Inr wd, w2)"
    and "watchRoots s wd = Some other"
  shows "registerPath_linux api path s =
    (Inl (FileWatcherException (''Already watching path: '' @ p8)), s\<lparr>world := w2\<rparr>)"
  using assms
  by (simp add: registerPath_linux_def run_bindE run_getE run_raise run_liftE syscall_def
      FileWatcherException_path_def createMessage_path_def utf16ToUtf8String_def)

theorem registerPath_same_directory_witness:
  "registerPath_linux (quiet_linux\<lparr>inotifyAddWatch := \<lambda>_ _ w. (Inr 1, w)\<rparr>) [0x2F, 0x63] sample_server =
    (Inl (FileWatcherException ''Already watching path: /c''), sample_server\<lparr>world := 1\<rparr>)"
  using registerPath_same_directory [of sample_server "[0x2F, 0x63]" "''/c''"
      "quiet_linux\<lparr>inotifyAddWatch := \<lambda>_ _ w. (Inr 1, w)\<rparr>" 7 1 1 1 sample_path]
  by (simp add: sample_path_def utf16_to_bytes_def utf8_unit_def high_surrogate_def low_surrogate_def
      char_of_def bit_0)

text \<open>
  C19: When the user's limit of inotify watches is exhausted (\<^verbatim>\<open>ENOSPC\<close>), \<^verbatim>\<open>startWatching\<close> returns to
  Java with an \<^verbatim>\<open>InotifyWatchesLimitTooLowException\<close> pending: the exception is thrown for
  Java by the server, and the entry point's handler does not replace it with a generic one. The
  path is not watched.
\<close>

theorem watches_limit_reaches_java:
  assumes "jni_ok api" and "\<forall>c m w. throwNew api c m w = 0" and "\<forall>p w. stringCritical api p w"
    and "watchPoints s path = None" and "utf16_to_bytes path = Some p8"
    and "lstatInode api (c_str p8) (world s) = (Inr inode, w1)"
    and "inotifyAddWatch api (c_str p8) EVENT_MASK w1 = (Inl ENOSPC, w2)"
  shows "startWatching0 api (linux_ops api) (Some a) [path] s =
    (Inr (), s\<lparr>world := w2, errno := ENOSPC,
       pending := Some (NativeThrown WATCHES_LIMIT_EXCEPTION ''Inotify watches limit too low'')\<rparr>)"
  using assms
  by (simp add: startWatching0_def linux_ops_def registerPaths_linux_def registerPath_linux_def
      getServer_def exec_simps javaToUtf16String_def syscall_def
      utf16ToUtf8String_def getThreadEnv_ok rethrowAsJavaException_class_def what_def)

theorem watches_limit_reaches_java_witness:
  "startWatching0 (quiet_linux\<lparr>inotifyAddWatch := \<lambda>_ _ w. (Inl ENOSPC, w)\<rparr>)
     (linux_ops (quiet_linux\<lparr>inotifyAddWatch := \<lambda>_ _ w. (Inl ENOSPC, w)\<rparr>)) (Some 1) [sample_path]
     (init_linux_server 0) =
   (Inr (), (init_linux_server 0)\<lparr>world := 0, errno := ENOSPC,
     pending := Some (NativeThrown WATCHES_LIMIT_EXCEPTION ''Inotify watches limit too low'')\<rparr>)"
  by (rule watches_limit_reaches_java [where ?p8.0 = "''/a''" and inode = 7 and ?w1.0 = 0])
     (simp_all add: jni_ok_def init_linux_server_def)

end
