(* ===== verification/LinuxMoved.thy ===== *)
theory LinuxMoved
  imports LinuxProps
begin

text \<open>
  Dropping the watch points of directories that have been moved:
  \<^verbatim>\<open>Server::stopWatchingMovedPaths\<close>, on a file system that does not change meanwhile.
\<close>

section \<open>Moved paths\<close>

text \<open>The answers of \<^verbatim>\<open>lstat\<close> as a function \<open>st\<close> of the path. A path counts as moved where it is
  not watched, its watch point is cancelled, it cannot be examined any more, or it leads to another
  inode than when it was registered.\<close>

definition lstat_fixed :: "'w linux_api \<Rightarrow> (string \<Rightarrow> int + 64 word) \<Rightarrow> bool" where
  "lstat_fixed api st \<longleftrightarrow> (\<forall>p w. fst (lstatInode api p w) = st p)"

definition moved :: "(string \<Rightarrow> int + 64 word) \<Rightarrow> (u16string \<rightharpoonup> watch_point) \<Rightarrow> u16string \<Rightarrow> bool" where
  "moved st points p =
     (case points p of
        None \<Rightarrow> True
      | Some wp \<Rightarrow> wp_status wp = CANCELLED \<or>
          st (c_str (the (utf16_to_bytes p))) \<noteq> Inr (wp_inode wp))"

definition cancel_point :: "u16string \<Rightarrow> (u16string \<rightharpoonup> watch_point) \<Rightarrow> (u16string \<rightharpoonup> watch_point)" where
  "cancel_point p points =
     (case points p of None \<Rightarrow> points | Some wp \<Rightarrow> points(p \<mapsto> wp\<lparr>wp_status := CANCELLED\<rparr>))"

lemma cancel_point_apply:
  "cancel_point p points q =
     (if q = p then map_option (\<lambda>wp. wp\<lparr>wp_status := CANCELLED\<rparr>) (points q) else points q)"
  by (simp add: cancel_point_def split: option.split)

lemma moved_cancel_point: "moved st points p \<Longrightarrow> moved st (cancel_point p points) q = moved st points q"
  by (auto simp: moved_def cancel_point_apply split: option.splits)

lemma cancel_point_cancelled:
  "points p = Some wp \<Longrightarrow> wp_status wp = CANCELLED \<Longrightarrow> cancel_point p points = points"
  by (cases wp) (simp add: cancel_point_def fun_upd_idem)

text \<open>What the kernel documents for \<^verbatim>\<open>inotify_rm_watch\<close> on the server's own descriptor, and a list
  that accepts elements.\<close>

definition rm_watch_ok :: "'w linux_api \<Rightarrow> bool" where
  "rm_watch_ok api \<longleftrightarrow> (\<forall>wd w. fst (inotifyRmWatch api wd w) \<in> {Inr (), Inl EINVAL})"

definition list_ok :: "'w linux_api \<Rightarrow> bool" where
  "list_ok api \<longleftrightarrow> (\<forall>p w. fst (callJava api (ListAdd p) w) = None) \<and> (\<forall>p w. stringCritical api p w)"

section \<open>One path\<close>

lemma addToList_ok:
  "list_ok api \<Longrightarrow> addToList api p s = (Inr (), after_call api (ListAdd p) s)"
  by (simp add: addToList_def callMethod_def throwNativeExceptionWhenJavaExceptionOccurred_def
      exec_simps list_ok_def after_call_def)

lemma cancel_ok:
  assumes "jni_ok api" and "rm_watch_ok api" and "convertible (wp_path wp)" and "wp_status wp = LISTENING"
  obtains r s' where "cancel api p wp s = (Inr r, s')" and "reports s' = reports s"
    and "watchPoints s' = (watchPoints s)(p \<mapsto> wp\<lparr>wp_status := CANCELLED\<rparr>)"
proof -
  obtain p8 where p8: "utf16_to_bytes (wp_path wp) = Some p8"
    using assms(3) by (auto simp: convertible_def)
  obtain w' where "inotifyRmWatch api (wp_watchDescriptor wp) (world s) = (Inr (), w') \<or>
      inotifyRmWatch api (wp_watchDescriptor wp) (world s) = (Inl EINVAL, w')"
    using assms(2) unfolding rm_watch_ok_def
    by (metis insertE prod.collapse singletonD)
  with that assms(4) p8 show thesis
    by (auto simp: cancel_def run_thenE run_bindE run_getE run_liftE run_ret set_watch_point_def
        run_modifyE syscall_def logToJava_ok [OF assms(1)] utf16ToUtf8String_def)
       (auto simp: reports_def)
qed

lemma stopWatchingMovedPath_ok:
  assumes jni: "jni_ok api" "list_ok api" and rm: "rm_watch_ok api" and st: "lstat_fixed api st"
    and inv: "linux_inv s"
  obtains s' where "stopWatchingMovedPath api p s = (Inr (), s')"
    and "reports s' = reports s @ (if moved st (watchPoints s) p then [ListAdd p] else [])"
    and "watchPoints s' =
      (if moved st (watchPoints s) p then cancel_point p (watchPoints s) else watchPoints s)"
proof (cases "watchPoints s p")
  case None
  show thesis
    by (rule that [of "after_call api (ListAdd p) s"])
       (use None jni(2) in \<open>simp_all add: stopWatchingMovedPath_def javaToUtf16String_def exec_simps
          list_ok_def addToList_ok [OF jni(2)] moved_def cancel_point_def\<close>)
next
  case (Some wp)
  show thesis
  proof (cases "wp_status wp")
    case CANCELLED
    show thesis
      by (rule that [of "after_call api (ListAdd p) s"])
         (use Some CANCELLED jni(2) in \<open>simp_all add: stopWatchingMovedPath_def javaToUtf16String_def
            exec_simps list_ok_def addToList_ok [OF jni(2)] moved_def cancel_point_cancelled\<close>)
  next
    case LISTENING
    have path: "wp_path wp = p" "convertible p"
      using linux_invD(1,5) [OF inv Some] by simp_all
    then obtain p8 where p8: "utf16_to_bytes p = Some p8" by (auto simp: convertible_def)
    obtain r w1 where w1: "lstatInode api (c_str p8) (world s) = (r, w1)" by fastforce
    then have r: "st (c_str p8) = r" using st unfolding lstat_fixed_def by (metis fst_conv)
    obtain q s1 where q: "syscall (lstatInode api (c_str p8)) s = (Inr q, s1)"
      and s1: "reports s1 = reports s" "watchPoints s1 = watchPoints s"
      and q_iff: "q = Some (wp_inode wp) \<longleftrightarrow> r = Inr (wp_inode wp)"
      using w1 by (cases r) (auto simp: syscall_def reports_def)
    have head: "stopWatchingMovedPath api p s =
        (if q = Some (wp_inode wp) then ret () else
           thenE (addToList api p) (bindE (cancel api p wp) (\<lambda>_. ret ()))) s1"
      using Some LISTENING jni(2) path p8 q
      by (simp add: stopWatchingMovedPath_def javaToUtf16String_def run_bindE run_getE run_ret
          run_liftE list_ok_def utf16ToUtf8String_def)
    have moved: "moved st (watchPoints s) p \<longleftrightarrow> q \<noteq> Some (wp_inode wp)"
      using Some LISTENING p8 r q_iff by (simp add: moved_def)
    show thesis
    proof (cases "q = Some (wp_inode wp)")
      case True
      with that [of s1] head moved s1 show thesis by (simp add: run_ret)
    next
      case False
      let ?s2 = "after_call api (ListAdd p) s1"
      obtain c s' where "cancel api p wp ?s2 = (Inr c, s')" "reports s' = reports ?s2"
        "watchPoints s' = (watchPoints ?s2)(p \<mapsto> wp\<lparr>wp_status := CANCELLED\<rparr>)"
        using cancel_ok [OF jni(1) rm, of wp p ?s2] path LISTENING by auto
      with that [of s'] head moved s1 False Some show thesis
        by (simp add: run_thenE run_bindE run_ret addToList_ok [OF jni(2)] cancel_point_def)
    qed
  qed
qed

section \<open>A list of paths\<close>

lemma stopWatchingMovedPaths_run:
  assumes jni: "jni_ok api" "list_ok api" and rm: "rm_watch_ok api" and st: "lstat_fixed api st"
    and "linux_inv s" and "\<forall>q. moved st (watchPoints s) q = M q"
  shows "\<exists>s'. forE paths (stopWatchingMovedPath api) s = (Inr (), s') \<and>
    reports s' = reports s @ map ListAdd (filter M paths) \<and>
    (\<forall>q. watchPoints s' q = (if q \<in> set paths \<and> M q
       then map_option (\<lambda>wp. wp\<lparr>wp_status := CANCELLED\<rparr>) (watchPoints s q) else watchPoints s q))"
  using assms(5,6)
proof (induction paths arbitrary: s)
  case Nil
  then show ?case by (simp add: run_ret)
next
  case (Cons p paths)
  have M: "moved st (watchPoints s) p = M p" using Cons.prems(2) by blast
  obtain s1 where s1: "stopWatchingMovedPath api p s = (Inr (), s1)"
    "reports s1 = reports s @ (if M p then [ListAdd p] else [])"
    "watchPoints s1 = (if M p then cancel_point p (watchPoints s) else watchPoints s)"
    using stopWatchingMovedPath_ok [OF jni rm st Cons.prems(1), of p, unfolded M] by blast
  have inv1: "linux_inv s1" by (rule keepsD' [OF stopWatchingMovedPath_keeps_inv Cons.prems(1) s1(1)])
  have "\<forall>q. moved st (watchPoints s1) q = M q"
    using Cons.prems(2) s1(3) by (metis moved_cancel_point)
  from Cons.IH [OF inv1 this] obtain s' where s': "forE paths (stopWatchingMovedPath api) s1 = (Inr (), s')"
    "reports s' = reports s1 @ map ListAdd (filter M paths)"
    "\<forall>q. watchPoints s' q = (if q \<in> set paths \<and> M q
       then map_option (\<lambda>wp. wp\<lparr>wp_status := CANCELLED\<rparr>) (watchPoints s1 q) else watchPoints s1 q)"
    by blast
  have "watchPoints s' q = (if q \<in> set (p # paths) \<and> M q
      then map_option (\<lambda>wp. wp\<lparr>wp_status := CANCELLED\<rparr>) (watchPoints s q) else watchPoints s q)" for q
    using s1(3) by (cases "q = p"; cases "M p"; cases "watchPoints s q")
      (simp_all add: s'(3) cancel_point_apply)
  with s1 s'(1,2) show ?case by (simp add: run_thenE)
qed

text \<open>
  C9: On a file system that does not change meanwhile, \<^verbatim>\<open>stopWatchingMovedPaths\<close> adds to the list
  of dropped paths exactly the given paths that are not watched, cancelled, no longer accessible or
  that lead to another inode than at registration, in their order; it cancels the watch points of
  just these paths, keeps the others as they are, and removes no path from the table.
\<close>

theorem stopWatchingMovedPaths_drops_moved:
  assumes "jni_ok api" and "list_ok api" and "rm_watch_ok api" and "lstat_fixed api st"
    and "linux_reachable earlier s"
  shows "\<exists>s'. stopWatchingMovedPaths0_linux api (Some a) paths s = (Inr (), s') \<and>
    reports s' = reports s @ map ListAdd (filter (moved st (watchPoints s)) paths) \<and>
    (\<forall>q. watchPoints s' q =
       (if q \<in> set paths \<and> moved st (watchPoints s) q
        then map_option (\<lambda>wp. wp\<lparr>wp_status := CANCELLED\<rparr>) (watchPoints s q)
        else watchPoints s q))"
proof -
  have "\<forall>q. moved st (watchPoints s) q = moved st (watchPoints s) q" by simp
  from stopWatchingMovedPaths_run [OF assms(1-4) reachable_inv [OF assms(5)] this, of paths]
  show ?thesis
    by (auto simp: stopWatchingMovedPaths0_linux_def stopWatchingMovedPaths_linux_def getServer_def
        run_tryE run_thenE run_ret getThreadEnv_ok [OF assms(1)])
qed

text \<open>The directory behind \<open>/a\<close> has inode 8 now; \<open>/c\<close> was never watched.\<close>

theorem stopWatchingMovedPaths_drops_moved_witness:
  "\<exists>s'. stopWatchingMovedPaths0_linux (quiet_linux\<lparr>lstatInode := \<lambda>_ w. (Inr 8, w)\<rparr>) (Some 1)
       [sample_path, [0x2F, 0x63]] sample_server = (Inr (), s') \<and>
     reports s' = [ListAdd sample_path, ListAdd [0x2F, 0x63]] \<and>
     map_option wp_status (watchPoints s' sample_path) = Some CANCELLED"
proof -
  let ?api = "quiet_linux\<lparr>lstatInode := \<lambda>_ w. (Inr 8, w)\<rparr>"
  let ?moved = "moved (\<lambda>_. Inr 8) (watchPoints sample_server)"
  have api: "jni_ok ?api" "list_ok ?api" "rm_watch_ok ?api" "lstat_fixed ?api (\<lambda>_. Inr 8)"
    by (simp_all add: jni_ok_def list_ok_def rm_watch_ok_def lstat_fixed_def)
  have m: "?moved sample_path" "?moved [0x2F, 0x63]"
    by (simp_all add: moved_def new_watch_point_def sample_path_def)
  from stopWatchingMovedPaths_drops_moved [OF api sample_reachable, of 1 "[sample_path, [0x2F, 0x63]]"]
  obtain s' where s': "stopWatchingMovedPaths0_linux ?api (Some 1) [sample_path, [0x2F, 0x63]] sample_server
      = (Inr (), s')"
    "reports s' = reports sample_server @ map ListAdd (filter ?moved [sample_path, [0x2F, 0x63]])"
    "\<forall>q. watchPoints s' q = (if q \<in> set [sample_path, [0x2F, 0x63]] \<and> ?moved q
        then map_option (\<lambda>wp. wp\<lparr>wp_status := CANCELLED\<rparr>) (watchPoints sample_server q)
        else watchPoints sample_server q)" by blast
  have "map_option wp_status (watchPoints s' sample_path) = Some CANCELLED"
    using s'(3) m(1) by simp
  with s'(1,2) m show ?thesis by (intro exI [of _ s']) (simp add: reports_def)
qed

end
