(* ===== verification/LinuxTrace.thy ===== *)
theory LinuxTrace
  imports LinuxMoved
begin

text \<open>
  The run loop of the Linux server as a protocol: labelled steps, which are the calls of the loop with
  their results, and an automaton that says which step may come next and how the loop ends. Every run
  of \<open>runLoop_linux\<close> is a trace of steps that the automaton accepts.
\<close>

section \<open>Steps of the loop\<close>

text \<open>\<open>Poll\<close> has the error number or the two flags, \<open>ReadResult\<close> the bytes, if any, and the error
  number then.\<close>

datatype loop_label =
    Poll "int + bool \<times> bool"
  | Consume "exn + unit"
  | Announce "32 word"
  | ReadResult "string option" int
  | Handle string "exn + unit"
  | Report exn "exn + unit"

inductive loop_step :: "'w linux_api \<Rightarrow> 'w linux_server \<Rightarrow> loop_label \<Rightarrow> 'w linux_server \<Rightarrow> bool"
  for api where
  poll_fails: "syscall (pollFds api FOREVER) s = (Inr None, s1) \<Longrightarrow>
    loop_step api s (Poll (Inl (errno s1))) s1"
| poll: "syscall (pollFds api FOREVER) s = (Inr (Some flags), s1) \<Longrightarrow>
    loop_step api s (Poll (Inr flags)) s1"
| consume: "consume_ShutdownEvent api s = (Inr (), s1) \<Longrightarrow>
    loop_step api s (Consume (Inr ())) (s1\<lparr>shouldTerminate := True\<rparr>)"
| consume_fails: "consume_ShutdownEvent api s = (Inl e, s1) \<Longrightarrow> loop_step api s (Consume (Inl e)) s1"
| announce: "fionread api (world s) = (n, w) \<Longrightarrow> loop_step api s (Announce n) (s\<lparr>world := w\<rparr>)"
| read: "syscall (readInotify api EVENT_BUFFER_SIZE) s = (Inr result, s1) \<Longrightarrow>
    loop_step api s (ReadResult result (errno s1)) s1"
| handle: "processBuffer api buf s = Some (r, s1) \<Longrightarrow> loop_step api s (Handle buf r) s1"
| report: "thenE (getThreadEnv api) (reportFailure api e) s = (r, s1) \<Longrightarrow> loop_step api s (Report e r) s1"

section \<open>The protocol\<close>

text \<open>\<open>Idle\<close>: about to poll. \<open>Trouble\<close>: a failure that has to be reported. \<open>Over\<close>: the loop has ended,
  normally or with an exception.\<close>

datatype phase =
    Idle | ShuttingDown | Waiting | Reading "32 word" | Handling "32 word" string | Trouble exn
  | Over "exn + unit"

definition resume :: "32 word \<Rightarrow> phase" where
  "resume n = (if n = 0 then Idle else Reading n)"

fun advance :: "phase \<Rightarrow> loop_label \<Rightarrow> phase option" where
  "advance Idle (Poll (Inl err)) =
     Some (Over (Inl (FileWatcherException_code ''Couldn't poll for events'' err)))"
| "advance Idle (Poll (Inr (shutdown, inotify))) =
     Some (if shutdown then ShuttingDown else if inotify then Waiting else Idle)"
| "advance ShuttingDown (Consume r) = Some (Over r)"
| "advance Waiting (Announce n) = Some (resume n)"
| "advance (Reading n) (ReadResult None err) =
     Some (if err = EAGAIN then Idle
           else Trouble (FileWatcherException_code ''Couldn't read from inotify'' err))"
| "advance (Reading n) (ReadResult (Some buf) err) =
     Some (if buf = [] then Trouble (FileWatcherException_code ''EOF reading from inotify'' err)
           else Handling (n - of_nat (length buf)) buf)"
| "advance (Handling n buf) (Handle buf' r) =
     (if buf' \<noteq> buf then None
      else case r of Inl e \<Rightarrow> Some (Trouble e) | Inr _ \<Rightarrow> Some (resume n))"
| "advance (Trouble e) (Report e' r) =
     (if e' \<noteq> e then None
      else case r of Inl e2 \<Rightarrow> Some (Over (Inl e2)) | Inr _ \<Rightarrow> Some Idle)"
| "advance _ _ = None"

inductive traced :: "'w linux_api \<Rightarrow> 'w linux_server \<Rightarrow> phase \<Rightarrow> loop_label list \<Rightarrow>
    'w linux_server \<Rightarrow> phase \<Rightarrow> bool" for api where
  stop: "traced api s p [] s p"
| go: "loop_step api s l s1 \<Longrightarrow> advance p l = Some p1 \<Longrightarrow> traced api s1 p1 ls s' q \<Longrightarrow>
    traced api s p (l # ls) s' q"

lemma traced_append: "traced api s p ls s1 p1 \<Longrightarrow> traced api s1 p1 ls' s' q \<Longrightarrow> traced api s p (ls @ ls') s' q"
  by (induction rule: traced.induct) (auto intro: traced.go)

lemma traced_one: "loop_step api s l s1 \<Longrightarrow> advance p l = Some p1 \<Longrightarrow> traced api s p [l] s1 p1"
  by (auto intro: traced.intros)

section \<open>What the protocol guarantees\<close>

fun buffers_read :: "loop_label list \<Rightarrow> string list" where
  "buffers_read [] = []"
| "buffers_read (l # ls) =
     (case l of ReadResult (Some buf) err \<Rightarrow> if buf = [] then [] else [buf] | _ \<Rightarrow> []) @ buffers_read ls"

fun buffers_handled :: "loop_label list \<Rightarrow> string list" where
  "buffers_handled [] = []"
| "buffers_handled (l # ls) = (case l of Handle buf r \<Rightarrow> [buf] | _ \<Rightarrow> []) @ buffers_handled ls"

text \<open>The failures inside a round: of reading, and of handling what was read.\<close>

fun failures :: "loop_label list \<Rightarrow> exn list" where
  "failures [] = []"
| "failures (l # ls) =
     (case l of
        ReadResult None err \<Rightarrow>
          if err = EAGAIN then [] else [FileWatcherException_code ''Couldn't read from inotify'' err]
      | ReadResult (Some buf) err \<Rightarrow>
          if buf = [] then [FileWatcherException_code ''EOF reading from inotify'' err] else []
      | Handle buf (Inl e) \<Rightarrow> [e]
      | _ \<Rightarrow> []) @ failures ls"

fun failures_reported :: "loop_label list \<Rightarrow> exn list" where
  "failures_reported [] = []"
| "failures_reported (l # ls) = (case l of Report e r \<Rightarrow> [e] | _ \<Rightarrow> []) @ failures_reported ls"

text \<open>What is still to be done in a phase.\<close>

primrec to_handle :: "phase \<Rightarrow> string list" where
  "to_handle Idle = []" | "to_handle ShuttingDown = []" | "to_handle Waiting = []"
| "to_handle (Reading n) = []" | "to_handle (Handling n buf) = [buf]" | "to_handle (Trouble e) = []"
| "to_handle (Over r) = []"

primrec to_report :: "phase \<Rightarrow> exn list" where
  "to_report Idle = []" | "to_report ShuttingDown = []" | "to_report Waiting = []"
| "to_report (Reading n) = []" | "to_report (Handling n buf) = []" | "to_report (Trouble e) = [e]"
| "to_report (Over r) = []"

lemma advance_accounts:
  "advance p l = Some q \<Longrightarrow>
    to_handle p @ buffers_read [l] = buffers_handled [l] @ to_handle q \<and>
    to_report p @ failures [l] = failures_reported [l] @ to_report q"
  by (induction p l rule: advance.induct) (auto simp: resume_def split: if_splits sum.splits)

lemma traced_accounts:
  "traced api s p ls s' q \<Longrightarrow>
    to_handle p @ buffers_read ls = buffers_handled ls @ to_handle q \<and>
    to_report p @ failures ls = failures_reported ls @ to_report q"
proof (induction rule: traced.induct)
  case (go s l s1 p p1 ls s' q)
  from advance_accounts [OF go(2)]
  have now: "to_handle p @ buffers_read [l] = buffers_handled [l] @ to_handle p1"
    "to_report p @ failures [l] = failures_reported [l] @ to_report p1" by blast+
  have "buffers_read (l # ls) = buffers_read [l] @ buffers_read ls"
    "buffers_handled (l # ls) = buffers_handled [l] @ buffers_handled ls"
    "failures (l # ls) = failures [l] @ failures ls"
    "failures_reported (l # ls) = failures_reported [l] @ failures_reported ls" by simp_all
  with now go.IH show ?case by (metis append_assoc)
qed simp

section \<open>The loop follows the protocol\<close>

text \<open>Handling events does not tell the server to terminate.\<close>

definition unstopped :: "bool \<Rightarrow> 'w linux_server \<Rightarrow> bool" where
  "unstopped b s \<longleftrightarrow> shouldTerminate s = b"

lemma same_server_shouldTerminate: "same_server s s' \<Longrightarrow> shouldTerminate s = shouldTerminate s'"
  by (cases s; cases s'; simp add: same_server_def)

lemma framed_unstopped: "framed m \<Longrightarrow> keeps (unstopped b) m"
  by (rule framed_keeps) (auto simp: unstopped_def dest: same_server_shouldTerminate)

lemma handleEvent_unstopped: "keeps (unstopped b) (handleEvent_linux api event)"
proof -
  have erase: "keeps (unstopped b) (modifyE (\<lambda>s. s\<lparr>watchRoots := f s\<rparr>))"
    "keeps (unstopped b) (modifyE (\<lambda>s. s\<lparr>watchPoints := g s\<rparr>))"
    "keeps (unstopped b) (modifyE (\<lambda>s. s\<lparr>recentlyUnregisteredWatchRoots := h s\<rparr>))" for f g h
    by (auto intro!: keeps_modifyE simp: unstopped_def)
  show ?thesis
    unfolding handleEvent_linux_def handleUnregisteredEvent_def handleRegisteredEvent_def reportEvent_def Let_def
    by (intro keeps_rules erase framed_unstopped framed_rules)
qed

lemma processEvents_unstopped:
  "processEvents api buf index count s = Some (r, s') \<Longrightarrow> shouldTerminate s' = shouldTerminate s"
proof (induction api buf index count s arbitrary: r s' rule: processEvents.induct)
  case (1 api buf index count s)
  show ?case
  proof (cases "index < length buf")
    case False
    with 1 show ?thesis by (simp add: processEvents.simps [of api buf index])
  next
    case True
    with 1(2) obtain event where event: "event_at buf index = Some event"
      by (cases "event_at buf index") (auto simp: processEvents.simps [of api buf index])
    obtain r1 s1 where step: "handleEvent_linux api event s = (r1, s1)" by fastforce
    have s1: "shouldTerminate s1 = shouldTerminate s"
      using keepsD' [OF handleEvent_unstopped _ step] by (simp add: unstopped_def)
    show ?thesis
    proof (cases r1)
      case (Inl e)
      with 1(2) True event step s1 show ?thesis by (simp add: processEvents.simps [of api buf index])
    next
      case (Inr u)
      with 1(2) True event step
      have "processEvents api buf (index + event_size event) (count + 1) s1 = Some (r, s')"
        by (simp add: processEvents.simps [of api buf index])
      with 1(1) [OF True event step [symmetric] Inr] s1 show ?thesis by simp
    qed
  qed
qed

lemma framed_run_unstopped: "framed m \<Longrightarrow> m s = (r, s') \<Longrightarrow> shouldTerminate s' = shouldTerminate s"
  by (metis framedD same_server_shouldTerminate snd_conv)

lemma processBuffer_unstopped:
  assumes "processBuffer api buf s = Some (r, s')"
  shows "shouldTerminate s' = shouldTerminate s"
proof -
  have log: "framed (logToJava api level fmt args)" for level fmt args
    by (intro framed_rules)
  have start: "framed (thenE (getThreadEnv api) (logToJava api level fmt args))" for level fmt args
    by (intro framed_rules)
  show ?thesis
    using assms
    by (auto simp: processBuffer_def split: prod.splits sum.splits option.splits
        dest!: framed_run_unstopped [OF log] framed_run_unstopped [OF start] processEvents_unstopped)
qed

lemma readEvents_traced:
  assumes "readEvents api available s = Some (r, s')"
  shows "\<exists>ls. traced api s (resume available) ls s' (case r of Inl e \<Rightarrow> Trouble e | Inr _ \<Rightarrow> Idle) \<and>
    shouldTerminate s' = shouldTerminate s"
proof -
  let ?P = "\<lambda>api available (s :: 'a linux_server) (q :: (exn + unit) \<times> 'a linux_server).
      \<exists>ls. traced api s (resume available) ls (snd q)
        (case fst q of Inl e \<Rightarrow> Trouble e | Inr _ \<Rightarrow> Idle) \<and>
      shouldTerminate (snd q) = shouldTerminate s"
  have "?P api available s (r, s')"
  proof (rule readEvents.raw_induct [of ?P, OF _ assms])
    fix rec :: "'a linux_api \<Rightarrow> 32 word \<Rightarrow> ('a, unit) linux_loop"
      and api :: "'a linux_api" and available s and q :: "(exn + unit) \<times> 'a linux_server"
    assume IH: "\<And>api available s q. rec api available s = Some q \<Longrightarrow> ?P api available s q"
      and body: "(if available = 0 then Some (Inr (), s)
      else
        (case syscall (readInotify api EVENT_BUFFER_SIZE) s of
           (Inl e, s1) \<Rightarrow> Some (Inl e, s1)
         | (Inr None, s1) \<Rightarrow>
             if errno s1 = EAGAIN then Some (Inr (), s1)
             else Some (Inl (FileWatcherException_code ''Couldn't read from inotify'' (errno s1)), s1)
         | (Inr (Some buf), s1) \<Rightarrow>
             if buf = [] then
               Some (Inl (FileWatcherException_code ''EOF reading from inotify'' (errno s1)), s1)
             else
               (case processBuffer api buf s1 of
                  None \<Rightarrow> None
                | Some (Inl e, s2) \<Rightarrow> Some (Inl e, s2)
                | Some (Inr _, s2) \<Rightarrow> rec api (available - of_nat (length buf)) s2))) = Some q"
    show "?P api available s q"
    proof (cases "available = 0")
      case True
      with body show ?thesis by (auto simp: resume_def intro!: exI [of _ "[]"] traced.stop)
    next
      case False
      then have start: "resume available = Reading available" by (simp add: resume_def)
      obtain result s1 where read: "syscall (readInotify api EVENT_BUFFER_SIZE) s = (Inr result, s1)"
        using syscall_returns by blast
      have s1: "shouldTerminate s1 = shouldTerminate s" by (rule framed_run_unstopped [OF framed_syscall read])
      note step = loop_step.read [OF read]
      show ?thesis
      proof (cases "\<exists>buf. result = Some buf \<and> buf \<noteq> []")
        case False
        then have "advance (Reading available) (ReadResult result (errno s1)) =
            Some (case fst q of Inl e \<Rightarrow> Trouble e | Inr _ \<Rightarrow> Idle)" "snd q = s1"
          using body read \<open>available \<noteq> 0\<close> by (auto split: option.splits if_splits)
        with traced_one [OF step this(1)] s1 start show ?thesis by auto
      next
        case True
        then obtain buf where buf: "result = Some buf" "buf \<noteq> []" by blast
        let ?rest = "available - of_nat (length buf)"
        have got: "advance (Reading available) (ReadResult result (errno s1)) = Some (Handling ?rest buf)"
          using buf by simp
        obtain r2 s2 where handled: "processBuffer api buf s1 = Some (r2, s2)"
          using body read False buf by (auto split: option.splits)
        have s2: "shouldTerminate s2 = shouldTerminate s" using processBuffer_unstopped [OF handled] s1 by simp
        note step2 = loop_step.handle [OF handled]
        show ?thesis
        proof (cases r2)
          case (Inl e)
          then have "q = (Inl e, s2)" using body read False buf handled by simp
          moreover have "traced api s1 (Handling ?rest buf) [Handle buf r2] s2 (Trouble e)"
            using Inl by (intro traced_one [OF step2]) simp
          ultimately show ?thesis
            using traced.go [OF step got] s2 start by auto
        next
          case (Inr u)
          then have "rec api ?rest s2 = Some q" using body read False buf handled by simp
          from IH [OF this] obtain ls where ls: "traced api s2 (resume ?rest) ls (snd q)
              (case fst q of Inl e \<Rightarrow> Trouble e | Inr _ \<Rightarrow> Idle)"
            "shouldTerminate (snd q) = shouldTerminate s2" by blast
          have "traced api s1 (Handling ?rest buf) (Handle buf r2 # ls) (snd q)
              (case fst q of Inl e \<Rightarrow> Trouble e | Inr _ \<Rightarrow> Idle)"
            using Inr by (intro traced.go [OF step2 _ ls(1)]) simp
          from traced.go [OF step got this] ls(2) s2 start show ?thesis by auto
        qed
      qed
    qed
  qed
  then show ?thesis by simp
qed

text \<open>How a round leaves the loop: with an exception, told to terminate, or ready for the next round.\<close>

definition after_round :: "(exn + unit) \<Rightarrow> 'w linux_server \<Rightarrow> phase" where
  "after_round r s =
     (case r of Inl e \<Rightarrow> Over (Inl e) | Inr _ \<Rightarrow> if shouldTerminate s then Over (Inr ()) else Idle)"

lemma round_inotify_traced:
  assumes poll: "syscall (pollFds api FOREVER) s = (Inr (Some (False, True)), s1)"
    and alive: "\<not> shouldTerminate s" and events: "handleEvents_linux api s1 = Some (r, s2)"
    and outcome: "tryE (liftE r) (\<lambda>ex. thenE (getThreadEnv api) (reportFailure api ex)) s2 = (r', s')"
  shows "\<exists>ls. traced api s Idle ls s' (after_round r' s')"
proof -
  obtain n w where n: "fionread api (world s1) = (n, w)" by fastforce
  have s1: "\<not> shouldTerminate s1" using framed_run_unstopped [OF framed_syscall poll] alive by simp
  obtain ls where ls: "traced api (s1\<lparr>world := w\<rparr>) (resume n) ls s2 (case r of Inl e \<Rightarrow> Trouble e | Inr _ \<Rightarrow> Idle)"
    "shouldTerminate s2 = shouldTerminate s1"
    using readEvents_traced [of api n "s1\<lparr>world := w\<rparr>" r s2] events n by (auto simp: handleEvents_linux_def)
  have "advance Waiting (Announce n) = Some (resume n)" by simp
  from traced.go [OF loop_step.announce [OF n] this ls(1)]
  have waiting: "traced api s1 Waiting (Announce n # ls) s2 (case r of Inl e \<Rightarrow> Trouble e | Inr _ \<Rightarrow> Idle)" .
  have "advance Idle (Poll (Inr (False, True))) = Some Waiting" by simp
  note round = traced.go [OF loop_step.poll [OF poll] this waiting]
  show ?thesis
  proof (cases r)
    case (Inr u)
    with outcome have "r' = Inr ()" "s' = s2" by (simp_all add: exec_simps)
    with round Inr ls(2) s1 show ?thesis by (auto simp: after_round_def)
  next
    case (Inl e)
    with outcome have report: "thenE (getThreadEnv api) (reportFailure api e) s2 = (r', s')"
      by (simp add: run_tryE run_liftE)
    have framed: "framed (thenE (getThreadEnv api) (reportFailure api e) :: ('a, unit) linux_action)"
      by (intro framed_rules)
    from framed_run_unstopped [OF framed report] ls(2) s1 have "\<not> shouldTerminate s'" by simp
    then have "advance (Trouble e) (Report e r') = Some (after_round r' s')"
      by (simp add: after_round_def split: sum.split)
    from traced_append [OF round] traced_one [OF loop_step.report [OF report] this] Inl
    show ?thesis by auto
  qed
qed

lemma processQueues_traced:
  assumes "\<not> shouldTerminate s" "processQueues api FOREVER s = Some (r, s')"
  shows "\<exists>ls. traced api s Idle ls s' (after_round r s')"
proof -
  obtain result s1 where poll: "syscall (pollFds api FOREVER) s = (Inr result, s1)"
    using syscall_returns by blast
  have s1: "\<not> shouldTerminate s1" using framed_run_unstopped [OF framed_syscall poll] assms(1) by simp
  show ?thesis
  proof (cases result)
    case None
    with poll assms(2) have "advance Idle (Poll (Inl (errno s1))) = Some (after_round r s')" "s' = s1"
      by (auto simp: processQueues_def after_round_def)
    with traced_one [OF loop_step.poll_fails this(1)] poll None show ?thesis by auto
  next
    case (Some flags)
    then obtain shutdown inotify where flags: "result = Some (shutdown, inotify)" by (cases flags) simp
    note step = loop_step.poll [OF poll [unfolded flags]]
    show ?thesis
    proof (cases shutdown)
      case True
      then have adv: "advance Idle (Poll (Inr (shutdown, inotify))) = Some ShuttingDown" by simp
      obtain r1 s2 where consume: "consume_ShutdownEvent api s1 = (r1, s2)" by fastforce
      have "\<exists>l. loop_step api s1 l s' \<and> advance ShuttingDown l = Some (after_round r s')"
        using assms(2) poll flags True consume loop_step.consume [of api s1 s2] loop_step.consume_fails [of api s1 _ s2]
        by (cases r1) (auto simp: processQueues_def exec_simps after_round_def)
      then obtain l where "traced api s1 ShuttingDown [l] s' (after_round r s')" by (blast intro: traced_one)
      from traced.go [OF step adv this] show ?thesis by blast
    next
      case False
      show ?thesis
      proof (cases inotify)
        case True
        then obtain r2 s2 where "handleEvents_linux api s1 = Some (r2, s2)"
          "tryE (liftE r2) (\<lambda>ex. thenE (getThreadEnv api) (reportFailure api ex)) s2 = (r, s')"
          using assms(2) poll flags False by (auto simp: processQueues_def split: option.splits)
        with round_inotify_traced [OF _ assms(1) this] poll flags False True show ?thesis by simp
      next
        case False
        with assms(2) poll flags \<open>\<not> shutdown\<close> have "r = Inr ()" "s' = s1" by (simp_all add: processQueues_def)
        with traced_one [OF step, of Idle Idle] False \<open>\<not> shutdown\<close> s1 show ?thesis
          by (auto simp: after_round_def)
      qed
    qed
  qed
qed

text \<open>The phase in which the loop starts.\<close>

definition start_phase :: "'w linux_server \<Rightarrow> phase" where
  "start_phase s = (if shouldTerminate s then Over (Inr ()) else Idle)"

lemma runLoop_traced:
  assumes "runLoop_linux api s = Some (r, s')"
  shows "\<exists>ls. traced api s (start_phase s) ls s' (Over r)"
proof -
  let ?P = "\<lambda>api (s :: 'a linux_server) (q :: (exn + unit) \<times> 'a linux_server).
      \<exists>ls. traced api s (start_phase s) ls (snd q) (Over (fst q))"
  have "?P api s (r, s')"
  proof (rule runLoop_linux.raw_induct [of ?P, OF _ assms])
    fix rec :: "'a linux_api \<Rightarrow> ('a, unit) linux_loop"
      and api :: "'a linux_api" and s and q :: "(exn + unit) \<times> 'a linux_server"
    assume IH: "\<And>api s q. rec api s = Some q \<Longrightarrow> ?P api s q"
      and body: "(if shouldTerminate s then Some (Inr (), s)
        else (case processQueues api FOREVER s of
             None \<Rightarrow> None
           | Some (Inl e, s1) \<Rightarrow> Some (Inl e, s1)
           | Some (Inr _, s1) \<Rightarrow> rec api s1)) = Some q"
    show "?P api s q"
    proof (cases "shouldTerminate s")
      case True
      with body show ?thesis by (auto simp: start_phase_def intro!: exI [of _ "[]"] traced.stop)
    next
      case False
      then obtain r1 s1 where round: "processQueues api FOREVER s = Some (r1, s1)"
        using body by (auto split: option.splits)
      from processQueues_traced [OF False this] obtain ls where ls: "traced api s Idle ls s1 (after_round r1 s1)"
        by blast
      show ?thesis
      proof (cases r1)
        case (Inl e)
        with body False round ls show ?thesis by (auto simp: start_phase_def after_round_def)
      next
        case (Inr u)
        with body False round have "rec api s1 = Some q" by simp
        from IH [OF this] obtain ls' where "traced api s1 (start_phase s1) ls' (snd q) (Over (fst q))" by blast
        moreover have "after_round r1 s1 = start_phase s1" using Inr by (simp add: after_round_def start_phase_def)
        ultimately show ?thesis using ls False by (auto simp: start_phase_def dest: traced_append)
      qed
    qed
  qed
  then show ?thesis by simp
qed

end
