(* ===== verification/LinuxLife.thy ===== *)
theory LinuxLife
  imports LinuxTrace
begin

text \<open>
  The life of the Linux server: creating it, the rounds of its run loop, failures inside a round,
  and shutting it down.
\<close>

section \<open>Creating a server\<close>

text \<open>How creating the native server goes: the first of its steps that fails decides.\<close>

definition start_outcome :: "'w linux_api \<Rightarrow> 'w \<Rightarrow> exn + unit" where
  "start_outcome api w =
     (if getJavaVM api w \<noteq> 0
      then Inl (RuntimeError (''Could not get jvm instance: '' @ to_string (getJavaVM api w)))
      else if \<not> newGlobalRef api w then Inl (RuntimeError ''Failed to create global JNI reference'')
      else case inotifyInit api w of
          (Inl err, w1) \<Rightarrow>
            Inl (if err = 24 then InotifyInstanceLimitTooLowException
                 else FileWatcherException (''Couldn't register inotify handle, error = '' @ to_string err))
        | (Inr fd, w1) \<Rightarrow>
            (case eventfdCreate api w1 of
               (Inl err, w2) \<Rightarrow>
                 Inl (FileWatcherException (''Couldn't register event source, error = '' @ to_string err))
             | (Inr fd, w2) \<Rightarrow> Inr ()))"

text \<open>
  C25: Of all the ways in which creating a server can fail, \<^verbatim>\<open>startWatcher0\<close> catches one: where the limit of
  inotify instances is reached (\<^verbatim>\<open>EMFILE\<close>, 24), it returns \<^verbatim>\<open>NULL\<close> with an
  \<^verbatim>\<open>InotifyInstanceLimitTooLowException\<close> pending in Java. A virtual machine that cannot be found, a
  global reference that cannot be made, any other error of \<^verbatim>\<open>inotify_init1\<close> and any of \<^verbatim>\<open>eventfd\<close> leaves the
  JNI function as a native exception, with nothing pending in Java.
\<close>

theorem startWatcher0_errors:
  assumes "\<forall>c m w. throwNew api c m w = 0"
  shows "\<exists>s'. startWatcher0_linux api s =
      (case start_outcome api (world s) of
         Inr _ \<Rightarrow> Inr True
       | Inl e \<Rightarrow> if e = InotifyInstanceLimitTooLowException then Inr False else Inl e, s') \<and>
    pending s' =
      (if start_outcome api (world s) = Inl InotifyInstanceLimitTooLowException
       then Some (NativeThrown INSTANCE_LIMIT_EXCEPTION ''Inotify instance limit too low'')
       else pending s) \<and>
    reports s' = reports s"
  using assms
  by (auto simp: startWatcher0_linux_def construct_Server_def construct_AbstractServer_def
      construct_JniGlobalRef_def getJavaVm_def construct_Inotify_def construct_ShutdownEvent_def exec_simps
      syscall_def rethrowAsJavaException_class_def what_def FileWatcherException_code_def
      createMessage_code_def start_outcome_def EMFILE_def reports_def split: prod.split sum.split)

theorem startWatcher0_errors_witness:
  "\<exists>s'. startWatcher0_linux (quiet_linux\<lparr>eventfdCreate := \<lambda>w. (Inl 23, w)\<rparr>) (init_linux_server 0) =
    (Inl (FileWatcherException (''Couldn't register event source, error = '' @ to_string 23)), s') \<and>
    pending s' = None"
proof -
  let ?api = "quiet_linux\<lparr>eventfdCreate := \<lambda>w. (Inl 23, w)\<rparr>"
  let ?e = "FileWatcherException (''Couldn't register event source, error = '' @ to_string 23)"
  have out: "start_outcome ?api (world (init_linux_server 0)) = Inl ?e"
    by (simp add: start_outcome_def)
  have "pending (init_linux_server (0::nat)) = None" "\<forall>c m w. throwNew ?api c m w = 0"
    by (simp_all add: init_linux_server_def)
  with startWatcher0_errors [of ?api "init_linux_server 0"] show ?thesis
    unfolding out by force
qed

section \<open>A round of the run loop\<close>

text \<open>
  C26: A failure while events are handled does not end the run loop: the round reports it through
  the callback, with its message, returns normally and leaves the server as it was.
\<close>

theorem processQueues_reports_failure:
  assumes "jni_ok api" and "syscall (pollFds api timeout) s = (Inr (Some (False, True)), s1)"
    and "handleEvents_linux api s1 = Some (Inl e, s2)" and "bytes_to_utf16 (what api e) = Some m"
  shows "\<exists>s'. processQueues api timeout s = Some (Inr (), s') \<and>
    reports s' = reports s2 @ [ReportFailure m] \<and> same_server s' s2"
  using assms
  by (simp add: processQueues_def exec_simps getThreadEnv_ok reportFailure_def
      reportFailure_message_run utf8ToUtf16String_def)

text \<open>The kernel announces 16 bytes and then reports the end of the file.\<close>

definition eof_linux :: "nat linux_api" where
  "eof_linux = quiet_linux\<lparr>pollFds := \<lambda>_ w. (Inr (False, True), w),
     fionread := \<lambda>w. (16, w), readInotify := \<lambda>_ w. (Inr [], w)\<rparr>"

theorem processQueues_reports_failure_witness:
  "\<exists>s' m. processQueues eof_linux FOREVER sample_server = Some (Inr (), s') \<and>
     reports s' = [ReportFailure m]"
proof -
  let ?e = "FileWatcherException_code ''EOF reading from inotify'' (errno sample_server)"
  have "errno sample_server = 0"
    by (simp add: sample_server_def registerPath_linux_def exec_simps init_linux_server_def
        utf16ToUtf8String_def syscall_def set_watch_point_def)
  then have what: "what eof_linux ?e = ''EOF reading from inotify, error = 0''"
    by (simp add: what_def FileWatcherException_code_def createMessage_code_def to_string_def
        show_nat.simps digit_char_def char_of_def bit_0)
  have "handleEvents_linux eof_linux sample_server = Some (Inl ?e, sample_server)"
    by (simp add: handleEvents_linux_def eof_linux_def readEvents.simps syscall_def)
  moreover have "syscall (pollFds eof_linux FOREVER) sample_server =
      (Inr (Some (False, True)), sample_server)"
    by (simp add: eof_linux_def syscall_def)
  moreover have "jni_ok eof_linux" by (simp add: jni_ok_def eof_linux_def)
  moreover obtain m where "bytes_to_utf16 (what eof_linux ?e) = Some m"
    unfolding what by (simp add: bytes_to_utf16_ascii)
  ultimately show ?thesis
    using processQueues_reports_failure [of eof_linux FOREVER sample_server sample_server ?e
        sample_server m]
    by (auto simp: reports_def)
qed

section \<open>Shutting down\<close>

text \<open>The rounds of the loop that end normally, until the server is told to terminate.\<close>

fun rounds :: "'w linux_api \<Rightarrow> nat \<Rightarrow> 'w linux_server \<Rightarrow> 'w linux_server option" where
  "rounds api 0 s = Some s"
| "rounds api (Suc n) s =
     (if shouldTerminate s then Some s
      else case processQueues api FOREVER s of
          Some (Inr _, s1) \<Rightarrow> rounds api n s1
        | _ \<Rightarrow> None)"

lemma runLoop_rounds:
  "rounds api n s = Some s1 \<Longrightarrow> runLoop_linux api s = runLoop_linux api s1"
proof (induction n arbitrary: s)
  case 0
  then show ?case by simp
next
  case (Suc n)
  show ?case
  proof (cases "shouldTerminate s")
    case True
    with Suc.prems show ?thesis by simp
  next
    case False
    with Suc.prems obtain s2 where "processQueues api FOREVER s = Some (Inr (), s2)"
      and "rounds api n s2 = Some s1"
      by (auto split: option.splits sum.splits)
    with False Suc.IH [of s2] show ?thesis by (subst runLoop_linux.simps) simp
  qed
qed

text \<open>
  C7: Shutting down ends the run loop: when, after any number of rounds, \<^verbatim>\<open>poll\<close> reports the
  shutdown event, the loop returns at once, without handling the events that are waiting, and
  \<^verbatim>\<open>executeRunLoop\<close> marks the server as terminated.
\<close>

theorem shutdown_ends_run_loop:
  assumes "rounds api n s = Some s1" and "\<not> shouldTerminate s1"
    and "pollFds api FOREVER (world s1) = (Inr (True, waiting), w1)"
    and "readEventfd api w1 = (Inr (), w2)"
  shows "executeRunLoop api (runLoop_linux api) s =
    Some (Inr (), s1\<lparr>world := w2, shouldTerminate := True, terminated := True\<rparr>)"
proof -
  let ?s2 = "s1\<lparr>world := w2, shouldTerminate := True\<rparr>"
  have "processQueues api FOREVER s1 = Some (Inr (), ?s2)"
    using assms(3,4)
    by (simp add: processQueues_def syscall_def consume_ShutdownEvent_def exec_simps)
  moreover have "runLoop_linux api ?s2 = Some (Inr (), ?s2)" by (subst runLoop_linux.simps) simp
  ultimately have "runLoop_linux api s1 = Some (Inr (), ?s2)"
    using assms(2) by (subst runLoop_linux.simps) simp
  with runLoop_rounds [OF assms(1)] show ?thesis by (simp add: executeRunLoop_def exec_simps)
qed

theorem shutdown_ends_run_loop_witness:
  "executeRunLoop quiet_linux (runLoop_linux quiet_linux) sample_server =
    Some (Inr (), sample_server\<lparr>world := 1, shouldTerminate := True, terminated := True\<rparr>)"
  by (rule shutdown_ends_run_loop [where n = 0 and waiting = False]) simp_all

text \<open>
  C15: Every run of the run loop is a trace of its calls that follows the protocol: poll; at the shutdown
  event consume it, note the termination and stop; at inotify events ask how much there is and read
  until it is used up, handling each buffer as soon as it was read; after a failure of reading or
  handling report it and go on polling. So the buffers handled are the buffers read, each once and
  in order, and each failure inside a round is reported, once and in order. The run ends normally only
  when the server was told to terminate, and with the exception of the step that failed otherwise; the
  server stays reachable, with consistent tables.
\<close>

theorem runLoop_follows_protocol:
  assumes "linux_reachable api s" and "runLoop_linux api s = Some (r, s')"
  shows "\<exists>ls. traced api s (if shouldTerminate s then Over (Inr ()) else Idle) ls s' (Over r) \<and>
    buffers_handled ls = buffers_read ls \<and> failures_reported ls = failures ls \<and>
    (r = Inr () \<longrightarrow> shouldTerminate s') \<and> linux_reachable api s' \<and> linux_inv s'"
proof -
  obtain ls where ls: "traced api s (start_phase s) ls s' (Over r)" using runLoop_traced [OF assms(2)] by blast
  have "to_handle (start_phase s) = []" "to_report (start_phase s) = []" by (simp_all add: start_phase_def)
  with traced_accounts [OF ls] have "buffers_handled ls = buffers_read ls" "failures_reported ls = failures ls"
    by simp_all
  moreover from assms(2) have steps: "linux_steps api s s'" and "r = Inr () \<longrightarrow> shouldTerminate s'"
    using runLoop_steps by auto
  moreover from assms(1) steps have "linux_reachable api s'"
    unfolding linux_reachable_def by (blast intro: linux_steps_trans)
  ultimately show ?thesis
    using ls [unfolded start_phase_def] reachable_inv [of api s'] by (intro exI [of _ ls] conjI)
qed

theorem runLoop_follows_protocol_witness:
  "\<exists>ls. traced quiet_linux sample_server Idle ls (sample_server\<lparr>world := 1, shouldTerminate := True\<rparr>)
      (Over (Inr ())) \<and> buffers_handled ls = buffers_read ls"
proof -
  have "processQueues quiet_linux FOREVER sample_server =
      Some (Inr (), sample_server\<lparr>world := 1, shouldTerminate := True\<rparr>)"
    by (simp add: processQueues_def syscall_def consume_ShutdownEvent_def exec_simps)
  then have "runLoop_linux quiet_linux sample_server =
      Some (Inr (), sample_server\<lparr>world := 1, shouldTerminate := True\<rparr>)"
    by (subst runLoop_linux.simps, simp) (subst runLoop_linux.simps, simp)
  from runLoop_follows_protocol [OF sample_reachable this] show ?thesis by auto
qed

end
