(* ===== verification/Queue.thy ===== *)
theory Queue
  imports Prelude
begin

text \<open>
  Queues between threads: the contract of a first-in first-out queue as a locale, what two threads
  can rely on over it, and \<^verbatim>\<open>condition_variable::wait\<close> with a predicate.
\<close>

section \<open>First in, first out\<close>

text \<open>\<open>contents\<close> lists the items of a queue, the next one first. \<open>take1\<close> gives \<open>None\<close> where the
  queue is empty and the caller has to wait.\<close>

locale fifo =
  fixes contents :: "'s \<Rightarrow> 'a list"
    and put1 :: "'a \<Rightarrow> 's \<Rightarrow> 's"
    and take1 :: "'s \<Rightarrow> ('a \<times> 's) option"
  assumes contents_put1: "contents (put1 x s) = contents s @ [x]"
    and take1_None: "take1 s = None \<longleftrightarrow> contents s = []"
    and take1_Some: "take1 s = Some (x, s') \<Longrightarrow> contents s = x # contents s'"
begin

text \<open>A producer and a consumer in any interleaving: the items sent and the items received, both
  in order.\<close>

inductive traffic :: "'s \<Rightarrow> 'a list \<Rightarrow> 'a list \<Rightarrow> 's \<Rightarrow> bool" where
  idle: "traffic s [] [] s"
| send: "traffic s sent got s1 \<Longrightarrow> traffic s (sent @ [x]) got (put1 x s1)"
| receive: "traffic s sent got s1 \<Longrightarrow> take1 s1 = Some (x, s2) \<Longrightarrow> traffic s sent (got @ [x]) s2"

text \<open>Nothing is lost, invented or reordered: what was received, followed by what is still in the
  queue, is what was there before followed by what was sent.\<close>

lemma traffic_conserves:
  "traffic s sent got s' \<Longrightarrow> got @ contents s' = contents s @ sent"
proof (induction rule: traffic.induct)
  case (idle s)
  then show ?case by simp
next
  case (send s sent got s1 x)
  then show ?case by (metis append.assoc contents_put1)
next
  case (receive s sent got s1 x s2)
  then show ?case using take1_Some [OF receive.hyps(2)] by simp
qed

text \<open>A consumer that was faster than the producer waits only for an empty queue.\<close>

lemma traffic_waits:
  assumes "traffic s sent got s'" and "take1 s' = None"
  shows "got = contents s @ sent"
  using traffic_conserves [OF assms(1)] assms(2) take1_None by simp

end

section \<open>Waiting for a condition\<close>

text \<open>\<^verbatim>\<open>cv.wait(lock, pred)\<close> is \<^verbatim>\<open>while (!pred()) wait(lock)\<close>. \<open>wake\<close> gives the state in which
  a wait ends, after the other threads have run; it is \<open>None\<close> where the wait never ends. A wait may
  end without a notification, so the state need not satisfy the predicate.\<close>

partial_function (option) cv_wait :: "('s \<Rightarrow> 's option) \<Rightarrow> ('s \<Rightarrow> bool) \<Rightarrow> 's \<Rightarrow> 's option" where
  "cv_wait wake p s =
     (if p s then Some s
      else case wake s of None \<Rightarrow> None | Some s' \<Rightarrow> cv_wait wake p s')"

lemma cv_wait_ready: "p s \<Longrightarrow> cv_wait wake p s = Some s"
  by (subst cv_wait.simps) simp

text \<open>The predicate holds when the wait returns, spurious wake-ups or not, and whatever every wake
  keeps has been kept.\<close>

lemma cv_wait_result:
  assumes "cv_wait wake p s = Some s'"
    and "R s s" and "\<And>s1 s2. R s s1 \<Longrightarrow> wake s1 = Some s2 \<Longrightarrow> R s s2"
  shows "p s' \<and> R s s'"
proof -
  let ?P = "\<lambda>wk q s1 s2. wk = wake \<and> q = p \<and> R s s1 \<longrightarrow> p s2 \<and> R s s2"
  have "?P wake p s s'"
  proof (rule cv_wait.raw_induct [of ?P, OF _ assms(1)])
    fix rec :: "('a \<Rightarrow> 'a option) \<Rightarrow> ('a \<Rightarrow> bool) \<Rightarrow> 'a \<Rightarrow> 'a option" and wk q s1 s2
    assume IH: "\<And>wk q s1 s2. rec wk q s1 = Some s2 \<Longrightarrow> ?P wk q s1 s2"
      and body: "(if q s1 then Some s1
         else case wk s1 of None \<Rightarrow> None | Some s' \<Rightarrow> rec wk q s') = Some s2"
    show "?P wk q s1 s2"
    proof (cases "q s1")
      case True
      with body show ?thesis by auto
    next
      case False
      with body obtain s3 where s3: "wk s1 = Some s3" "rec wk q s3 = Some s2"
        by (auto split: option.splits)
      with IH [OF s3(2)] assms(3) show ?thesis by metis
    qed
  qed
  with assms(2) show ?thesis by blast
qed

end
