(* ===== verification/AppleServer.thy ===== *)
theory AppleServer
  imports Generic Registry Queue
begin

text \<open>
  The macOS server: \<^verbatim>\<open>apple_fsnotifier.h\<close> and \<^verbatim>\<open>apple_fsnotifier.cpp\<close>, operation by operation.
  FSEvents calls the server on a dispatch queue's thread, where no \<^verbatim>\<open>JNIEnv\<close> is at hand; the events
  go through a blocking queue to the run loop. Core Foundation, FSEvents and libdispatch are
  parameters, the record \<open>apple_api\<close>; the calls that own resources are recorded in \<open>nativeCalls\<close>.
\<close>

section \<open>Constants of the ABI\<close>

definition CreateFlagNoDefer :: flags32 where "CreateFlagNoDefer = 0x2"
definition CreateFlagWatchRoot :: flags32 where "CreateFlagWatchRoot = 0x4"
definition CreateFlagFileEvents :: flags32 where "CreateFlagFileEvents = 0x10"

definition MustScanSubDirs :: flags32 where "MustScanSubDirs = 0x1"
definition UserDropped :: flags32 where "UserDropped = 0x2"
definition KernelDropped :: flags32 where "KernelDropped = 0x4"
definition EventIdsWrapped :: flags32 where "EventIdsWrapped = 0x8"
definition HistoryDone :: flags32 where "HistoryDone = 0x10"
definition RootChanged :: flags32 where "RootChanged = 0x20"
definition Mount :: flags32 where "Mount = 0x40"
definition Unmount :: flags32 where "Unmount = 0x80"
definition ItemCreated :: flags32 where "ItemCreated = 0x100"
definition ItemRemoved :: flags32 where "ItemRemoved = 0x200"
definition ItemInodeMetaMod :: flags32 where "ItemInodeMetaMod = 0x400"
definition ItemRenamed :: flags32 where "ItemRenamed = 0x800"
definition ItemModified :: flags32 where "ItemModified = 0x1000"
definition ItemFinderInfoMod :: flags32 where "ItemFinderInfoMod = 0x2000"
definition ItemChangeOwner :: flags32 where "ItemChangeOwner = 0x4000"
definition ItemXattrMod :: flags32 where "ItemXattrMod = 0x8000"
definition ItemIsFile :: flags32 where "ItemIsFile = 0x10000"
definition ItemIsDir :: flags32 where "ItemIsDir = 0x20000"
definition ItemIsSymlink :: flags32 where "ItemIsSymlink = 0x40000"
definition OwnEvent :: flags32 where "OwnEvent = 0x80000"
definition ItemIsHardlink :: flags32 where "ItemIsHardlink = 0x100000"
definition ItemIsLastHardlink :: flags32 where "ItemIsLastHardlink = 0x200000"
definition ItemCloned :: flags32 where "ItemCloned = 0x400000"

lemmas fsevent_flags = MustScanSubDirs_def UserDropped_def KernelDropped_def EventIdsWrapped_def
  HistoryDone_def RootChanged_def Mount_def Unmount_def ItemCreated_def ItemRemoved_def
  ItemInodeMetaMod_def ItemRenamed_def ItemModified_def ItemFinderInfoMod_def ItemChangeOwner_def
  ItemXattrMod_def ItemIsFile_def ItemIsDir_def ItemIsSymlink_def OwnEvent_def ItemIsHardlink_def
  ItemIsLastHardlink_def ItemCloned_def

definition IGNORED_FLAGS :: flags32 where
  "IGNORED_FLAGS = UserDropped OR KernelDropped OR EventIdsWrapped OR HistoryDone OR ItemIsFile OR
     ItemIsDir OR ItemIsSymlink OR OwnEvent OR ItemIsHardlink OR ItemIsLastHardlink OR ItemCloned"

section \<open>State\<close>

datatype queue_item =
    FileEvent string flags32 "64 word"
  | ErrorEvent string
  | PoisonPill

text \<open>What the code does to the objects it owns: \<open>Created\<close> and \<open>Released\<close> for Core Foundation objects,
  streams and the dispatch queue, and the life of a stream between the two.\<close>

datatype native_call =
  Created nat | Released nat | QueueSet nat | Started nat | Stopped nat | Invalidated nat

record 'w apple_api = "'w jni" +
  dispatchQueueCreate :: "'w \<Rightarrow> nat \<times> 'w"
  cfStringCreate :: "u16string \<Rightarrow> 'w \<Rightarrow> nat option \<times> 'w"
  cfArrayCreate :: "'w \<Rightarrow> nat option \<times> 'w"
  streamCreate :: "u16string \<Rightarrow> int \<Rightarrow> flags32 \<Rightarrow> 'w \<Rightarrow> nat option \<times> 'w"
  streamStart :: "nat \<Rightarrow> 'w \<Rightarrow> bool \<times> 'w"
  onCall :: "native_call \<Rightarrow> 'w \<Rightarrow> 'w"
  dispatchSync :: "'w \<Rightarrow> (string \<times> flags32 \<times> 64 word) list list \<times> 'w"
  enqueueThrows :: "queue_item \<Rightarrow> 'w \<Rightarrow> exn option"
  clearOrder :: "u16string set \<Rightarrow> 'w \<Rightarrow> u16string list"

text \<open>\<open>onCall\<close>: what a call without a result does to the world. \<open>dispatchSync\<close>: the batches of
  events the dispatch queue still delivers before \<^verbatim>\<open>dispatch_sync_f\<close> returns. \<open>enqueueThrows\<close>:
  the exception of \<^verbatim>\<open>std::queue::push\<close>, where memory is exhausted. \<open>clearOrder\<close>: the order in which
  \<^verbatim>\<open>unordered_map::clear\<close> destroys the entries.\<close>

text \<open>A watch point is the stream it holds. \<open>dispatchQueue\<close> is \<open>None\<close> before the constructor of the server has
  created the queue, and after the destructor has released it.\<close>

record 'w apple_server = "'w native" +
  apple_watchPoints :: "u16string \<rightharpoonup> nat"
  eventQueue :: "queue_item list"
  latencyInMillis :: int
  nativeCalls :: "native_call list"
  dispatchQueue :: "nat option"

type_synonym ('w, 'a) apple_action = "(exn, 'w apple_server, 'a) exec"
type_synonym ('w, 'a) apple_loop = "'w apple_server \<Rightarrow> ((exn + 'a) \<times> 'w apple_server) option"

definition createRef :: "('w \<Rightarrow> nat option \<times> 'w) \<Rightarrow> ('w, nat option) apple_action" where
  "createRef f = (\<lambda>s. case f (world s) of
       (None, w) \<Rightarrow> (Inr None, s\<lparr>world := w\<rparr>)
     | (Some r, w) \<Rightarrow> (Inr (Some r), s\<lparr>world := w, nativeCalls := nativeCalls s @ [Created r]\<rparr>))"

definition call :: "'w apple_api \<Rightarrow> native_call \<Rightarrow> ('w, unit) apple_action" where
  "call api c = modifyE (\<lambda>s. s\<lparr>world := onCall api c (world s), nativeCalls := nativeCalls s @ [c]\<rparr>)"

section \<open>Watch points\<close>

text \<open>The constructor \<^verbatim>\<open>WatchPoint::WatchPoint\<close>.\<close>

definition construct_WatchPoint :: "'w apple_api \<Rightarrow> u16string \<Rightarrow> int \<Rightarrow> ('w, nat) apple_action" where
  "construct_WatchPoint api path latency =
     bindE (createRef (cfStringCreate api path)) (\<lambda>cfPath.
     case cfPath of
       None \<Rightarrow> raise (FileWatcherException_path ''Could not allocate CFString for path'' path)
     | Some str \<Rightarrow>
         bindE (createRef (cfArrayCreate api)) (\<lambda>pathArray.
         case pathArray of
           None \<Rightarrow>
             thenE (call api (Released str))
             (raise (FileWatcherException_path ''Could not allocate array to store root to watch'' path))
         | Some arr \<Rightarrow>
             bindE (createRef (streamCreate api path latency
               (CreateFlagNoDefer OR CreateFlagFileEvents OR CreateFlagWatchRoot))) (\<lambda>watcherStream.
             thenE (call api (Released arr))
            (thenE (call api (Released str))
            (case watcherStream of
               None \<Rightarrow> raise (FileWatcherException_path ''Couldn't add watch'' path)
             | Some stream \<Rightarrow>
                 thenE (call api (QueueSet stream))
                (bindE (getE (\<lambda>s. streamStart api stream (world s))) (\<lambda>r. case r of (started, w) \<Rightarrow>
                 thenE (modifyE (\<lambda>s. s\<lparr>world := w\<rparr>))
                (if \<not> started then
                   thenE (call api (Invalidated stream))
                  (thenE (call api (Released stream))
                   (raise (FileWatcherException_path ''Could not start the FSEvents stream'' path)))
                 else
                   thenE (modifyE (\<lambda>s. s\<lparr>nativeCalls := nativeCalls s @ [Started stream]\<rparr>))
                   (ret stream)))))))))"

text \<open>The destructor \<^verbatim>\<open>WatchPoint::~WatchPoint\<close>.\<close>

definition destroy_WatchPoint :: "'w apple_api \<Rightarrow> nat \<Rightarrow> ('w, unit) apple_action" where
  "destroy_WatchPoint api stream =
     thenE (call api (Stopped stream))
    (thenE (call api (Invalidated stream))
     (call api (Released stream)))"

section \<open>The event queue\<close>

text \<open>\<^verbatim>\<open>BlockingQueue::enqueue\<close> and the part of \<^verbatim>\<open>BlockingQueue::dequeue\<close> after the wait; \<open>wake\<close> is
  what other threads make of the state while the run loop waits on the condition variable.\<close>

definition enqueue :: "queue_item \<Rightarrow> 'w apple_server \<Rightarrow> 'w apple_server" where
  "enqueue item s = s\<lparr>eventQueue := eventQueue s @ [item]\<rparr>"

definition pop_front :: "'w apple_server \<Rightarrow> (queue_item \<times> 'w apple_server) option" where
  "pop_front s =
     (case eventQueue s of
        [] \<Rightarrow> None
      | item # rest \<Rightarrow> Some (item, s\<lparr>eventQueue := rest\<rparr>))"

definition dequeue ::
    "('w apple_server \<Rightarrow> 'w apple_server option) \<Rightarrow> 'w apple_server \<Rightarrow> (queue_item \<times> 'w apple_server) option" where
  "dequeue wake s =
     (case cv_wait wake (\<lambda>s. eventQueue s \<noteq> []) s of
        None \<Rightarrow> None
      | Some s1 \<Rightarrow> pop_front s1)"

definition enqueueE :: "'w apple_api \<Rightarrow> queue_item \<Rightarrow> ('w, unit) apple_action" where
  "enqueueE api item =
     bindE (getE (\<lambda>s. enqueueThrows api item (world s))) (\<lambda>r.
     case r of Some e \<Rightarrow> raise e | None \<Rightarrow> modifyE (enqueue item))"

text \<open>\<^verbatim>\<open>Server::handleEvents\<close>, which FSEvents calls with the arrays of paths, flags and ids.\<close>

definition handleEvents_apple ::
    "'w apple_api \<Rightarrow> (string \<times> flags32 \<times> 64 word) list \<Rightarrow> ('w, unit) apple_action" where
  "handleEvents_apple api events =
     tryE (forE events (\<lambda>(path, flags, eventId). enqueueE api (FileEvent (c_str path) flags eventId)))
          (\<lambda>ex. enqueueE api (ErrorEvent (c_str (what api ex))))"

section \<open>Handling one event\<close>

text \<open>The part of \<^verbatim>\<open>handleEvent\<close> that picks the change type; \<open>None\<close> is the unknown event.\<close>

definition change_type_of_flags :: "flags32 \<Rightarrow> change_type option" where
  "change_type_of_flags flags =
     (if IS_SET flags (RootChanged OR Mount OR Unmount) then Some INVALIDATED
      else if IS_SET flags ItemRenamed then
        (if IS_SET flags ItemCreated then Some REMOVED else Some CREATED)
      else if IS_SET flags ItemModified then Some MODIFIED
      else if IS_SET flags ItemRemoved then Some REMOVED
      else if IS_SET flags (ItemInodeMetaMod OR ItemFinderInfoMod OR ItemChangeOwner OR ItemXattrMod)
        then Some MODIFIED
      else if IS_SET flags ItemCreated then Some CREATED
      else None)"

text \<open>The 64-bit id is printed with \<^verbatim>\<open>%d\<close>: its low 32 bits as a signed number.\<close>

definition low_int :: "64 word \<Rightarrow> int" where
  "low_int w = sint (ucast w :: 32 word)"

definition handleEvent_apple ::
    "'w apple_api \<Rightarrow> string \<Rightarrow> flags32 \<Rightarrow> 64 word \<Rightarrow> ('w, unit) apple_action" where
  "handleEvent_apple api path flags eventId =
     thenE (logToJava api TRACE_LEVEL (''Event flags: 0x%x (ID %d) for '%s'' @ [CHR 0x27])
       [Hex flags, Dec (low_int eventId), Str path])
    (bindE (liftE (utf8ToUtf16String path)) (\<lambda>pathStr.
     if flags AND NOT IGNORED_FLAGS = 0 then
       logToJava api TRACE_LEVEL (''Ignoring event 0x%x (ID %d) for '%s'' @ [CHR 0x27])
         [Hex flags, Dec (low_int eventId), Str path]
     else if IS_SET flags MustScanSubDirs then reportOverflow api pathStr
     else
       case change_type_of_flags flags of
         None \<Rightarrow>
           thenE (logToJava api WARN_LEVEL (''Unknown event 0x%x (ID %d) for '%s'' @ [CHR 0x27])
             [Hex flags, Dec (low_int eventId), Str path])
           (reportUnknownEvent api pathStr)
       | Some type \<Rightarrow> reportChangeEvent api type pathStr))"

section \<open>The run loop\<close>

partial_function (option) runLoopItems ::
    "'w apple_api \<Rightarrow> ('w apple_server \<Rightarrow> 'w apple_server option) \<Rightarrow> ('w, unit) apple_loop" where
  "runLoopItems api wake s =
     (case dequeue wake s of
        None \<Rightarrow> None
      | Some (PoisonPill, s1) \<Rightarrow> Some (Inr (), s1)
      | Some (FileEvent path flags eventId, s1) \<Rightarrow>
          (case handleEvent_apple api (c_str path) flags eventId s1 of
             (Inl e, s2) \<Rightarrow> Some (Inl e, s2)
           | (Inr _, s2) \<Rightarrow> runLoopItems api wake s2)
      | Some (ErrorEvent message, s1) \<Rightarrow>
          (case reportFailure_message api (c_str message) s1 of
             (Inl e, s2) \<Rightarrow> Some (Inl e, s2)
           | (Inr _, s2) \<Rightarrow> runLoopItems api wake s2))"

definition runLoop_apple ::
    "'w apple_api \<Rightarrow> ('w apple_server \<Rightarrow> 'w apple_server option) \<Rightarrow> ('w, unit) apple_loop" where
  "runLoop_apple api wake s =
     (case getThreadEnv api s of
        (Inl e, s1) \<Rightarrow> Some (Inl e, s1)
      | (Inr _, s1) \<Rightarrow> runLoopItems api wake s1)"

definition initializeRunLoop_apple :: "('w, unit) apple_action" where
  "initializeRunLoop_apple = ret ()"

section \<open>Registering, unregistering, shutting down\<close>

definition registerPath_apple :: "'w apple_api \<Rightarrow> u16string \<Rightarrow> ('w, unit) apple_action" where
  "registerPath_apple api path =
     bindE (getE apple_watchPoints) (\<lambda>points.
     if points path \<noteq> None then raise (FileWatcherException_path ''Already watching path'' path)
     else
       bindE (getE latencyInMillis) (\<lambda>latency.
       bindE (construct_WatchPoint api path latency) (\<lambda>stream.
       modifyE (\<lambda>s. s\<lparr>apple_watchPoints := (apple_watchPoints s)(path \<mapsto> stream)\<rparr>))))"

definition registerPaths_apple :: "'w apple_api \<Rightarrow> u16string list \<Rightarrow> ('w, unit) apple_action" where
  "registerPaths_apple api paths = forE paths (registerPath_apple api)"

text \<open>\<^verbatim>\<open>watchPoints.erase(path)\<close> gives 1 for a path that was there, and destroys its watch point.\<close>

definition unregisterPath_apple :: "'w apple_api \<Rightarrow> u16string \<Rightarrow> ('w, bool) apple_action" where
  "unregisterPath_apple api path =
     bindE (getE apple_watchPoints) (\<lambda>points.
     case points path of
       None \<Rightarrow>
         bindE (liftE (utf16ToUtf8String path)) (\<lambda>path8.
         thenE (logToJava api INFO_LEVEL ''Path is not watched: %s'' [Str path8])
         (ret False))
     | Some stream \<Rightarrow>
         thenE (modifyE (\<lambda>s. s\<lparr>apple_watchPoints := (apple_watchPoints s)(path := None)\<rparr>))
        (thenE (destroy_WatchPoint api stream)
         (ret True)))"

definition unregisterPaths_apple :: "'w apple_api \<Rightarrow> u16string list \<Rightarrow> ('w, bool) apple_action" where
  "unregisterPaths_apple api paths = conjE paths (unregisterPath_apple api) True"

text \<open>\<^verbatim>\<open>watchPoints.clear()\<close>.\<close>

definition destroy_at :: "'w apple_api \<Rightarrow> u16string \<Rightarrow> ('w, unit) apple_action" where
  "destroy_at api path =
     bindE (getE apple_watchPoints) (\<lambda>points.
     case points path of
       None \<Rightarrow> ret ()
     | Some stream \<Rightarrow>
         thenE (destroy_WatchPoint api stream)
         (modifyE (\<lambda>s. s\<lparr>apple_watchPoints := (apple_watchPoints s)(path := None)\<rparr>)))"

definition clear_watchPoints :: "'w apple_api \<Rightarrow> ('w, unit) apple_action" where
  "clear_watchPoints api =
     bindE (getE (\<lambda>s. clearOrder api (dom (apple_watchPoints s)) (world s))) (\<lambda>paths.
     forE paths (destroy_at api))"

text \<open>\<^verbatim>\<open>dispatch_sync_f\<close> with an empty function: the batches that are queued run before it, each on
  the dispatch queue's thread, where an exception that leaves the callback ends the process.\<close>

definition drainDispatchQueue :: "'w apple_api \<Rightarrow> ('w, unit) apple_action" where
  "drainDispatchQueue api =
     bindE (getE (\<lambda>s. dispatchSync api (world s))) (\<lambda>r. case r of (batches, w) \<Rightarrow>
     thenE (modifyE (\<lambda>s. s\<lparr>world := w\<rparr>))
     (forE batches (handleEvents_apple api)))"

definition shutdownRunLoop_apple :: "'w apple_api \<Rightarrow> ('w, unit) apple_action" where
  "shutdownRunLoop_apple api =
     thenE (clear_watchPoints api)
    (thenE (drainDispatchQueue api)
     (enqueueE api PoisonPill))"

section \<open>Creating and destroying a server\<close>

text \<open>The members before the body of the constructor, and the constructor \<^verbatim>\<open>Server::Server\<close>.\<close>

definition init_apple_server :: "'w \<Rightarrow> 'w apple_server" where
  "init_apple_server w =
     \<lparr>world = w, errno = 0, pending = None, upcalls = [], terminated = False, deleted = False,
      apple_watchPoints = Map.empty, eventQueue = [], latencyInMillis = 0, nativeCalls = [],
      dispatchQueue = None\<rparr>"

definition construct_Server_apple :: "'w apple_api \<Rightarrow> int \<Rightarrow> ('w, unit) apple_action" where
  "construct_Server_apple api latency =
     thenE (construct_AbstractServer api)
    (thenE (modifyE (\<lambda>s. s\<lparr>latencyInMillis := latency\<rparr>))
    (bindE (getE (\<lambda>s. dispatchQueueCreate api (world s))) (\<lambda>r. case r of (q, w) \<Rightarrow>
     modifyE (\<lambda>s. s\<lparr>world := w, dispatchQueue := Some q, nativeCalls := nativeCalls s @ [Created q]\<rparr>))))"

text \<open>The destructor \<^verbatim>\<open>Server::~Server\<close>: its body releases the dispatch queue, then the members go, of which
  \<^verbatim>\<open>watchPoints\<close> destroys the watch points that are left.\<close>

definition destroy_Server_apple :: "'w apple_api \<Rightarrow> ('w, unit) apple_action" where
  "destroy_Server_apple api =
     bindE (getE dispatchQueue) (\<lambda>queue.
     case queue of
       None \<Rightarrow> ret ()
     | Some q \<Rightarrow>
         thenE (call api (Released q))
        (thenE (modifyE (\<lambda>s. s\<lparr>dispatchQueue := None\<rparr>))
         (clear_watchPoints api)))"

definition startWatcher0_apple :: "'w apple_api \<Rightarrow> int \<Rightarrow> ('w, unit) apple_action" where
  "startWatcher0_apple api latency = construct_Server_apple api latency"

text \<open>The server as an implementation of the virtual functions the JNI entry points call.\<close>

definition apple_ops :: "'w apple_api \<Rightarrow> ('w apple_server \<Rightarrow> 'w apple_server option) \<Rightarrow>
    ('w, \<lparr>apple_watchPoints :: u16string \<rightharpoonup> nat, eventQueue :: queue_item list,
          latencyInMillis :: int, nativeCalls :: native_call list, dispatchQueue :: nat option\<rparr>) server_ops" where
  "apple_ops api wake = \<lparr>op_initializeRunLoop = initializeRunLoop_apple,
     op_runLoop = runLoop_apple api wake,
     op_registerPaths = registerPaths_apple api, op_unregisterPaths = unregisterPaths_apple api,
     op_shutdownRunLoop = shutdownRunLoop_apple api\<rparr>"

end
