(* ===== verification/AppleInv.thy ===== *)
theory AppleInv
  imports AppleServer
begin

text \<open>
  The macOS server's invariant: every native object the code creates is released, or the stream of
  exactly one watch point, or the dispatch queue of the server, whatever FSEvents, Java and the allocator do. With it, the
  contract of \<open>Registry\<close>.
\<close>

section \<open>Who owns which object\<close>

definition balance :: "native_call list \<Rightarrow> nat \<Rightarrow> int" where
  "balance calls r = int (count_list calls (Created r)) - int (count_list calls (Released r))"

lemma balance_simps [simp]:
  "balance [] r = 0"
  "balance (Created q # calls) r = balance calls r + (if q = r then 1 else 0)"
  "balance (Released q # calls) r = balance calls r - (if q = r then 1 else 0)"
  "balance (QueueSet q # calls) r = balance calls r"
  "balance (Started q # calls) r = balance calls r"
  "balance (Stopped q # calls) r = balance calls r"
  "balance (Invalidated q # calls) r = balance calls r"
  by (simp_all add: balance_def)

lemma balance_append [simp]: "balance (calls @ rest) r = balance calls r + balance rest r"
  by (simp add: balance_def)

text \<open>The paths whose watch point holds a stream.\<close>

definition holders :: "(u16string \<rightharpoonup> nat) \<Rightarrow> nat \<Rightarrow> u16string set" where
  "holders points r = {p. points p = Some r}"

definition apple_inv :: "'w apple_server \<Rightarrow> bool" where
  "apple_inv s \<longleftrightarrow> finite (dom (apple_watchPoints s)) \<and>
     (\<forall>r. balance (nativeCalls s) r = int (card (holders (apple_watchPoints s) r)) +
        (if dispatchQueue s = Some r then 1 else 0))"

text \<open>What an operation does to the watch points, the queues and the balance.\<close>

definition owns :: "(u16string \<rightharpoonup> nat) \<Rightarrow> queue_item list \<times> nat option \<Rightarrow> (nat \<Rightarrow> int) \<Rightarrow>
    'w apple_server \<Rightarrow> bool" where
  "owns points q b s \<longleftrightarrow> apple_watchPoints s = points \<and> (eventQueue s, dispatchQueue s) = q \<and>
     balance (nativeCalls s) = b"

lemma owns_same_server: "same_server s s' \<Longrightarrow> owns points q b s' \<Longrightarrow> owns points q b s"
  by (cases s; cases s') (simp add: same_server_def owns_def)

lemma owns_framed: "framed m \<Longrightarrow> triple (owns p q b) m (\<lambda>_. owns p q b) (\<lambda>_. owns p q b)"
  unfolding keeps_def [symmetric] by (erule framed_keeps) (rule owns_same_server)

lemma construct_WatchPoint_owns:
  "triple (owns points q b) (construct_WatchPoint api path latency)
    (\<lambda>stream. owns points q (b(stream := b stream + 1))) (\<lambda>_. owns points q b)"
proof (rule tripleI)
  fix s stream s'
  assume "owns points q b s" "construct_WatchPoint api path latency s = (Inr stream, s')"
  then show "owns points q (b(stream := b stream + 1)) s'"
    by (auto simp: construct_WatchPoint_def createRef_def call_def exec_simps owns_def fun_eq_iff
        split: prod.splits option.splits if_splits)
next
  fix s e s'
  assume "owns points q b s" "construct_WatchPoint api path latency s = (Inl e, s')"
  then show "owns points q b s'"
    by (auto simp: construct_WatchPoint_def createRef_def call_def exec_simps owns_def fun_eq_iff
        split: prod.splits option.splits if_splits)
qed

lemma destroy_WatchPoint_run:
  "\<exists>s'. destroy_WatchPoint api stream s = (Inr (), s') \<and>
     apple_watchPoints s' = apple_watchPoints s \<and> eventQueue s' = eventQueue s \<and>
     dispatchQueue s' = dispatchQueue s \<and>
     balance (nativeCalls s') = (balance (nativeCalls s))(stream := balance (nativeCalls s) stream - 1) \<and>
     reports s' = reports s"
  by (auto simp: destroy_WatchPoint_def call_def exec_simps fun_eq_iff reports_def)

section \<open>Every operation keeps it\<close>

lemma holders_insert:
  assumes "points p = None" and "finite (dom points)"
  shows "card (holders (points(p \<mapsto> r)) q) = card (holders points q) + (if q = r then 1 else 0)"
proof -
  have "finite (holders points q)"
    by (rule finite_subset [OF _ assms(2)]) (auto simp: holders_def)
  moreover have "holders (points(p \<mapsto> r)) q = (if q = r then insert p (holders points q) else holders points q)"
    using assms(1) by (auto simp: holders_def)
  moreover have "p \<notin> holders points q" using assms(1) by (simp add: holders_def)
  ultimately show ?thesis by (cases "q = r") auto
qed

lemma holders_remove:
  assumes "points p = Some r" and "finite (dom points)"
  shows "int (card (holders (points(p := None)) q)) = int (card (holders points q)) - (if q = r then 1 else 0)"
proof -
  have "(points(p := None))(p \<mapsto> r) = points" using assms(1) by auto
  then show ?thesis
    using holders_insert [of "points(p := None)" p r q] assms(2) by simp
qed

lemma registerPath_apple_cases:
  assumes "registerPath_apple api path s = (r, s')"
  obtains (registered) stream where "r = Inr ()" "apple_watchPoints s path = None"
      "owns ((apple_watchPoints s)(path \<mapsto> stream)) (eventQueue s, dispatchQueue s)
        ((balance (nativeCalls s))(stream := balance (nativeCalls s) stream + 1)) s'"
  | (failed) e where "r = Inl e"
      "owns (apple_watchPoints s) (eventQueue s, dispatchQueue s) (balance (nativeCalls s)) s'"
proof -
  have own: "owns (apple_watchPoints s) (eventQueue s, dispatchQueue s) (balance (nativeCalls s)) s"
    by (simp add: owns_def)
  obtain r1 s1 where c: "construct_WatchPoint api path (latencyInMillis s) s = (r1, s1)" by fastforce
  show thesis
  proof (cases "apple_watchPoints s path")
    case (Some x)
    with assms own failed show thesis by (auto simp: registerPath_apple_def exec_simps)
  next
    case None
    show thesis
    proof (cases r1)
      case (Inl e)
      with None c assms triple_errD [OF construct_WatchPoint_owns own] failed show thesis
        by (auto simp: registerPath_apple_def exec_simps)
    next
      case (Inr stream)
      with None c assms triple_okD [OF construct_WatchPoint_owns own] registered show thesis
        by (auto simp: registerPath_apple_def exec_simps owns_def)
    qed
  qed
qed

lemma unregisterPath_apple_cases:
  assumes "unregisterPath_apple api path s = (r, s')"
  obtains (removed) stream where "r = Inr True" "apple_watchPoints s path = Some stream"
      "owns ((apple_watchPoints s)(path := None)) (eventQueue s, dispatchQueue s)
        ((balance (nativeCalls s))(stream := balance (nativeCalls s) stream - 1)) s'"
  | (unwatched) "r \<noteq> Inr True" "apple_watchPoints s path = None" "same_server s' s"
proof (cases "apple_watchPoints s path")
  case (Some stream)
  with assms removed destroy_WatchPoint_run [of api stream "s\<lparr>apple_watchPoints := (apple_watchPoints s)(path := None)\<rparr>"]
  show thesis by (auto simp: unregisterPath_apple_def exec_simps owns_def)
next
  case None
  have "framed (bindE (liftE (utf16ToUtf8String path)) (\<lambda>path8.
         thenE (logToJava api INFO_LEVEL ''Path is not watched: %s'' [Str path8])
         (ret False)) :: ('a, bool) apple_action)"
    by (intro framed_rules)
  from framedD [OF this, of s] None assms unwatched show thesis
    by (auto simp: unregisterPath_apple_def run_get_bind)
       (auto simp: exec_simps split: sum.splits prod.splits)
qed

lemma apple_inv_owns:
  "owns points q b s \<Longrightarrow> apple_inv s \<longleftrightarrow> finite (dom points) \<and>
     (\<forall>r. b r = int (card (holders points r)) + (if snd q = Some r then 1 else 0))"
  by (cases q) (simp add: owns_def apple_inv_def)

lemma apple_inv_registered:
  assumes "apple_inv s" and "apple_watchPoints s p = None"
    and "owns ((apple_watchPoints s)(p \<mapsto> stream)) (q, dispatchQueue s)
      ((balance (nativeCalls s))(stream := balance (nativeCalls s) stream + 1)) s'"
  shows "apple_inv s'"
  using assms(1) holders_insert [of "apple_watchPoints s" p stream, OF assms(2)] unfolding apple_inv_owns [OF assms(3)]
  by (simp add: apple_inv_def)

lemma apple_inv_removed:
  assumes "apple_inv s" and "apple_watchPoints s p = Some stream"
    and "owns ((apple_watchPoints s)(p := None)) (q, dispatchQueue s)
      ((balance (nativeCalls s))(stream := balance (nativeCalls s) stream - 1)) s'"
  shows "apple_inv s'"
  using assms(1) holders_remove [of "apple_watchPoints s" p stream, OF assms(2)] unfolding apple_inv_owns [OF assms(3)]
  by (simp add: apple_inv_def)

lemma apple_inv_same_server: "same_server s s' \<Longrightarrow> apple_inv s' \<Longrightarrow> apple_inv s"
  by (cases s; cases s') (simp add: same_server_def apple_inv_def)

lemma framed_keeps_apple_inv: "framed m \<Longrightarrow> keeps apple_inv m"
  by (erule framed_keeps) (rule apple_inv_same_server)

lemma registerPath_apple_keeps: "keeps apple_inv (registerPath_apple api path)"
proof (rule keepsI)
  fix s :: "'a apple_server" assume inv: "apple_inv s"
  obtain r s' where run: "registerPath_apple api path s = (r, s')" by fastforce
  then have "apple_inv s'"
  proof (cases rule: registerPath_apple_cases)
    case (registered stream)
    then show ?thesis using apple_inv_registered [OF inv] by blast
  next
    case (failed e)
    then show ?thesis using inv by (simp add: owns_def apple_inv_def)
  qed
  with run show "apple_inv (snd (registerPath_apple api path s))" by simp
qed

lemma unregisterPath_apple_keeps: "keeps apple_inv (unregisterPath_apple api path)"
proof (rule keepsI)
  fix s :: "'a apple_server" assume inv: "apple_inv s"
  obtain r s' where run: "unregisterPath_apple api path s = (r, s')" by fastforce
  then have "apple_inv s'"
  proof (cases rule: unregisterPath_apple_cases)
    case (removed stream)
    then show ?thesis using apple_inv_removed [OF inv] by blast
  next
    case unwatched
    then show ?thesis using inv apple_inv_same_server by blast
  qed
  with run show "apple_inv (snd (unregisterPath_apple api path s))" by simp
qed

lemma destroy_at_run:
  "\<exists>s'. destroy_at api path s = (Inr (), s') \<and> (apple_inv s \<longrightarrow> apple_inv s') \<and>
     apple_watchPoints s' = (apple_watchPoints s)(path := None) \<and> eventQueue s' = eventQueue s \<and>
     dispatchQueue s' = dispatchQueue s \<and> reports s' = reports s"
proof (cases "apple_watchPoints s path")
  case None
  then show ?thesis by (auto simp: destroy_at_def exec_simps fun_upd_idem)
next
  case (Some stream)
  obtain s1 where s1: "destroy_WatchPoint api stream s = (Inr (), s1)"
    "apple_watchPoints s1 = apple_watchPoints s" "eventQueue s1 = eventQueue s"
    "dispatchQueue s1 = dispatchQueue s" "balance (nativeCalls s1) = (balance (nativeCalls s))(stream := balance (nativeCalls s) stream - 1)"
    "reports s1 = reports s"
    using destroy_WatchPoint_run by blast
  let ?s' = "s1\<lparr>apple_watchPoints := (apple_watchPoints s1)(path := None)\<rparr>"
  have "owns ((apple_watchPoints s)(path := None)) (eventQueue s, dispatchQueue s)
      ((balance (nativeCalls s))(stream := balance (nativeCalls s) stream - 1)) ?s'"
    using s1 by (simp add: owns_def)
  then have "apple_inv s \<longrightarrow> apple_inv ?s'" using apple_inv_removed [OF _ Some] by blast
  moreover have "destroy_at api path s = (Inr (), ?s')"
    using Some s1(1) by (simp add: destroy_at_def run_bindE run_getE run_thenE run_modifyE)
  moreover have "reports ?s' = reports s" using s1(6) by (simp add: reports_def)
  ultimately show ?thesis using s1(2,3,4) by auto
qed

lemma destroy_at_keeps: "keeps apple_inv (destroy_at api path)"
  by (rule keepsI) (metis destroy_at_run snd_conv)

lemma enqueueE_keeps: "keeps apple_inv (enqueueE api item)"
  unfolding enqueueE_def
  by (intro keeps_rules keeps_modifyE) (simp add: enqueue_def apple_inv_def)

lemma handleEvents_apple_keeps: "keeps apple_inv (handleEvents_apple api events)"
  unfolding handleEvents_apple_def by (auto intro!: keeps_rules enqueueE_keeps split: prod.split)

section \<open>The contract of registration\<close>

definition watched_apple :: "'w apple_server \<Rightarrow> u16string set" where
  "watched_apple s = dom (apple_watchPoints s)"

lemma watchPoints_same_server: "same_server s s' \<Longrightarrow> apple_watchPoints s = apple_watchPoints s'"
  by (cases s; cases s') (simp add: same_server_def)

lemma unregisterPath_apple_watched:
  assumes "unregisterPath_apple api p s = (r, s')"
  shows "(r = Inr True \<and> p \<in> watched_apple s \<and> watched_apple s' = watched_apple s - {p}) \<or>
    (r \<noteq> Inr True \<and> p \<notin> watched_apple s \<and> watched_apple s' = watched_apple s)"
  using assms
  by (cases rule: unregisterPath_apple_cases)
     (auto dest: watchPoints_same_server simp: owns_def watched_apple_def)

interpretation apple_registry: strict_path_registry apple_inv watched_apple
    "registerPath_apple api" "unregisterPath_apple api" for api
proof unfold_locales
  fix s :: "'a apple_server" and s' p and e :: exn and r
  show "registerPath_apple api p s = (Inr (), s') \<Longrightarrow>
      p \<notin> watched_apple s \<and> watched_apple s' = insert p (watched_apple s)"
    by (erule registerPath_apple_cases) (auto simp: owns_def watched_apple_def)
  show "registerPath_apple api p s = (Inl e, s') \<Longrightarrow> watched_apple s' = watched_apple s"
    by (erule registerPath_apple_cases) (auto simp: owns_def watched_apple_def)
  show "unregisterPath_apple api p s = (Inr True, s') \<Longrightarrow> watched_apple s' = watched_apple s - {p}"
    using unregisterPath_apple_watched by blast
  show "unregisterPath_apple api p s = (r, s') \<Longrightarrow>
      watched_apple s - {p} \<subseteq> watched_apple s' \<and> watched_apple s' \<subseteq> watched_apple s"
    using unregisterPath_apple_watched by blast
  show "unregisterPath_apple api p s = (Inr True, s') \<Longrightarrow> p \<in> watched_apple s"
    using unregisterPath_apple_watched by blast
qed (rule registerPath_apple_keeps unregisterPath_apple_keeps)+

end
