(* ===== verification/AppleProps.thy ===== *)
theory AppleProps
  imports AppleInv "HOL-Library.List_Lexorder"
begin

text \<open>
  The properties of the macOS server: what each item of the event queue is reported as, that the
  run loop handles the queue in order and ends with everything that was delivered before the
  shutdown, and that no native object is leaked.
\<close>

section \<open>What an item is reported as\<close>

definition flags_reports :: "flags32 \<Rightarrow> u16string \<Rightarrow> upcall list" where
  "flags_reports flags path =
     (if flags AND NOT IGNORED_FLAGS = 0 then []
      else if IS_SET flags MustScanSubDirs then [ReportOverflow path]
      else if IS_SET flags RootChanged \<or> IS_SET flags Mount \<or> IS_SET flags Unmount
      then [ReportChangeEvent 3 path]
      else if IS_SET flags ItemRenamed
      then [ReportChangeEvent (if IS_SET flags ItemCreated then 1 else 0) path]
      else if IS_SET flags ItemModified then [ReportChangeEvent 2 path]
      else if IS_SET flags ItemRemoved then [ReportChangeEvent 1 path]
      else if IS_SET flags ItemInodeMetaMod \<or> IS_SET flags ItemFinderInfoMod \<or>
        IS_SET flags ItemChangeOwner \<or> IS_SET flags ItemXattrMod then [ReportChangeEvent 2 path]
      else if IS_SET flags ItemCreated then [ReportChangeEvent 0 path]
      else [ReportUnknownEvent path])"

lemma flags_reports_eq:
  "flags_reports flags path =
     (if flags AND NOT IGNORED_FLAGS = 0 then []
      else if IS_SET flags MustScanSubDirs then [ReportOverflow path]
      else case change_type_of_flags flags of
        None \<Rightarrow> [ReportUnknownEvent path]
      | Some t \<Rightarrow> [ReportChangeEvent (change_type_value t) path])"
  by (simp add: flags_reports_def change_type_of_flags_def IS_SET_or)

fun item_ok :: "queue_item \<Rightarrow> bool" where
  "item_ok (FileEvent path flags eventId) \<longleftrightarrow> bytes_to_utf16 path \<noteq> None"
| "item_ok (ErrorEvent message) \<longleftrightarrow> bytes_to_utf16 message \<noteq> None"
| "item_ok PoisonPill \<longleftrightarrow> False"

fun item_reports :: "queue_item \<Rightarrow> upcall list" where
  "item_reports (FileEvent path flags eventId) = flags_reports flags (the (bytes_to_utf16 path))"
| "item_reports (ErrorEvent message) = [ReportFailure (the (bytes_to_utf16 message))]"
| "item_reports PoisonPill = []"

lemma bytes_to_utf16_c_str [simp]: "bytes_to_utf16 (c_str s) = bytes_to_utf16 s"
  by (simp add: bytes_to_utf16_def)

lemma framed_handleEvent_apple [framed_rules]: "framed (handleEvent_apple api path flags eventId)"
  unfolding handleEvent_apple_def by (intro framed_rules)

lemma handleEvent_apple_run:
  assumes jni: "jni_ok api" and name: "bytes_to_utf16 path = Some name"
  shows "\<exists>s'. handleEvent_apple api path flags eventId s = (Inr (), s') \<and>
    reports s' = reports s @ flags_reports flags name"
proof -
  obtain p8 where "utf16_to_bytes name = Some p8"
    using bytes_to_utf16_convertible [OF name] by (auto simp: convertible_def)
  with name show ?thesis
    by (simp add: handleEvent_apple_def run_thenE run_bindE run_liftE utf8ToUtf16String_def
        logToJava_ok [OF jni] flags_reports_eq reportOverflow_ok [OF jni] reportUnknownEvent_run
        reportChangeEvent_run split: option.split)
qed

lemma handleEvent_apple_bad:
  assumes jni: "jni_ok api" and "bytes_to_utf16 path = None"
  shows "\<exists>s'. handleEvent_apple api path flags eventId s = (Inl (StdException RangeError), s') \<and>
    reports s' = reports s"
  using assms(2)
  by (simp add: handleEvent_apple_def run_thenE run_bindE run_liftE utf8ToUtf16String_def
      logToJava_ok [OF jni])

text \<open>One item of the queue, handled as the run loop does; the poison pill is not handled.\<close>

definition handle_item :: "'w apple_api \<Rightarrow> queue_item \<Rightarrow> ('w, unit) apple_action" where
  "handle_item api item =
     (case item of
        FileEvent path flags eventId \<Rightarrow> handleEvent_apple api (c_str path) flags eventId
      | ErrorEvent message \<Rightarrow> reportFailure_message api (c_str message)
      | PoisonPill \<Rightarrow> ret ())"

lemma runLoopItems_step:
  "runLoopItems api wake s =
     (case dequeue wake s of
        None \<Rightarrow> None
      | Some (item, s1) \<Rightarrow>
          if item = PoisonPill then Some (Inr (), s1)
          else (case handle_item api item s1 of
             (Inl e, s2) \<Rightarrow> Some (Inl e, s2)
           | (Inr _, s2) \<Rightarrow> runLoopItems api wake s2))"
  by (subst runLoopItems.simps) (auto simp: handle_item_def split: option.splits queue_item.splits)

lemma framed_handle_item: "framed (handle_item api item)"
  unfolding handle_item_def by (cases item) (auto intro: framed_rules)

lemma queue_same_server: "same_server s s' \<Longrightarrow> eventQueue s = eventQueue s'"
  by (cases s; cases s') (simp add: same_server_def)

lemma handle_item_run:
  assumes "jni_ok api" and "item \<noteq> PoisonPill"
  shows "if item_ok item
    then \<exists>s'. handle_item api item s = (Inr (), s') \<and> reports s' = reports s @ item_reports item \<and>
      same_server s' s
    else \<exists>s'. handle_item api item s = (Inl (StdException RangeError), s') \<and>
      reports s' = reports s \<and> same_server s' s"
proof (cases item)
  case (FileEvent path flags eventId)
  then show ?thesis
    using handleEvent_apple_run [OF assms(1), of "c_str path" _ flags eventId s]
      handleEvent_apple_bad [OF assms(1), of "c_str path" flags eventId s]
      framedD [OF framed_handle_item, of api item s]
    by (fastforce simp: handle_item_def)
next
  case (ErrorEvent message)
  then show ?thesis
    using framedD [OF framed_handle_item, of api item s]
    by (auto simp: handle_item_def reportFailure_message_run utf8ToUtf16String_def)
next
  case PoisonPill
  with assms(2) show ?thesis by simp
qed

section \<open>The queue\<close>

interpretation event_queue: fifo eventQueue enqueue pop_front
  by unfold_locales (auto simp: enqueue_def pop_front_def split: list.splits)

section \<open>The run loop\<close>

lemma dequeue_ready:
  "eventQueue s = item # rest \<Longrightarrow> dequeue wake s = Some (item, s\<lparr>eventQueue := rest\<rparr>)"
  by (simp add: dequeue_def cv_wait_ready pop_front_def)

lemma runLoopItems_drains:
  assumes jni: "jni_ok api"
    and "eventQueue s = items @ PoisonPill # rest" and "\<forall>item\<in>set items. item_ok item"
  shows "\<exists>s'. runLoopItems api wake s = Some (Inr (), s') \<and> eventQueue s' = rest \<and>
    reports s' = reports s @ concat (map item_reports items)"
  using assms(2,3)
proof (induction items arbitrary: s)
  case Nil
  then show ?case
    by (subst runLoopItems_step) (simp add: dequeue_ready reports_def)
next
  case (Cons item items)
  let ?s1 = "s\<lparr>eventQueue := items @ PoisonPill # rest\<rparr>"
  have deq: "dequeue wake s = Some (item, ?s1)" using Cons.prems(1) by (intro dequeue_ready) simp
  have ok: "item_ok item" "item \<noteq> PoisonPill" using Cons.prems(2) by auto
  from handle_item_run [OF jni ok(2), of ?s1] ok(1) obtain s2 where
    s2: "handle_item api item ?s1 = (Inr (), s2)" "reports s2 = reports ?s1 @ item_reports item"
    "same_server s2 ?s1" by auto
  have "eventQueue s2 = items @ PoisonPill # rest" using queue_same_server [OF s2(3)] by simp
  from Cons.IH [OF this] Cons.prems(2) obtain s' where s': "runLoopItems api wake s2 = Some (Inr (), s')"
    "eventQueue s' = rest" "reports s' = reports s2 @ concat (map item_reports items)" by auto
  have "runLoopItems api wake s = Some (Inr (), s')"
    using deq ok(2) s2(1) s'(1) by (subst runLoopItems_step) simp
  with s' s2(2) show ?case by (auto simp: reports_def)
qed

text \<open>While the run loop waits, other threads only add items.\<close>

definition wake_adds :: "('w apple_server \<Rightarrow> 'w apple_server option) \<Rightarrow> bool" where
  "wake_adds wake \<longleftrightarrow> (\<forall>s s'. wake s = Some s' \<longrightarrow>
     reports s' = reports s \<and> (\<exists>arrived. eventQueue s' = eventQueue s @ arrived))"

lemma dequeue_result:
  assumes "wake_adds wake" and "dequeue wake s = Some (item, s1)"
  shows "reports s1 = reports s \<and> (\<exists>arrived. eventQueue s @ arrived = item # eventQueue s1)"
proof -
  obtain s2 where s2: "cv_wait wake (\<lambda>s. eventQueue s \<noteq> []) s = Some s2" "pop_front s2 = Some (item, s1)"
    using assms(2) by (auto simp: dequeue_def split: option.splits)
  let ?R = "\<lambda>s s'. reports s' = reports s \<and> (\<exists>arrived. eventQueue s' = eventQueue s @ arrived)"
  have "eventQueue s2 \<noteq> [] \<and> ?R s s2"
    by (rule cv_wait_result [OF s2(1)])
       (use assms(1) in \<open>auto simp: wake_adds_def, metis append.assoc\<close>)
  moreover have "eventQueue s2 = item # eventQueue s1 \<and> reports s1 = reports s2"
  proof
    show "eventQueue s2 = item # eventQueue s1" by (rule event_queue.take1_Some [OF s2(2)])
    show "reports s1 = reports s2" using s2(2) by (auto simp: pop_front_def reports_def split: list.splits)
  qed
  ultimately show ?thesis by metis
qed

definition loop_history :: "'w apple_server \<Rightarrow> 'w apple_server \<Rightarrow> bool" where
  "loop_history s s' \<longleftrightarrow> (\<exists>handled arrived.
     eventQueue s @ arrived = handled @ [PoisonPill] @ eventQueue s' \<and>
     PoisonPill \<notin> set handled \<and> reports s' = reports s @ concat (map item_reports handled))"

lemma loop_history_end:
  assumes "wake_adds wake" and "dequeue wake s = Some (PoisonPill, s')"
  shows "loop_history s s'"
proof -
  obtain arrived where "reports s' = reports s" "eventQueue s @ arrived = PoisonPill # eventQueue s'"
    using dequeue_result [OF assms] by blast
  then show ?thesis
    unfolding loop_history_def by (intro exI [of _ "[]"] exI [of _ arrived]) simp
qed

lemma loop_history_item:
  assumes "wake_adds wake" and "dequeue wake s = Some (item, s1)" and "item \<noteq> PoisonPill"
    and "reports s2 = reports s1 @ item_reports item" and "eventQueue s2 = eventQueue s1"
    and "loop_history s2 s'"
  shows "loop_history s s'"
proof -
  obtain a1 where a1: "reports s1 = reports s" "eventQueue s @ a1 = item # eventQueue s1"
    using dequeue_result [OF assms(1,2)] by blast
  obtain handled a2 where h: "eventQueue s2 @ a2 = handled @ [PoisonPill] @ eventQueue s'"
    "PoisonPill \<notin> set handled" "reports s' = reports s2 @ concat (map item_reports handled)"
    using assms(6) by (auto simp: loop_history_def)
  have "eventQueue s @ (a1 @ a2) = (item # handled) @ [PoisonPill] @ eventQueue s'"
    using a1(2) h(1) assms(5) by (metis append.assoc append_Cons)
  with h(2,3) a1(1) assms(3,4) show ?thesis
    unfolding loop_history_def
    by (intro exI [of _ "item # handled"] exI [of _ "a1 @ a2"]) simp
qed

lemma runLoopItems_history:
  assumes jni: "jni_ok api" and wake: "wake_adds wake"
    and run: "runLoopItems api wake s = Some (Inr (), s')"
  shows "loop_history s s'"
proof -
  let ?P = "\<lambda>a wk (s :: 'a apple_server) (p :: (exn + unit) \<times> 'a apple_server). a = api \<and> wk = wake \<and> fst p = Inr () \<longrightarrow> loop_history s (snd p)"
  have "?P api wake s (Inr (), s')"
  proof (rule runLoopItems.raw_induct [of ?P, OF _ run])
    fix rec a wk s and p :: "(exn + unit) \<times> 'a apple_server"
    assume IH: "\<And>a wk s p. rec a wk s = Some p \<Longrightarrow> ?P a wk s p"
      and body: "(case dequeue wk s of
        None \<Rightarrow> None
      | Some (PoisonPill, s1) \<Rightarrow> Some (Inr (), s1)
      | Some (FileEvent path flags eventId, s1) \<Rightarrow>
          (case handleEvent_apple a (c_str path) flags eventId s1 of
             (Inl e, s2) \<Rightarrow> Some (Inl e, s2)
           | (Inr _, s2) \<Rightarrow> rec a wk s2)
      | Some (ErrorEvent message, s1) \<Rightarrow>
          (case reportFailure_message a (c_str message) s1 of
             (Inl e, s2) \<Rightarrow> Some (Inl e, s2)
           | (Inr _, s2) \<Rightarrow> rec a wk s2)) = Some p"
    show "?P a wk s p"
    proof (intro impI, elim conjE)
      assume same: "a = api" "wk = wake" and ok: "fst p = Inr ()"
      with body obtain item s1 where deq: "dequeue wake s = Some (item, s1)"
        by (auto split: option.splits)
      show "loop_history s (snd p)"
      proof (cases "item = PoisonPill")
        case True
        with deq body same have "p = (Inr (), s1)" by simp
        with loop_history_end [OF wake] deq True show ?thesis by simp
      next
        case False
        obtain r s2 where s2: "handle_item api item s1 = (r, s2)" by fastforce
        have p: "(case r of Inl e \<Rightarrow> Some (Inl e, s2) | Inr _ \<Rightarrow> rec a wk s2) = Some p"
          using body deq same False s2
          by (auto simp: handle_item_def split: queue_item.splits prod.splits sum.splits)
        then have "r = Inr ()" using ok by (cases r) auto
        moreover from this p have "loop_history s2 (snd p)" using IH [of a wk s2 p] same ok by auto
        moreover have "reports s2 = reports s1 @ item_reports item" "same_server s2 s1"
          using handle_item_run [OF jni False, of s1] s2 \<open>r = Inr ()\<close>
          by (auto split: if_splits)
        ultimately show ?thesis
          using loop_history_item [OF wake deq False] queue_same_server by blast
      qed
    qed
  qed
  then show ?thesis by simp
qed

text \<open>
  C6: Whatever the other threads enqueue while it waits, a run loop that returns normally has
  handled exactly the items in front of the first poison pill, each once and in the order of the
  queue, and reported each as what it means; what is behind the poison pill stays in the queue.
\<close>

theorem apple_runLoop_in_order:
  assumes "jni_ok api" and "wake_adds wake" and "runLoop_apple api wake s = Some (Inr (), s')"
  shows "\<exists>handled arrived.
     eventQueue s @ arrived = handled @ [PoisonPill] @ eventQueue s' \<and>
     PoisonPill \<notin> set handled \<and> reports s' = reports s @ concat (map item_reports handled)"
proof -
  have "runLoopItems api wake s = Some (Inr (), s')"
    using assms(3) by (simp add: runLoop_apple_def getThreadEnv_ok [OF assms(1)])
  from runLoopItems_history [OF assms(1,2) this] show ?thesis by (simp only: loop_history_def)
qed

text \<open>An operating system that starts every stream, numbered by the world.\<close>

definition quiet_apple :: "nat apple_api" where
  "quiet_apple = jni.extend quiet_jni \<lparr> dispatchQueueCreate = (\<lambda>w. (w, w + 1)),
     cfStringCreate = (\<lambda>_ w. (Some w, w + 1)), cfArrayCreate = (\<lambda>w. (Some w, w + 1)),
     streamCreate = (\<lambda>_ _ _ w. (Some w, w + 1)), streamStart = (\<lambda>_ w. (True, w)),
     onCall = (\<lambda>_ w. w), dispatchSync = (\<lambda>w. ([[(''/a'', ItemCreated, 7)]], w)),
     enqueueThrows = (\<lambda>_ _. None), clearOrder = (\<lambda>D w. sorted_list_of_set D)\<rparr>"

lemma quiet_apple_select [simp]:
  "getJavaVM quiet_apple = (\<lambda>_. 0)" "newGlobalRef quiet_apple = (\<lambda>_. True)"
  "getEnv quiet_apple = (\<lambda>_. JNI_OK)" "stringCritical quiet_apple = (\<lambda>_ _. True)"
  "throwNew quiet_apple = (\<lambda>_ _ _. 0)" "callJava quiet_apple = (\<lambda>_ w. (None, w))"
  "dispatchQueueCreate quiet_apple = (\<lambda>w. (w, w + 1))"
  "cfStringCreate quiet_apple = (\<lambda>_ w. (Some w, w + 1))"
  "cfArrayCreate quiet_apple = (\<lambda>w. (Some w, w + 1))"
  "streamCreate quiet_apple = (\<lambda>_ _ _ w. (Some w, w + 1))"
  "streamStart quiet_apple = (\<lambda>_ w. (True, w))" "onCall quiet_apple = (\<lambda>_ w. w)"
  "dispatchSync quiet_apple = (\<lambda>w. ([[(''/a'', ItemCreated, 7)]], w))"
  "enqueueThrows quiet_apple = (\<lambda>_ _. None)"
  "clearOrder quiet_apple = (\<lambda>D w. sorted_list_of_set D)"
  by (simp_all add: quiet_apple_def jni.defs quiet_jni_def)

lemma quiet_apple_ok: "jni_ok quiet_apple"
  by (simp add: jni_ok_def)

text \<open>A server that was created there.\<close>

definition sample_apple :: "nat apple_server" where
  "sample_apple = snd (startWatcher0_apple quiet_apple 300 (init_apple_server 0))"

lemma sample_apple_created:
  "startWatcher0_apple api latency (init_apple_server w) = (r, s) \<Longrightarrow> vm_ok api \<Longrightarrow>
    r = Inr () \<and> s = (init_apple_server w)\<lparr>latencyInMillis := latency,
      world := snd (dispatchQueueCreate api w), dispatchQueue := Some (fst (dispatchQueueCreate api w)),
      nativeCalls := [Created (fst (dispatchQueueCreate api w))]\<rparr>"
  by (auto simp: startWatcher0_apple_def construct_Server_apple_def construct_AbstractServer_ok
      exec_simps init_apple_server_def split: prod.splits)

lemma quiet_apple_vm: "vm_ok quiet_apple"
  by (simp add: vm_ok_def)

lemma sample_apple_start:
  "startWatcher0_apple quiet_apple 300 (init_apple_server 0) = (Inr (), sample_apple)"
  using sample_apple_created [OF surjective_pairing quiet_apple_vm, of 300 0]
  by (simp add: sample_apple_def prod_eq_iff)

lemma sample_apple_eq:
  "sample_apple = (init_apple_server 0)\<lparr>latencyInMillis := 300, world := 1, dispatchQueue := Some 0,
     nativeCalls := [Created 0]\<rparr>"
  using sample_apple_created [OF sample_apple_start quiet_apple_vm] by simp

lemma sample_apple_fields [simp]:
  "eventQueue sample_apple = []" "apple_watchPoints sample_apple = Map.empty"
  "nativeCalls sample_apple = [Created 0]" "upcalls sample_apple = []" "world sample_apple = 1"
  "dispatchQueue sample_apple = Some 0"
  by (simp_all add: sample_apple_eq init_apple_server_def)

text \<open>Another thread enqueues the poison pill while the loop waits.\<close>

definition shutdown_wake :: "nat apple_server \<Rightarrow> nat apple_server option" where
  "shutdown_wake s = Some (enqueue PoisonPill s)"

lemma shutdown_wake_adds: "wake_adds shutdown_wake"
  by (auto simp: wake_adds_def shutdown_wake_def enqueue_def reports_def)

theorem apple_runLoop_in_order_witness:
  "\<exists>s'. runLoop_apple quiet_apple shutdown_wake sample_apple = Some (Inr (), s') \<and>
     (\<exists>handled arrived. arrived = handled @ [PoisonPill] @ eventQueue s' \<and>
        reports s' = concat (map item_reports handled))"
proof -
  let ?s' = "sample_apple\<lparr>eventQueue := []\<rparr>"
  have "cv_wait shutdown_wake (\<lambda>s. eventQueue s \<noteq> []) (enqueue PoisonPill sample_apple) =
      Some (enqueue PoisonPill sample_apple)"
    by (rule cv_wait_ready) (simp add: enqueue_def)
  then have "cv_wait shutdown_wake (\<lambda>s. eventQueue s \<noteq> []) sample_apple =
      Some (enqueue PoisonPill sample_apple)"
    by (subst cv_wait.simps) (simp add: shutdown_wake_def)
  then have "dequeue shutdown_wake sample_apple = Some (PoisonPill, ?s')"
    by (simp add: dequeue_def pop_front_def enqueue_def)
  then have run: "runLoop_apple quiet_apple shutdown_wake sample_apple = Some (Inr (), ?s')"
    by (simp add: runLoop_apple_def getThreadEnv_ok [OF quiet_apple_ok])
       (subst runLoopItems_step, simp)
  from apple_runLoop_in_order [OF quiet_apple_ok shutdown_wake_adds this] obtain handled arrived where
    "eventQueue sample_apple @ arrived = handled @ [PoisonPill] @ eventQueue ?s'"
    "reports ?s' = reports sample_apple @ concat (map item_reports handled)" by blast
  with run show ?thesis by (intro exI [of _ ?s']) (auto simp: reports_def)
qed

text \<open>The flags the FSEvents interface documents.\<close>

definition DOCUMENTED_FLAGS :: flags32 where "DOCUMENTED_FLAGS = 0x7FFFFF"

lemma flags_partition:
  "NOT DOCUMENTED_FLAGS OR MustScanSubDirs OR (RootChanged OR Mount OR Unmount) OR ItemRenamed OR
   ItemModified OR ItemRemoved OR
   (ItemInodeMetaMod OR ItemFinderInfoMod OR ItemChangeOwner OR ItemXattrMod) OR ItemCreated =
   NOT IGNORED_FLAGS"
  by (simp add: DOCUMENTED_FLAGS_def IGNORED_FLAGS_def fsevent_flags)

lemma documented_unknown:
  assumes "flags AND NOT DOCUMENTED_FLAGS = 0" and "flags AND NOT IGNORED_FLAGS \<noteq> 0"
    and "\<not> IS_SET flags MustScanSubDirs"
  shows "change_type_of_flags flags \<noteq> None"
proof
  assume none: "change_type_of_flags flags = None"
  have "\<not> IS_SET flags (NOT DOCUMENTED_FLAGS)" using assms(1) by (simp add: IS_SET_def)
  with none assms(3) have "\<not> IS_SET flags (NOT IGNORED_FLAGS)"
    unfolding flags_partition [symmetric]
    by (auto simp: IS_SET_or change_type_of_flags_def split: if_splits)
  with assms(2) show False by (simp add: IS_SET_def)
qed

text \<open>
  C22: Every event of macOS is accounted for: for flags that the FSEvents interface documents, the
  handler reports nothing exactly where only ignored flags are set, makes one report otherwise, and
  never reports an unknown event; those are left to flags a later macOS may add.
\<close>

theorem apple_flags_accounted:
  assumes "jni_ok api" and "bytes_to_utf16 path = Some name" and "flags AND NOT DOCUMENTED_FLAGS = 0"
  shows "\<exists>s' rs. handleEvent_apple api path flags eventId s = (Inr (), s') \<and>
    reports s' = reports s @ rs \<and> (rs = [] \<longleftrightarrow> flags AND NOT IGNORED_FLAGS = 0) \<and>
    length rs \<le> 1 \<and> ReportUnknownEvent name \<notin> set rs"
proof -
  obtain s' where "handleEvent_apple api path flags eventId s = (Inr (), s')"
    "reports s' = reports s @ flags_reports flags name"
    using handleEvent_apple_run [OF assms(1,2)] by blast
  moreover have "(flags_reports flags name = [] \<longleftrightarrow> flags AND NOT IGNORED_FLAGS = 0) \<and>
      length (flags_reports flags name) \<le> 1 \<and> ReportUnknownEvent name \<notin> set (flags_reports flags name)"
    by (cases "flags AND NOT IGNORED_FLAGS = 0"; cases "IS_SET flags MustScanSubDirs";
        cases "change_type_of_flags flags")
       (auto simp: flags_reports_eq dest: documented_unknown [OF assms(3)])
  ultimately show ?thesis by blast
qed

theorem apple_flags_accounted_witness:
  "\<exists>s' rs. handleEvent_apple quiet_apple ''/a'' (ItemRenamed OR ItemIsFile) 5 sample_apple = (Inr (), s') \<and>
     reports s' = rs \<and> length rs = 1"
proof -
  have name: "bytes_to_utf16 ''/a'' = Some [0x2F, 0x61]"
    by (simp add: bytes_to_utf16_ascii)
  have "(ItemRenamed OR ItemIsFile) AND NOT DOCUMENTED_FLAGS = 0"
    by (simp add: DOCUMENTED_FLAGS_def fsevent_flags)
  from apple_flags_accounted [OF quiet_apple_ok name this, of 5 sample_apple] obtain s' rs where
    s': "handleEvent_apple quiet_apple ''/a'' (ItemRenamed OR ItemIsFile) 5 sample_apple = (Inr (), s')"
    "reports s' = reports sample_apple @ rs"
    "rs = [] \<longleftrightarrow> (ItemRenamed OR ItemIsFile) AND NOT IGNORED_FLAGS = 0" "length rs \<le> 1" by blast
  have "(ItemRenamed OR ItemIsFile) AND NOT IGNORED_FLAGS \<noteq> 0"
    by (simp add: IGNORED_FLAGS_def fsevent_flags)
  with s' show ?thesis by (cases rs) (auto simp: reports_def)
qed

section \<open>Shutting down\<close>

definition delivered :: "(string \<times> flags32 \<times> 64 word) list \<Rightarrow> queue_item list" where
  "delivered events = map (\<lambda>(path, flags, eventId). FileEvent (c_str path) flags eventId) events"

definition enqueue_ok :: "'w apple_api \<Rightarrow> bool" where
  "enqueue_ok api \<longleftrightarrow> (\<forall>item w. enqueueThrows api item w = None)"

lemma enqueueE_ok: "enqueue_ok api \<Longrightarrow> enqueueE api item s = (Inr (), enqueue item s)"
  by (simp add: enqueueE_def enqueue_ok_def exec_simps)

lemma handleEvents_apple_ok:
  assumes "enqueue_ok api"
  shows "handleEvents_apple api events s =
    (Inr (), s\<lparr>eventQueue := eventQueue s @ delivered events\<rparr>)"
proof -
  have "forE events (\<lambda>(path, flags, eventId). enqueueE api (FileEvent (c_str path) flags eventId)) s =
      (Inr (), s\<lparr>eventQueue := eventQueue s @ delivered events\<rparr>)" for s
    by (induction events arbitrary: s)
       (auto simp: delivered_def exec_simps enqueueE_ok [OF assms] enqueue_def)
  then show ?thesis by (simp add: handleEvents_apple_def run_tryE)
qed

lemma forE_handleEvents_ok:
  assumes "enqueue_ok api"
  shows "forE batches (handleEvents_apple api) s =
    (Inr (), s\<lparr>eventQueue := eventQueue s @ delivered (concat batches)\<rparr>)"
proof (induction batches arbitrary: s)
  case Nil
  then show ?case by (simp add: delivered_def run_ret)
next
  case (Cons batch batches)
  then show ?case by (simp add: run_thenE handleEvents_apple_ok [OF assms] delivered_def)
qed

lemma clear_run:
  "\<exists>s'. forE paths (destroy_at api) s = (Inr (), s') \<and> (apple_inv s \<longrightarrow> apple_inv s') \<and>
     (\<forall>p. apple_watchPoints s' p = (if p \<in> set paths then None else apple_watchPoints s p)) \<and>
     eventQueue s' = eventQueue s \<and> dispatchQueue s' = dispatchQueue s \<and> reports s' = reports s"
proof (induction paths arbitrary: s)
  case Nil
  then show ?case by (simp add: run_ret)
next
  case (Cons path paths)
  obtain s1 where s1: "destroy_at api path s = (Inr (), s1)" "apple_inv s \<longrightarrow> apple_inv s1"
    "apple_watchPoints s1 = (apple_watchPoints s)(path := None)" "eventQueue s1 = eventQueue s"
    "dispatchQueue s1 = dispatchQueue s" "reports s1 = reports s"
    using destroy_at_run by blast
  from Cons.IH [of s1] obtain s' where s': "forE paths (destroy_at api) s1 = (Inr (), s')"
    "apple_inv s1 \<longrightarrow> apple_inv s'"
    "\<forall>p. apple_watchPoints s' p = (if p \<in> set paths then None else apple_watchPoints s1 p)"
    "eventQueue s' = eventQueue s1" "dispatchQueue s' = dispatchQueue s1" "reports s' = reports s1" by blast
  have "forE (path # paths) (destroy_at api) s = (Inr (), s')" using s1(1) s'(1) by (simp add: run_thenE)
  with s1 s' show ?case by (intro exI [of _ s']) auto
qed

definition clear_ok :: "'w apple_api \<Rightarrow> bool" where
  "clear_ok api \<longleftrightarrow> (\<forall>D w. finite D \<longrightarrow> set (clearOrder api D w) = D)"

text \<open>\<^verbatim>\<open>shutdownRunLoop\<close>, where no allocation fails: every watch point is destroyed, and what the
  dispatch queue still holds is in the event queue, in front of the poison pill.\<close>

lemma shutdownRunLoop_apple_run:
  assumes "enqueue_ok api" and "clear_ok api" and "apple_inv s"
  shows "\<exists>s' events. shutdownRunLoop_apple api s = (Inr (), s') \<and> apple_inv s' \<and>
    apple_watchPoints s' = Map.empty \<and> reports s' = reports s \<and>
    eventQueue s' = eventQueue s @ delivered events @ [PoisonPill] \<and>
    (\<exists>w. events = concat (fst (dispatchSync api w)))"
proof -
  let ?order = "clearOrder api (dom (apple_watchPoints s)) (world s)"
  have order: "set ?order = dom (apple_watchPoints s)"
    using assms(2,3) by (simp add: clear_ok_def apple_inv_def)
  from clear_run [of ?order api s] obtain s1 where
    s1: "clear_watchPoints api s = (Inr (), s1)" "apple_inv s1" "eventQueue s1 = eventQueue s"
    "reports s1 = reports s"
    and wps: "\<forall>p. apple_watchPoints s1 p = (if p \<in> set ?order then None else apple_watchPoints s p)"
    using assms(3) by (auto simp: clear_watchPoints_def run_get_bind)
  have "apple_watchPoints s1 = Map.empty" using wps order by (auto simp: fun_eq_iff domIff)
  obtain batches w where d: "dispatchSync api (world s1) = (batches, w)" by fastforce
  let ?s2 = "s1\<lparr>world := w, eventQueue := eventQueue s1 @ delivered (concat batches)\<rparr>"
  have "drainDispatchQueue api s1 = (Inr (), ?s2)"
    using d by (simp add: drainDispatchQueue_def exec_simps forE_handleEvents_ok [OF assms(1)])
  then have run: "shutdownRunLoop_apple api s = (Inr (), enqueue PoisonPill ?s2)"
    using s1(1) by (simp add: shutdownRunLoop_apple_def run_thenE enqueueE_ok [OF assms(1)])
  have "\<exists>w'. concat batches = concat (fst (dispatchSync api w'))" using d by (metis fst_conv)
  moreover have "apple_inv (enqueue PoisonPill ?s2)" using s1(2) by (simp add: apple_inv_def enqueue_def)
  ultimately show ?thesis
    using run s1 \<open>apple_watchPoints s1 = Map.empty\<close>
    by (intro exI [of _ "enqueue PoisonPill ?s2"] exI [of _ "concat batches"])
       (simp add: enqueue_def reports_def)
qed

section \<open>Reachable states\<close>

inductive apple_step :: "'w apple_api \<Rightarrow> 'w apple_server \<Rightarrow> 'w apple_server \<Rightarrow> bool"
  for api :: "'w apple_api" where
  register: "registerPaths_apple api paths s = (r, s') \<Longrightarrow> apple_step api s s'"
| unregister: "unregisterPaths_apple api paths s = (r, s') \<Longrightarrow> apple_step api s s'"
| deliver: "handleEvents_apple api events s = (r, s') \<Longrightarrow> apple_step api s s'"
| destroy: "destroy_at api path s = (r, s') \<Longrightarrow> apple_step api s s'"
| poison: "enqueueE api PoisonPill s = (r, s') \<Longrightarrow> apple_step api s s'"
| destroy_server: "destroy_Server_apple api s = (r, s') \<Longrightarrow> apple_step api s s'"
| take: "pop_front s = Some (item, s') \<Longrightarrow> apple_step api s s'"
| other: "same_server s' s \<Longrightarrow> apple_step api s s'"

inductive apple_reachable :: "'w apple_api \<Rightarrow> 'w apple_server \<Rightarrow> bool" for api :: "'w apple_api" where
  start: "startWatcher0_apple api latency (init_apple_server w) = (Inr (), s) \<Longrightarrow> apple_reachable api s"
| next_step: "apple_reachable api s \<Longrightarrow> apple_step api s s' \<Longrightarrow> apple_reachable api s'"

lemma clear_watchPoints_keeps: "keeps apple_inv (clear_watchPoints api)"
  unfolding clear_watchPoints_def by (intro keeps_rules destroy_at_keeps)

lemma release_queue_inv:
  assumes "apple_inv s" "dispatchQueue s = Some q"
  shows "apple_inv (s\<lparr>world := w, nativeCalls := nativeCalls s @ [Released q], dispatchQueue := None\<rparr>)"
  using assms by (auto simp: apple_inv_def)

lemma destroy_Server_apple_run:
  "destroy_Server_apple api s =
    (case dispatchQueue s of
       None \<Rightarrow> (Inr (), s)
     | Some q \<Rightarrow> clear_watchPoints api (s\<lparr>world := onCall api (Released q) (world s),
         nativeCalls := nativeCalls s @ [Released q], dispatchQueue := None\<rparr>))"
  by (simp add: destroy_Server_apple_def call_def exec_simps split: option.split)

lemma destroy_Server_apple_keeps: "keeps apple_inv (destroy_Server_apple api)"
proof (rule keepsI)
  fix s :: "'a apple_server" assume "apple_inv s"
  then show "apple_inv (snd (destroy_Server_apple api s))"
    using keepsD [OF clear_watchPoints_keeps release_queue_inv]
    by (auto simp: destroy_Server_apple_run split: option.split)
qed

text \<open>A server that is destroyed has nothing left.\<close>

lemma destroy_Server_apple_empty:
  assumes "clear_ok api" "apple_inv s" "dispatchQueue s = Some q"
  obtains s' where "destroy_Server_apple api s = (Inr (), s')" "apple_inv s'"
    "apple_watchPoints s' = Map.empty" "dispatchQueue s' = None"
proof -
  let ?s1 = "s\<lparr>world := onCall api (Released q) (world s), nativeCalls := nativeCalls s @ [Released q],
      dispatchQueue := None\<rparr>"
  have inv: "apple_inv ?s1" using assms(2,3) by (rule release_queue_inv)
  let ?order = "clearOrder api (dom (apple_watchPoints ?s1)) (world ?s1)"
  have order: "set ?order = dom (apple_watchPoints s)"
    using assms(1,2) by (simp add: clear_ok_def apple_inv_def)
  from clear_run [of ?order api ?s1] obtain s' where
    s': "clear_watchPoints api ?s1 = (Inr (), s')" "apple_inv s'" "dispatchQueue s' = None"
    and wps: "\<forall>p. apple_watchPoints s' p = (if p \<in> set ?order then None else apple_watchPoints s p)"
    using inv by (auto simp: clear_watchPoints_def run_get_bind)
  have "apple_watchPoints s' = Map.empty" using wps order by (auto simp: fun_eq_iff domIff)
  with s' assms(3) show thesis by (intro that [of s']) (simp_all add: destroy_Server_apple_run)
qed

lemma apple_step_keeps_inv: "apple_step api s s' \<Longrightarrow> apple_inv s \<Longrightarrow> apple_inv s'"
proof (induction rule: apple_step.induct)
  case (register paths s r s')
  then show ?case
    unfolding registerPaths_apple_def using keepsD' [OF apple_registry.keeps_batches(1)] by blast
next
  case (unregister paths s r s')
  then show ?case
    unfolding unregisterPaths_apple_def using keepsD' [OF apple_registry.keeps_batches(2)] by blast
next
  case (deliver events s r s')
  then show ?case using keepsD' [OF handleEvents_apple_keeps] by blast
next
  case (destroy path s r s')
  then show ?case using keepsD' [OF destroy_at_keeps] by blast
next
  case (poison s r s')
  then show ?case using keepsD' [OF enqueueE_keeps] by blast
next
  case (destroy_server s r s')
  then show ?case using keepsD' [OF destroy_Server_apple_keeps] by blast
next
  case (take s item s')
  then show ?case by (auto simp: pop_front_def apple_inv_def split: list.splits)
next
  case (other s' s)
  then show ?case using apple_inv_same_server by blast
qed

lemma apple_inv_created:
  assumes "startWatcher0_apple api latency (init_apple_server w) = (Inr (), s)"
  shows "apple_inv s"
proof -
  have base: "framed (construct_AbstractServer api :: ('a, unit) apple_action)"
    by (rule silent_framed, rule silent_construct_AbstractServer)
  obtain s1 where s1: "construct_AbstractServer api (init_apple_server w) = (Inr (), s1)"
    "same_server s1 (init_apple_server w)"
    using assms framedD [OF base, of "init_apple_server w"]
    by (auto simp: startWatcher0_apple_def construct_Server_apple_def run_thenE split: prod.splits sum.splits)
  have "apple_watchPoints s1 = Map.empty" "nativeCalls s1 = []"
    using s1(2) by (cases s1; simp add: same_server_def init_apple_server_def)+
  then show ?thesis
    using assms s1(1)
    by (auto simp: startWatcher0_apple_def construct_Server_apple_def exec_simps apple_inv_def holders_def
        split: prod.splits)
qed

lemma apple_reachable_inv: "apple_reachable api s \<Longrightarrow> apple_inv s"
  by (induction rule: apple_reachable.induct) (auto intro: apple_inv_created apple_step_keeps_inv)

lemma sample_apple_reachable: "apple_reachable quiet_apple sample_apple"
  by (rule apple_reachable.start [OF sample_apple_start])

section \<open>Properties of the life cycle\<close>

text \<open>
  C10: No native object is leaked or released twice: in every reachable state each object the server
  created has been released, except that every stream is still owned by the watch points that hold
  it and the dispatch queue by the server, one reference each, also where creating a watch point
  failed half-way. So destroying a server leaves nothing behind: every object has been released as
  often as it was created.
\<close>

theorem apple_objects_owned:
  assumes "apple_reachable api s"
  shows "finite (watched_apple s) \<and>
    (\<forall>r. int (count_list (nativeCalls s) (Created r)) - int (count_list (nativeCalls s) (Released r)) =
       int (card {p. apple_watchPoints s p = Some r}) + (if dispatchQueue s = Some r then 1 else 0)) \<and>
    (clear_ok api \<longrightarrow> dispatchQueue s \<noteq> None \<longrightarrow>
      (\<exists>s'. destroy_Server_apple api s = (Inr (), s') \<and>
        (\<forall>r. count_list (nativeCalls s') (Created r) = count_list (nativeCalls s') (Released r))))"
proof (intro conjI impI)
  have inv: "apple_inv s" by (rule apple_reachable_inv [OF assms])
  then show "finite (watched_apple s)" "\<forall>r. int (count_list (nativeCalls s) (Created r)) -
      int (count_list (nativeCalls s) (Released r)) =
       int (card {p. apple_watchPoints s p = Some r}) + (if dispatchQueue s = Some r then 1 else 0)"
    by (simp_all add: apple_inv_def watched_apple_def balance_def holders_def)
  assume "clear_ok api" "dispatchQueue s \<noteq> None"
  then obtain s' where s': "destroy_Server_apple api s = (Inr (), s')" "apple_inv s'"
    "apple_watchPoints s' = Map.empty" "dispatchQueue s' = None"
    using destroy_Server_apple_empty [OF _ inv] by blast
  then show "\<exists>s'. destroy_Server_apple api s = (Inr (), s') \<and>
        (\<forall>r. count_list (nativeCalls s') (Created r) = count_list (nativeCalls s') (Released r))"
    by (intro exI [of _ s']) (simp add: apple_inv_def balance_def holders_def)
qed

text \<open>Starting the stream fails: the string, the array and the stream are released again.\<close>

definition unstartable_apple :: "nat apple_api" where
  "unstartable_apple = quiet_apple\<lparr>streamStart := \<lambda>_ w. (False, w)\<rparr>"

theorem apple_objects_owned_witness:
  "\<exists>s' s2. registerPaths_apple unstartable_apple [[0x2F]] sample_apple = (Inl
       (FileWatcherException_path ''Could not start the FSEvents stream'' [0x2F]), s') \<and>
     count_list (nativeCalls s') (Created 3) = 1 \<and> count_list (nativeCalls s') (Released 3) = 1 \<and>
     count_list (nativeCalls s') (Released 0) = 0 \<and>
     destroy_Server_apple unstartable_apple s' = (Inr (), s2) \<and>
     count_list (nativeCalls s2) (Created 0) = count_list (nativeCalls s2) (Released 0)"
proof -
  obtain s' where run: "registerPaths_apple unstartable_apple [[0x2F]] sample_apple = (Inl
       (FileWatcherException_path ''Could not start the FSEvents stream'' [0x2F]), s')"
    and none: "apple_watchPoints s' = Map.empty" and queue: "dispatchQueue s' = Some 0"
    and calls: "nativeCalls s' = [Created 0, Created 1, Created 2, Created 3, Released 2, Released 1, QueueSet 3,
      Invalidated 3, Released 3]"
    by (simp add: registerPaths_apple_def registerPath_apple_def construct_WatchPoint_def createRef_def
        call_def exec_simps unstartable_apple_def)
  have "startWatcher0_apple unstartable_apple 300 (init_apple_server 0) = (Inr (), sample_apple)"
    using sample_apple_start
    by (simp add: startWatcher0_apple_def construct_Server_apple_def construct_AbstractServer_ok
        exec_simps unstartable_apple_def vm_ok_def)
  then have reach: "apple_reachable unstartable_apple s'"
    by (intro apple_reachable.next_step [OF apple_reachable.start apple_step.register [OF run]])
  note owned = apple_objects_owned [OF reach]
  from owned [THEN conjunct2, THEN conjunct1, rule_format, of 3] none queue
  have "count_list (nativeCalls s') (Created 3) = count_list (nativeCalls s') (Released 3)" by simp
  moreover have "clear_ok unstartable_apple" by (simp add: clear_ok_def unstartable_apple_def)
  moreover obtain s2 where "destroy_Server_apple unstartable_apple s' = (Inr (), s2)"
    "count_list (nativeCalls s2) (Created 0) = count_list (nativeCalls s2) (Released 0)"
    using owned calculation(2) queue by auto
  ultimately show ?thesis using run calls by simp
qed

text \<open>
  C12: Shutting down loses no event, but events still arrive after \<^verbatim>\<open>shutdownRunLoop\<close> has returned:
  it destroys every watch point and reports nothing itself; when the run loop then ends, it has
  reported everything that was in the event queue and everything the dispatch queue still held, in
  order, the queue is empty, and the server is marked as terminated. (\<^verbatim>\<open>FileWatcher.shutdown\<close>
  documents that no more events arrive after the method returns.)
\<close>

theorem apple_shutdown_drains:
  assumes "jni_ok api" and "enqueue_ok api" and "clear_ok api" and "apple_reachable api s"
    and "\<forall>item\<in>set (eventQueue s). item_ok item"
    and "\<forall>w. \<forall>item\<in>set (delivered (concat (fst (dispatchSync api w)))). item_ok item"
  shows "\<exists>s1 s2 events. shutdownRunLoop_apple api s = (Inr (), s1) \<and> watched_apple s1 = {} \<and>
    reports s1 = reports s \<and>
    executeRunLoop api (runLoop_apple api wake) s1 = Some (Inr (), s2) \<and>
    eventQueue s2 = [] \<and> terminated s2 \<and>
    (\<exists>w. events = concat (fst (dispatchSync api w))) \<and>
    reports s2 = reports s1 @ concat (map item_reports (eventQueue s @ delivered events))"
proof -
  from shutdownRunLoop_apple_run [OF assms(2,3) apple_reachable_inv [OF assms(4)]]
  obtain s1 events where s1: "shutdownRunLoop_apple api s = (Inr (), s1)"
    "apple_watchPoints s1 = Map.empty" "reports s1 = reports s"
    "eventQueue s1 = (eventQueue s @ delivered events) @ [PoisonPill]"
    and events: "\<exists>w. events = concat (fst (dispatchSync api w))" by auto
  have "\<forall>item\<in>set (eventQueue s @ delivered events). item_ok item" using assms(5,6) events by auto
  from runLoopItems_drains [OF assms(1) s1(4) this, of wake] obtain s2 where s2:
    "runLoopItems api wake s1 = Some (Inr (), s2)" "eventQueue s2 = []"
    "reports s2 = reports s1 @ concat (map item_reports (eventQueue s @ delivered events))" by blast
  then have "executeRunLoop api (runLoop_apple api wake) s1 = Some (Inr (), s2\<lparr>terminated := True\<rparr>)"
    by (simp add: executeRunLoop_def runLoop_apple_def getThreadEnv_ok [OF assms(1)] exec_simps)
  with s1 s2 events show ?thesis
    by (intro exI [of _ s1] exI [of _ "s2\<lparr>terminated := True\<rparr>"] exI [of _ events])
       (simp add: watched_apple_def reports_def)
qed

lemma utf16_slash_a: "bytes_to_utf16 ''/a'' = Some [0x2F, 0x61]"
  by (simp add: bytes_to_utf16_ascii)

lemma c_str_slash_a: "c_str ''/a'' = ''/a''"
  by (simp add: c_str_def)

theorem apple_shutdown_drains_witness:
  "\<exists>s1 s2. shutdownRunLoop_apple quiet_apple sample_apple = (Inr (), s1) \<and> reports s1 = [] \<and>
     executeRunLoop quiet_apple (runLoop_apple quiet_apple (\<lambda>_. None)) s1 = Some (Inr (), s2) \<and>
     reports s2 = [ReportChangeEvent 0 [0x2F, 0x61]]"
proof -
  have "\<exists>s1 s2 events. shutdownRunLoop_apple quiet_apple sample_apple = (Inr (), s1) \<and>
      watched_apple s1 = {} \<and> reports s1 = reports sample_apple \<and>
      executeRunLoop quiet_apple (runLoop_apple quiet_apple (\<lambda>_. None)) s1 = Some (Inr (), s2) \<and>
      eventQueue s2 = [] \<and> terminated s2 \<and>
      (\<exists>w. events = concat (fst (dispatchSync quiet_apple w))) \<and>
      reports s2 = reports s1 @
        concat (map item_reports (eventQueue sample_apple @ delivered events))"
  proof (rule apple_shutdown_drains [OF quiet_apple_ok])
    show "enqueue_ok quiet_apple" "clear_ok quiet_apple" by (simp_all add: enqueue_ok_def clear_ok_def)
    show "apple_reachable quiet_apple sample_apple"
      by (rule sample_apple_reachable)
    show "\<forall>item\<in>set (eventQueue sample_apple). item_ok item" by simp
    show "\<forall>w. \<forall>item\<in>set (delivered (concat (fst (dispatchSync quiet_apple w)))). item_ok item"
      by (simp add: delivered_def c_str_slash_a utf16_slash_a)
  qed
  moreover have "concat (map item_reports (delivered (concat (fst (dispatchSync quiet_apple w))))) =
      [ReportChangeEvent 0 [0x2F, 0x61]]" for w
    by (simp add: delivered_def c_str_slash_a utf16_slash_a flags_reports_def change_type_of_flags_def
        fsevent_flags IGNORED_FLAGS_def IS_SET_def)
  moreover have "reports sample_apple = []" by (simp add: reports_def)
  ultimately show ?thesis by auto
qed

text \<open>
  C24: A path that is not valid UTF-8 ends the run loop on macOS: the conversion throws outside every
  handler of the loop, the items behind it are never reported, \<^verbatim>\<open>executeRunLoop\<close> leaves a
  \<^verbatim>\<open>NativeException\<close> pending and marks the server as terminated, though nobody shut it down.
\<close>

theorem apple_invalid_path_ends_loop:
  assumes "jni_ok api" and "\<forall>c m w. throwNew api c m w = 0"
    and "eventQueue s = FileEvent path flags eventId # rest" and "bytes_to_utf16 path = None"
  shows "\<exists>s'. executeRunLoop api (runLoop_apple api wake) s = Some (Inr (), s') \<and>
    terminated s' \<and> eventQueue s' = rest \<and> reports s' = reports s \<and>
    pending s' = Some (NativeThrown NATIVE_EXCEPTION (what api (StdException RangeError)))"
proof -
  let ?s1 = "s\<lparr>eventQueue := rest\<rparr>"
  from handle_item_run [OF assms(1), of "FileEvent path flags eventId" ?s1] assms(4)
  obtain s2 where s2: "handle_item api (FileEvent path flags eventId) ?s1 = (Inl (StdException RangeError), s2)"
    "reports s2 = reports ?s1" "same_server s2 ?s1" by auto
  have "runLoop_apple api wake s = Some (Inl (StdException RangeError), s2)"
    using s2(1) by (simp add: runLoop_apple_def getThreadEnv_ok [OF assms(1)])
      (subst runLoopItems_step, simp add: dequeue_ready [OF assms(3)])
  moreover obtain s3 where "rethrowAsJavaException api (StdException RangeError) s2 = (Inr (), s3)"
    "same_server s3 s2" "reports s3 = reports s2"
    "pending s3 = Some (NativeThrown NATIVE_EXCEPTION (what api (StdException RangeError)))"
    using rethrowAsJavaException_ok [OF assms(1), of "StdException RangeError" s2] assms(2) by metis
  moreover have "eventQueue s3 = rest"
    using queue_same_server [OF \<open>same_server s3 s2\<close>] queue_same_server [OF s2(3)] by simp
  ultimately show ?thesis
    using s2(2) by (simp add: executeRunLoop_def exec_simps) (simp add: reports_def)
qed

theorem apple_invalid_path_ends_loop_witness:
  "\<exists>s'. executeRunLoop quiet_apple (runLoop_apple quiet_apple (\<lambda>_. None))
       (sample_apple\<lparr>eventQueue := [FileEvent [CHR 0xFF] ItemModified 3, ErrorEvent ''x'']\<rparr>) =
     Some (Inr (), s') \<and> terminated s' \<and> reports s' = []"
proof -
  have "(of_char (CHR 0xFF) :: nat) = 255" by simp
  then have "bytes_to_utf16 [CHR 0xFF] = None"
    by (simp add: bytes_to_utf16_def c_str_def from_utf8.simps)
  from apple_invalid_path_ends_loop [OF quiet_apple_ok _ _ this,
      of "sample_apple\<lparr>eventQueue := [FileEvent [CHR 0xFF] ItemModified 3, ErrorEvent ''x'']\<rparr>"
        ItemModified 3 "[ErrorEvent ''x'']" "\<lambda>_. None"]
  show ?thesis by (auto simp: reports_def)
qed

text \<open>
  C23: Registering and unregistering batches on macOS: a registration adds all of its paths or, up to
  the first failure, those before it; an unregistration answers \<^verbatim>\<open>true\<close> only if all of its paths were
  watched, and touches no other path.
\<close>

theorem apple_batches:
  assumes "apple_reachable api s"
  shows "(\<forall>s'. registerPaths_apple api paths s = (Inr (), s') \<longrightarrow>
      watched_apple s' = watched_apple s \<union> set paths \<and> set paths \<inter> watched_apple s = {}) \<and>
    (\<forall>e s'. registerPaths_apple api paths s = (Inl e, s') \<longrightarrow>
      (\<exists>k < length paths. watched_apple s' = watched_apple s \<union> set (take k paths))) \<and>
    (\<forall>s'. unregisterPaths_apple api paths s = (Inr True, s') \<longrightarrow>
      watched_apple s' = watched_apple s - set paths \<and> set paths \<subseteq> watched_apple s) \<and>
    (\<forall>r s'. unregisterPaths_apple api paths s = (r, s') \<longrightarrow>
      watched_apple s - set paths \<subseteq> watched_apple s' \<and> watched_apple s' \<subseteq> watched_apple s)"
  unfolding registerPaths_apple_def unregisterPaths_apple_def
  using apple_reachable_inv [OF assms]
  by (intro conjI allI impI)
     (fast dest: apple_registry.register_batch_ok apple_registry.register_batch_err
       apple_registry.unregister_batch_true apple_registry.unregister_batch_true_watched
       apple_registry.unregister_batch_bounds)+

theorem apple_batches_witness:
  "\<exists>s'. registerPaths_apple quiet_apple [[0x2F]] sample_apple = (Inr (), s') \<and> watched_apple s' = {[0x2F]}"
proof -
  have start: "apple_reachable quiet_apple sample_apple"
    by (rule sample_apple_reachable)
  obtain s' where run: "registerPaths_apple quiet_apple [[0x2F]] sample_apple = (Inr (), s')"
    by (simp add: registerPaths_apple_def registerPath_apple_def construct_WatchPoint_def createRef_def
        call_def exec_simps)
  from conjunct1 [OF apple_batches [OF start], rule_format, OF run] run show ?thesis
    by (auto simp: watched_apple_def)
qed

end
