(* ===== verification/WinPaths.thy ===== *)
theory WinPaths
  imports Prelude
begin

text \<open>
  The path functions of \<^verbatim>\<open>win_fsnotifier.cpp\<close>. A \<^verbatim>\<open>wstring\<close> of Windows is made of 16-bit units, like
  a \<^verbatim>\<open>u16string\<close>. Paths of more than 240 units are handed to Win32 with the prefix for long paths.
\<close>

section \<open>The functions\<close>

abbreviation COLON :: u16 where "COLON \<equiv> 0x3A"
abbreviation BACKSLASH :: u16 where "BACKSLASH \<equiv> 0x5C"

definition LONG_PREFIX :: u16string where
  "LONG_PREFIX = [BACKSLASH, BACKSLASH, 0x3F, BACKSLASH]"

definition UNC_LONG_PREFIX :: u16string where
  "UNC_LONG_PREFIX = LONG_PREFIX @ [0x55, 0x4E, 0x43, BACKSLASH]"

definition isAbsoluteLocalPath :: "u16string \<Rightarrow> bool" where
  "isAbsoluteLocalPath path \<longleftrightarrow>
     \<not> length path < 3 \<and>
     ((0x61 \<le> path ! 0 \<and> path ! 0 \<le> 0x7A) \<or> (0x41 \<le> path ! 0 \<and> path ! 0 \<le> 0x5A)) \<and>
     path ! 1 = COLON \<and> path ! 2 = BACKSLASH"

definition isAbsoluteUncPath :: "u16string \<Rightarrow> bool" where
  "isAbsoluteUncPath path \<longleftrightarrow>
     \<not> length path < 3 \<and> path ! 0 = BACKSLASH \<and> path ! 1 = BACKSLASH"

definition isLongPath :: "u16string \<Rightarrow> bool" where
  "isLongPath path \<longleftrightarrow> 4 \<le> length path \<and> take 4 path = LONG_PREFIX"

definition isUncLongPath :: "u16string \<Rightarrow> bool" where
  "isUncLongPath path \<longleftrightarrow> 8 \<le> length path \<and> take 8 path = UNC_LONG_PREFIX"

definition convertToLongPathIfNeeded :: "u16string \<Rightarrow> u16string" where
  "convertToLongPathIfNeeded path =
     (if length path \<le> 240 then path
      else if isLongPath path then path
      else if isAbsoluteLocalPath path then LONG_PREFIX @ path
      else if isAbsoluteUncPath path then UNC_LONG_PREFIX @ drop 2 path
      else path)"

section \<open>Properties\<close>

text \<open>What a path with the prefix stands for.\<close>

definition strip_prefix :: "u16string \<Rightarrow> u16string" where
  "strip_prefix path =
     (if isUncLongPath path then [BACKSLASH, BACKSLASH] @ drop 8 path
      else if isLongPath path then drop 4 path
      else path)"

lemma isLongPath_prefix [simp]: "isLongPath (LONG_PREFIX @ path)" "isLongPath (UNC_LONG_PREFIX @ path)"
  by (simp_all add: isLongPath_def LONG_PREFIX_def UNC_LONG_PREFIX_def)

lemma strip_unc: "strip_prefix (UNC_LONG_PREFIX @ path) = [BACKSLASH, BACKSLASH] @ path"
  by (simp add: strip_prefix_def isUncLongPath_def UNC_LONG_PREFIX_def LONG_PREFIX_def)

lemma strip_local:
  assumes "isAbsoluteLocalPath path"
  shows "strip_prefix (LONG_PREFIX @ path) = path"
proof -
  obtain a b c rest where path: "path = a # b # c # rest"
    using assms by (cases path; cases "tl path"; cases "tl (tl path)") (auto simp: isAbsoluteLocalPath_def)
  with assms have "b = COLON" by (simp add: isAbsoluteLocalPath_def)
  with path have "\<not> isUncLongPath (LONG_PREFIX @ path)"
    by (simp add: isUncLongPath_def LONG_PREFIX_def UNC_LONG_PREFIX_def)
  then show ?thesis by (simp add: strip_prefix_def) (simp add: LONG_PREFIX_def)
qed

lemma unc_path_split:
  assumes "isAbsoluteUncPath path"
  shows "path = [BACKSLASH, BACKSLASH] @ drop 2 path"
  using assms by (cases path; cases "tl path") (auto simp: isAbsoluteUncPath_def)

text \<open>
  C39: Converting a path to its long form loses nothing and happens once: stripping the prefix gives
  the path back, for local and for UNC paths, a converted path is left alone when it is converted
  again, and every absolute path of more than 240 units ends up with the prefix.
\<close>

theorem convertToLongPath_roundtrip:
  assumes "\<not> isLongPath path"
  shows "strip_prefix (convertToLongPathIfNeeded path) = path \<and>
    convertToLongPathIfNeeded (convertToLongPathIfNeeded path) = convertToLongPathIfNeeded path \<and>
    (240 < length path \<longrightarrow> isAbsoluteLocalPath path \<or> isAbsoluteUncPath path \<longrightarrow>
       isLongPath (convertToLongPathIfNeeded path))"
proof -
  have "\<not> isUncLongPath path"
  proof
    assume "isUncLongPath path"
    then have "take 4 (take 8 path) = take 4 UNC_LONG_PREFIX" "8 \<le> length path"
      by (simp_all add: isUncLongPath_def)
    with assms show False by (simp add: isLongPath_def UNC_LONG_PREFIX_def LONG_PREFIX_def)
  qed
  with assms have plain: "strip_prefix path = path" by (simp add: strip_prefix_def)
  consider (local) "240 < length path" "isAbsoluteLocalPath path"
    | (unc) "240 < length path" "\<not> isAbsoluteLocalPath path" "isAbsoluteUncPath path"
    | (same) "convertToLongPathIfNeeded path = path"
        "\<not> (240 < length path \<and> (isAbsoluteLocalPath path \<or> isAbsoluteUncPath path))"
    by (cases "240 < length path"; cases "isAbsoluteLocalPath path"; cases "isAbsoluteUncPath path")
       (auto simp: convertToLongPathIfNeeded_def)
  then show ?thesis
  proof cases
    case local
    with assms show ?thesis by (simp add: convertToLongPathIfNeeded_def strip_local)
  next
    case unc
    with assms unc_path_split [OF unc(3)] show ?thesis
      by (simp add: convertToLongPathIfNeeded_def strip_unc)
  next
    case same
    with plain show ?thesis by auto
  qed
qed

theorem convertToLongPath_roundtrip_witness:
  "strip_prefix (convertToLongPathIfNeeded ([0x43, COLON, BACKSLASH] @ replicate 300 0x61)) =
     [0x43, COLON, BACKSLASH] @ replicate 300 0x61 \<and>
   isLongPath (convertToLongPathIfNeeded ([0x43, COLON, BACKSLASH] @ replicate 300 0x61))"
proof -
  let ?p = "[0x43, COLON, BACKSLASH] @ replicate 300 0x61 :: u16string"
  have "\<not> isLongPath ?p" by (simp add: isLongPath_def LONG_PREFIX_def)
  from convertToLongPath_roundtrip [OF this] show ?thesis
    by (simp add: isAbsoluteLocalPath_def)
qed

end
