(* ===== verification/WinServer.thy ===== *)
theory WinServer
  imports Generic Bytes WinPaths
begin

text \<open>
  The Windows server, first part: \<^verbatim>\<open>win_fsnotifier.h\<close> and the watch points of
  \<^verbatim>\<open>win_fsnotifier.cpp\<close>. A watch point is shared by the table of the server and by the I/O
  request in flight, which holds a pointer to it; so watch points live in a store of objects under
  their addresses. Win32 is a parameter, the record \<open>win_api\<close>. Using an object after it was freed
  sets \<open>useAfterFree\<close>; what the code reads there is a parameter, too. The flag \<open>lost\<close> is set where
  the program does not go on as the model does: it read outside a read buffer, it is in a loop that
  never ends, or an exception left a destructor and ended the process.
\<close>

section \<open>Constants of the ABI\<close>

definition FILE_ACTION_ADDED :: flags32 where "FILE_ACTION_ADDED = 1"
definition FILE_ACTION_REMOVED :: flags32 where "FILE_ACTION_REMOVED = 2"
definition FILE_ACTION_MODIFIED :: flags32 where "FILE_ACTION_MODIFIED = 3"
definition FILE_ACTION_RENAMED_OLD_NAME :: flags32 where "FILE_ACTION_RENAMED_OLD_NAME = 4"
definition FILE_ACTION_RENAMED_NEW_NAME :: flags32 where "FILE_ACTION_RENAMED_NEW_NAME = 5"
definition FILE_ATTRIBUTE_DIRECTORY :: flags32 where "FILE_ATTRIBUTE_DIRECTORY = 0x10"
definition INVALID_FILE_ATTRIBUTES :: flags32 where "INVALID_FILE_ATTRIBUTES = 0xFFFFFFFF"

definition ERROR_SUCCESS :: int where "ERROR_SUCCESS = 0"
definition ERROR_ACCESS_DENIED :: int where "ERROR_ACCESS_DENIED = 5"
definition ERROR_OPERATION_ABORTED :: int where "ERROR_OPERATION_ABORTED = 995"
definition ERROR_NOT_FOUND :: int where "ERROR_NOT_FOUND = 1168"

definition CREATE_SHARE :: flags32 where "CREATE_SHARE = 0x1 OR 0x2 OR 0x4"
definition CREATE_FLAGS :: flags32 where "CREATE_FLAGS = 0x02000000 OR 0x40000000"
definition WIN_EVENT_MASK :: flags32 where "WIN_EVENT_MASK = 0x1 OR 0x2 OR 0x4 OR 0x8 OR 0x10"

definition PATH_BUFFER_SIZE :: nat where "PATH_BUFFER_SIZE = 32768"

lemmas win_actions = FILE_ACTION_ADDED_def FILE_ACTION_REMOVED_def FILE_ACTION_MODIFIED_def
  FILE_ACTION_RENAMED_OLD_NAME_def FILE_ACTION_RENAMED_NEW_NAME_def
lemmas win_errors = ERROR_SUCCESS_def ERROR_ACCESS_DENIED_def ERROR_OPERATION_ABORTED_def
  ERROR_NOT_FOUND_def

section \<open>State\<close>

datatype listen_result = LISTEN_SUCCESS | LISTEN_DELETED

datatype win_status = WIN_NOT_LISTENING | WIN_LISTENING | WIN_CANCELLED | WIN_FINISHED

primrec win_status_value :: "win_status \<Rightarrow> int" where
  "win_status_value WIN_NOT_LISTENING = 0"
| "win_status_value WIN_LISTENING = 1"
| "win_status_value WIN_CANCELLED = 2"
| "win_status_value WIN_FINISHED = 3"

record win_watch_point =
  registeredPath :: u16string
  directoryHandle :: nat
  registeredFinalPath :: u16string
  status :: win_status

text \<open>The work of a command: the closures the server hands to its run loop.\<close>

datatype win_work =
    RegisterWork "u16string list"
  | UnregisterWork "u16string list"
  | ShutdownWork

record command =
  cmd_work :: win_work
  cmd_result :: "bool option"
  cmd_failure :: "exn option"

text \<open>What Windows queues to the thread of the run loop: the completion of the read of the watch
  point at an address, with error code, byte count and the contents of the buffer, or a command.\<close>

datatype apc = Completion nat int nat string | RunCommand nat

record 'w win_api = "'w jni" +
  lastError :: "'w \<Rightarrow> int"
  wideCharToMultiByte :: "u16string \<Rightarrow> nat \<Rightarrow> nat \<times> string"
  createFile :: "u16string \<Rightarrow> flags32 \<Rightarrow> flags32 \<Rightarrow> 'w \<Rightarrow> nat option \<times> 'w"
  getFinalPathName :: "nat \<Rightarrow> nat \<Rightarrow> 'w \<Rightarrow> (nat \<times> u16string) \<times> 'w"
  readDirectoryChanges :: "nat \<Rightarrow> nat \<Rightarrow> flags32 \<Rightarrow> 'w \<Rightarrow> bool \<times> 'w"
  cancelIoEx :: "nat \<Rightarrow> nat \<Rightarrow> 'w \<Rightarrow> bool \<times> 'w"
  closeHandle :: "nat \<Rightarrow> 'w \<Rightarrow> (exn + bool) \<times> 'w"
  getFileAttributes :: "u16string \<Rightarrow> 'w \<Rightarrow> flags32 \<times> 'w"
  openThread :: "'w \<Rightarrow> nat option \<times> 'w"
  queueUserApc :: "nat \<Rightarrow> nat option \<Rightarrow> 'w \<Rightarrow> bool \<times> 'w"
  sleepZero :: "'w \<Rightarrow> apc list \<times> 'w"
  sleepInfinite :: "'w \<Rightarrow> (apc list \<times> 'w) option"
  winIterationOrder :: "u16string set \<Rightarrow> 'w \<Rightarrow> u16string list"
  closeErrorText :: "nat \<Rightarrow> u16string \<Rightarrow> string \<Rightarrow> string"
  freedObject :: "nat \<Rightarrow> win_watch_point"
  uninitializedBool :: bool

text \<open>\<open>lastError\<close>: \<^verbatim>\<open>GetLastError\<close>. \<open>wideCharToMultiByte\<close>: the count the function returns and the
  bytes it writes, for a buffer of the given size; size 0 asks for the size. \<open>createFile\<close> gives
  \<open>None\<close> for \<^verbatim>\<open>INVALID_HANDLE_VALUE\<close>. \<open>closeHandle\<close> may throw under a debugger.
  \<open>sleepZero\<close> and \<open>sleepInfinite\<close>: the calls delivered by \<^verbatim>\<open>SleepEx\<close> with timeout 0 and
  \<^verbatim>\<open>INFINITE\<close>. \<open>closeErrorText\<close>: the text of two log calls whose format \<^verbatim>\<open>%ls\<close> is given a
  \<^verbatim>\<open>char*\<close>. \<open>freedObject\<close>, \<open>uninitializedBool\<close>: what reading them happens to give.\<close>

text \<open>The handles opened for watch points, and closed.\<close>

datatype handle_call = Opened nat | Closed nat

record 'w win_server = "'w native" +
  objects :: "nat \<rightharpoonup> win_watch_point"
  nextAddress :: nat
  win_watchPoints :: "u16string \<rightharpoonup> nat"
  commands :: "nat \<rightharpoonup> command"
  win_shouldTerminate :: bool
  threadHandle :: "nat option"
  commandTimeoutInMillis :: int
  handleCalls :: "handle_call list"
  useAfterFree :: bool
  lost :: bool

type_synonym ('w, 'a) win_action = "(exn, 'w win_server, 'a) exec"
type_synonym ('w, 'a) win_loop = "'w win_server \<Rightarrow> ((exn + 'a) \<times> 'w win_server) option"

definition init_win_server :: "'w \<Rightarrow> int \<Rightarrow> 'w win_server" where
  "init_win_server w timeout =
     \<lparr>world = w, errno = 0, pending = None, upcalls = [], terminated = False, deleted = False,
      objects = Map.empty, nextAddress = 0, win_watchPoints = Map.empty, commands = Map.empty,
      win_shouldTerminate = False, threadHandle = None, commandTimeoutInMillis = timeout,
      handleCalls = [], useAfterFree = False, lost = False\<rparr>"

definition syscall_win :: "('w \<Rightarrow> 'r \<times> 'w) \<Rightarrow> ('w, 'r) win_action" where
  "syscall_win f = (\<lambda>s. (Inr (fst (f (world s))), s\<lparr>world := snd (f (world s))\<rparr>))"

definition lose :: "('w, unit) win_action" where
  "lose = modifyE (\<lambda>s. s\<lparr>lost := True\<rparr>)"

definition getLastError :: "'w win_api \<Rightarrow> ('w, int) win_action" where
  "getLastError api = getE (\<lambda>s. lastError api (world s))"

text \<open>Dereferencing a pointer to a watch point.\<close>

definition deref :: "'w win_api \<Rightarrow> nat \<Rightarrow> ('w, win_watch_point) win_action" where
  "deref api a =
     bindE (getE objects) (\<lambda>store.
     case store a of
       Some object \<Rightarrow> ret object
     | None \<Rightarrow> thenE (modifyE (\<lambda>s. s\<lparr>useAfterFree := True\<rparr>)) (ret (freedObject api a)))"

definition update_object :: "nat \<Rightarrow> (win_watch_point \<Rightarrow> win_watch_point) \<Rightarrow> ('w, unit) win_action" where
  "update_object a f =
     modifyE (\<lambda>s. s\<lparr>objects := (objects s)(a := map_option f (objects s a))\<rparr>)"

definition set_status :: "nat \<Rightarrow> win_status \<Rightarrow> ('w, unit) win_action" where
  "set_status a st = update_object a (\<lambda>obj. obj\<lparr>status := st\<rparr>)"

definition free_object :: "nat \<Rightarrow> ('w, unit) win_action" where
  "free_object a = modifyE (\<lambda>s. s\<lparr>objects := (objects s)(a := None)\<rparr>)"

section \<open>Paths\<close>

definition wideToUtf8String :: "'w win_api \<Rightarrow> u16string \<Rightarrow> string" where
  "wideToUtf8String api wstr =
     (if wstr = [] then []
      else let utf8Size = fst (wideCharToMultiByte api wstr 0) in
        if utf8Size = 0 then ''INVALID_UTF8''
        else case wideCharToMultiByte api wstr utf8Size of (result, bytes) \<Rightarrow>
          if result = 0 then ''INVALID_UTF8''
          else take utf8Size (bytes @ replicate utf8Size (CHR 0x00)))"

definition resolveFinalPath :: "'w win_api \<Rightarrow> nat \<Rightarrow> ('w, u16string option) win_action" where
  "resolveFinalPath api handle =
     bindE (syscall_win (getFinalPathName api handle PATH_BUFFER_SIZE)) (\<lambda>r. case r of (pathLength, buffer) \<Rightarrow>
     if pathLength = 0 \<or> pathLength > PATH_BUFFER_SIZE then
       bindE (getLastError api) (\<lambda>err.
       thenE (logToJava api WARN_LEVEL ''Couldn't get final path for handle 0x%x, error code: %d''
         [Hex (of_nat handle), Dec err])
       (ret None))
     else ret (Some (take pathLength buffer)))"

definition isValidDirectory :: "'w win_api \<Rightarrow> nat \<Rightarrow> ('w, bool) win_action" where
  "isValidDirectory api a =
     bindE (deref api a) (\<lambda>obj.
     bindE (syscall_win (getFileAttributes api (registeredPath obj))) (\<lambda>attrib.
     ret (attrib \<noteq> INVALID_FILE_ATTRIBUTES \<and> attrib AND FILE_ATTRIBUTE_DIRECTORY \<noteq> 0)))"

section \<open>Watch points\<close>

definition close_win :: "'w win_api \<Rightarrow> nat \<Rightarrow> ('w, unit) win_action" where
  "close_win api a =
     bindE (deref api a) (\<lambda>obj.
     if status obj \<noteq> WIN_FINISHED then
       thenE
         (tryE
           (thenE (modifyE (\<lambda>s. s\<lparr>handleCalls := handleCalls s @ [Closed (directoryHandle obj)]\<rparr>))
           (bindE (syscall_win (closeHandle api (directoryHandle obj))) (\<lambda>r.
            bindE (liftE r) (\<lambda>success.
            if \<not> success then
              bindE (getLastError api) (\<lambda>err.
              logToJava api ERROR_LEVEL
                (closeErrorText api (directoryHandle obj) (registeredPath obj) (to_string err)) [])
            else ret ()))))
           (\<lambda>ex. logToJava api ERROR_LEVEL
             (closeErrorText api (directoryHandle obj) (registeredPath obj) (what api ex)) []))
         (set_status a WIN_FINISHED)
     else ret ())"

definition listen :: "'w win_api \<Rightarrow> nat \<Rightarrow> ('w, listen_result) win_action" where
  "listen api a =
     bindE (deref api a) (\<lambda>obj.
     bindE (syscall_win (readDirectoryChanges api (directoryHandle obj) a WIN_EVENT_MASK)) (\<lambda>success.
     if success then thenE (set_status a WIN_LISTENING) (ret LISTEN_SUCCESS)
     else
       bindE (getLastError api) (\<lambda>listenError.
       thenE (close_win api a)
       (bindE (if listenError = ERROR_ACCESS_DENIED
               then bindE (isValidDirectory api a) (\<lambda>v. ret (\<not> v)) else ret False) (\<lambda>gone.
        if gone then ret LISTEN_DELETED
        else raise (FileWatcherException_path_code ''Couldn't add watch'' (registeredPath obj) listenError))))))"

definition cancel_win :: "'w win_api \<Rightarrow> nat \<Rightarrow> ('w, bool) win_action" where
  "cancel_win api a =
     bindE (deref api a) (\<lambda>obj.
     if status obj = WIN_LISTENING then
       thenE (logToJava api TRACE_LEVEL ''Cancelling %s'' [Str (wideToUtf8String api (registeredPath obj))])
      (bindE (syscall_win (cancelIoEx api (directoryHandle obj) a)) (\<lambda>cancelled.
       if cancelled then thenE (set_status a WIN_CANCELLED) (ret True)
       else
         bindE (getLastError api) (\<lambda>cancelError.
         thenE (close_win api a)
        (if cancelError = ERROR_NOT_FOUND then
           thenE (logToJava api TRACE_LEVEL ''Watch point already finished %s''
             [Str (wideToUtf8String api (registeredPath obj))])
           (ret False)
         else raise (FileWatcherException_path_code ''Couldn't cancel watch point''
                (registeredPath obj) cancelError)))))
     else ret False)"

text \<open>The constructor \<^verbatim>\<open>WatchPoint::WatchPoint\<close>. An exception frees the memory of the object without
  running its destructor.\<close>

definition startListening :: "'w win_api \<Rightarrow> nat \<Rightarrow> u16string \<Rightarrow> nat \<Rightarrow> ('w, unit) win_action" where
  "startListening api a path handle =
     bindE (resolveFinalPath api handle) (\<lambda>final.
     case final of
       None \<Rightarrow> bindE (getLastError api) (\<lambda>err.
         raise (FileWatcherException_path_code ''Couldn't resolve final path of'' path err))
     | Some finalPath \<Rightarrow>
         thenE (update_object a (\<lambda>obj. obj\<lparr>registeredFinalPath := finalPath\<rparr>))
        (bindE (listen api a) (\<lambda>result.
         case result of
           LISTEN_SUCCESS \<Rightarrow> ret ()
         | LISTEN_DELETED \<Rightarrow> raise (FileWatcherException_path
             ''Couldn't add watch, path is not a directory'' path))))"

definition openDirectory :: "'w win_api \<Rightarrow> nat \<Rightarrow> u16string \<Rightarrow> ('w, unit) win_action" where
  "openDirectory api a path =
     bindE (syscall_win (createFile api (convertToLongPathIfNeeded path) CREATE_SHARE CREATE_FLAGS)) (\<lambda>r.
     case r of
       None \<Rightarrow> bindE (getLastError api) (\<lambda>err.
         raise (FileWatcherException_path_code ''Couldn't add watch'' path err))
     | Some handle \<Rightarrow>
         thenE (modifyE (\<lambda>s. s\<lparr>handleCalls := handleCalls s @ [Opened handle]\<rparr>))
        (thenE (update_object a (\<lambda>obj. obj\<lparr>directoryHandle := handle\<rparr>))
        (startListening api a path handle)))"

definition construct_win :: "'w win_api \<Rightarrow> u16string \<Rightarrow> ('w, nat) win_action" where
  "construct_win api path =
     bindE (getE nextAddress) (\<lambda>a.
     thenE (modifyE (\<lambda>s. s\<lparr>nextAddress := a + 1,
       objects := (objects s)(a \<mapsto> \<lparr>registeredPath = path, directoryHandle = 0,
         registeredFinalPath = [], status = WIN_NOT_LISTENING\<rparr>)\<rparr>))
     (tryE (thenE (openDirectory api a path) (ret a))
           (\<lambda>e. thenE (free_object a) (raise e))))"

text \<open>The destructor \<^verbatim>\<open>WatchPoint::~WatchPoint\<close>; \<open>nested\<close> is what the calls delivered by its
  \<^verbatim>\<open>SleepEx(0, true)\<close> do. Destructors are \<^verbatim>\<open>noexcept\<close>: an exception of the log call ends the process.\<close>

definition destroy_win :: "'w win_api \<Rightarrow> ('w, unit) win_action \<Rightarrow> nat \<Rightarrow> ('w, unit) win_action" where
  "destroy_win api nested a =
     thenE
       (tryE
         (tryE
           (bindE (cancel_win api a) (\<lambda>_. thenE nested (close_win api a)))
           (\<lambda>ex. bindE (deref api a) (\<lambda>obj.
              logToJava api WARN_LEVEL ''Couldn't cancel watch point %s: %s''
                [Str (wideToUtf8String api (registeredPath obj)), Str (what api ex)])))
         (\<lambda>_. lose))
       (free_object a)"

end
