(* ===== verification/WinEvents.thy ===== *)
theory WinEvents
  imports WinServer
begin

text \<open>
  The Windows server, second part: the change records of a read buffer, the handler of one record,
  and the completion of a read (\<^verbatim>\<open>handleEventsInBuffer\<close>, \<^verbatim>\<open>Server::handleEvents\<close>).
\<close>

section \<open>Records in the buffer\<close>

text \<open>The fields of \<^verbatim>\<open>FILE_NOTIFY_EXTENDED_INFORMATION\<close> the code reads. The name starts at offset 84
  and is \<open>FileNameLength\<close> bytes long; nothing terminates it.\<close>

record file_info =
  fi_next :: flags32
  fi_action :: flags32
  fi_attributes :: flags32
  fi_name :: u16string

definition FILE_INFO_SIZE :: nat where "FILE_INFO_SIZE = 84"

text \<open>The wide string that starts at an offset, up to its \<^verbatim>\<open>NUL\<close>; \<open>None\<close> when the buffer ends before one.\<close>

definition wide_string_at :: "string \<Rightarrow> nat \<Rightarrow> u16string option" where
  "wide_string_at buf i =
     (let units = read_u16s (drop i buf) in
      if 0 \<in> set units then Some (takeWhile (\<lambda>u. u \<noteq> 0) units) else None)"

text \<open>The record at an offset, with the name as \<^verbatim>\<open>wstring(info->FileName, 0, n)\<close> reads it: that
  constructor first makes a string of everything up to a \<^verbatim>\<open>NUL\<close> and then takes \<open>n\<close> characters of it.
  \<open>None\<close> when this reads outside the buffer.\<close>

definition info_at :: "string \<Rightarrow> nat \<Rightarrow> file_info option" where
  "info_at buf i =
     (if i + FILE_INFO_SIZE \<le> length buf then
        map_option (\<lambda>fileName. \<lparr>fi_next = read_u32 buf i, fi_action = read_u32 buf (i + 4),
            fi_attributes = read_u32 buf (i + 56),
            fi_name = take (unat (read_u32 buf (i + 80)) div 2) fileName\<rparr>)
          (wide_string_at buf (i + FILE_INFO_SIZE))
      else None)"

lemma info_at_bounds: "info_at buf i = Some info \<Longrightarrow> i < length buf"
  by (auto simp: info_at_def FILE_INFO_SIZE_def split: if_splits)

section \<open>Handling one record\<close>

text \<open>The part of \<^verbatim>\<open>handleEvent\<close> that picks the change type.\<close>

datatype classification = Change change_type | IgnoreDirectory | UnknownAction

definition classify :: "flags32 \<Rightarrow> flags32 \<Rightarrow> classification" where
  "classify action attributes =
     (if action = FILE_ACTION_ADDED \<or> action = FILE_ACTION_RENAMED_NEW_NAME then Change CREATED
      else if action = FILE_ACTION_REMOVED \<or> action = FILE_ACTION_RENAMED_OLD_NAME then Change REMOVED
      else if action = FILE_ACTION_MODIFIED then
        (if attributes AND FILE_ATTRIBUTE_DIRECTORY \<noteq> 0 then IgnoreDirectory else Change MODIFIED)
      else UnknownAction)"

definition changed_path :: "u16string \<Rightarrow> u16string \<Rightarrow> u16string" where
  "changed_path watchedPath name = watchedPath @ (if name \<noteq> [] then BACKSLASH # name else name)"

definition handleEvent_win :: "'w win_api \<Rightarrow> u16string \<Rightarrow> file_info \<Rightarrow> ('w, unit) win_action" where
  "handleEvent_win api watchedPath info =
     (let changedPath = changed_path watchedPath (fi_name info) in
      thenE (logToJava api TRACE_LEVEL (''Change detected: 0x%x '%s'' @ [CHR 0x27])
        [Hex (fi_action info), Str (wideToUtf8String api changedPath)])
      (case classify (fi_action info) (fi_attributes info) of
         Change type \<Rightarrow> reportChangeEvent api type changedPath
       | IgnoreDirectory \<Rightarrow> logToJava api TRACE_LEVEL ''Ignored MODIFIED event on directory'' []
       | UnknownAction \<Rightarrow>
           thenE (logToJava api WARN_LEVEL ''Unknown event 0x%x for %s''
             [Hex (fi_action info), Str (wideToUtf8String api changedPath)])
           (reportUnknownEvent api changedPath)))"

section \<open>The completion of a read\<close>

definition reportWatchPointDeleted :: "'w win_api \<Rightarrow> nat \<Rightarrow> ('w, unit) win_action" where
  "reportWatchPointDeleted api a =
     thenE (getThreadEnv api)
     (bindE (deref api a) (\<lambda>obj.
      thenE (reportChangeEvent api REMOVED (registeredPath obj))
      (close_win api a)))"

text \<open>The loop over the records. The index is an \<^verbatim>\<open>int\<close> to which the 32-bit unsigned offset of the next
  record is added, so it wraps: it may become negative, which is outside the buffer, or come back to
  a record that was handled before. \<open>None\<close>: the loop never ends.\<close>

partial_function (option) handleRecordsFrom ::
    "'w win_api \<Rightarrow> u16string \<Rightarrow> string \<Rightarrow> 32 word \<Rightarrow> ('w, unit) win_loop" where
  "handleRecordsFrom api path buf index s =
     (case (if sint index < 0 then None else info_at buf (nat (sint index))) of
        None \<Rightarrow> Some (lose s)
      | Some info \<Rightarrow>
          (case handleEvent_win api path info s of
             (Inl e, s1) \<Rightarrow> Some (Inl e, s1)
           | (Inr _, s1) \<Rightarrow>
               if fi_next info = 0 then Some (Inr (), s1)
               else handleRecordsFrom api path buf (index + fi_next info) s1))"

definition handleRecords :: "'w win_api \<Rightarrow> u16string \<Rightarrow> string \<Rightarrow> ('w, unit) win_action" where
  "handleRecords api path buf s =
     (case handleRecordsFrom api path buf 0 s of
        Some r \<Rightarrow> r
      | None \<Rightarrow> lose s)"

definition listenAgain :: "'w win_api \<Rightarrow> nat \<Rightarrow> u16string \<Rightarrow> ('w, unit) win_action" where
  "listenAgain api a path =
     bindE (listen api a) (\<lambda>result.
     case result of
       LISTEN_SUCCESS \<Rightarrow> ret ()
     | LISTEN_DELETED \<Rightarrow>
         thenE (logToJava api TRACE_LEVEL ''Watched directory removed for %s''
           [Str (wideToUtf8String api path)])
         (reportChangeEvent api REMOVED path))"

text \<open>What \<^verbatim>\<open>Server::handleEvents\<close> does inside its \<^verbatim>\<open>try\<close> block.\<close>

definition handleEventsBody ::
    "'w win_api \<Rightarrow> nat \<Rightarrow> int \<Rightarrow> string \<Rightarrow> nat \<Rightarrow> ('w, unit) win_action" where
  "handleEventsBody api a errorCode buf bytesTransferred =
     bindE (deref api a) (\<lambda>obj.
     if errorCode \<noteq> ERROR_SUCCESS then
       bindE (if errorCode = ERROR_ACCESS_DENIED
              then bindE (isValidDirectory api a) (\<lambda>v. ret (\<not> v)) else ret False) (\<lambda>gone.
       if gone then reportWatchPointDeleted api a
       else raise (FileWatcherException_path_code ''Error received when handling events''
              (registeredPath obj) errorCode))
     else
       bindE (resolveFinalPath api (directoryHandle obj)) (\<lambda>currentFinalPath.
       if currentFinalPath \<noteq> Some (registeredFinalPath obj) then reportWatchPointDeleted api a
       else
         bindE (getE win_shouldTerminate) (\<lambda>terminating.
         if terminating then
           logToJava api TRACE_LEVEL
             ''Ignoring incoming events for %s because server is terminating (%d bytes, status = %d)''
             [Str (wideToUtf8String api (registeredPath obj)), Dec (int bytesTransferred),
              Dec (win_status_value (status obj))]
         else
           thenE (if bytesTransferred = 0 then reportOverflow api (registeredPath obj)
                  else handleRecords api (registeredPath obj) buf)
           (listenAgain api a (registeredPath obj)))))"

definition handleEvents_win ::
    "'w win_api \<Rightarrow> nat \<Rightarrow> int \<Rightarrow> string \<Rightarrow> nat \<Rightarrow> ('w, unit) win_action" where
  "handleEvents_win api a errorCode buf bytesTransferred =
     thenE (getThreadEnv api)
     (tryE (handleEventsBody api a errorCode buf bytesTransferred)
           (\<lambda>ex. reportFailure api ex))"

definition handleEventsInBuffer ::
    "'w win_api \<Rightarrow> nat \<Rightarrow> int \<Rightarrow> nat \<Rightarrow> string \<Rightarrow> ('w, unit) win_action" where
  "handleEventsInBuffer api a errorCode bytesTransferred buf =
     bindE (deref api a) (\<lambda>obj.
     if errorCode = ERROR_OPERATION_ABORTED then
       thenE (logToJava api TRACE_LEVEL ''Finished watching '%s', status = %d''
         [Str (wideToUtf8String api (registeredPath obj)), Dec (win_status_value (status obj))])
       (close_win api a)
     else if status obj \<noteq> WIN_LISTENING then
       logToJava api TRACE_LEVEL
         ''Ignoring incoming events for %s as watch-point is not listening (%d bytes, errorCode = %d, status = %d)''
         [Str (wideToUtf8String api (registeredPath obj)), Dec (int bytesTransferred), Dec errorCode,
          Dec (win_status_value (status obj))]
     else
       thenE (set_status a WIN_NOT_LISTENING)
       (handleEvents_win api a errorCode buf bytesTransferred))"

end
