(* ===== verification/WinCommands.thy ===== *)
theory WinCommands
  imports WinEvents
begin

text \<open>
  The Windows server, third part: \<^verbatim>\<open>command.h\<close>, the calls that Windows queues to the thread of the
  run loop, and the operations the JNI entry points call. The work of a command runs inside
  \<^verbatim>\<open>SleepEx\<close>, on the run loop's thread; a destructor calls \<^verbatim>\<open>SleepEx\<close> again, so calls nest.
\<close>

section \<open>Registering and unregistering, on the run loop's thread\<close>

definition erase_win :: "'w win_api \<Rightarrow> ('w, unit) win_action \<Rightarrow> u16string \<Rightarrow> nat \<Rightarrow> ('w, unit) win_action" where
  "erase_win api nested path a =
     thenE (modifyE (\<lambda>s. s\<lparr>win_watchPoints := (win_watchPoints s)(path := None)\<rparr>))
     (destroy_win api nested a)"

text \<open>\<^verbatim>\<open>emplace\<close>: when the key is there by now, the new watch point is destroyed.\<close>

definition emplace_win :: "'w win_api \<Rightarrow> ('w, unit) win_action \<Rightarrow> u16string \<Rightarrow> nat \<Rightarrow> ('w, unit) win_action" where
  "emplace_win api nested path a =
     bindE (getE win_watchPoints) (\<lambda>points.
     case points path of
       None \<Rightarrow> modifyE (\<lambda>s. s\<lparr>win_watchPoints := (win_watchPoints s)(path \<mapsto> a)\<rparr>)
     | Some _ \<Rightarrow> destroy_win api nested a)"

text \<open>A watch point that is finished makes room for a new one.\<close>

definition clearFinished ::
    "'w win_api \<Rightarrow> ('w, unit) win_action \<Rightarrow> u16string \<Rightarrow> ('w, unit) win_action" where
  "clearFinished api nested path =
     bindE (getE win_watchPoints) (\<lambda>points.
     case points path of
       None \<Rightarrow> ret ()
     | Some a \<Rightarrow>
         bindE (deref api a) (\<lambda>obj.
         if status obj = WIN_FINISHED then erase_win api nested path a
         else raise (FileWatcherException_path ''Already watching path'' path)))"

definition registerPath_win ::
    "'w win_api \<Rightarrow> ('w, unit) win_action \<Rightarrow> u16string \<Rightarrow> ('w, unit) win_action" where
  "registerPath_win api nested path =
     thenE (clearFinished api nested path)
    (bindE (construct_win api path) (\<lambda>a. emplace_win api nested path a))"

definition unregisterPath_win ::
    "'w win_api \<Rightarrow> ('w, unit) win_action \<Rightarrow> u16string \<Rightarrow> ('w, bool) win_action" where
  "unregisterPath_win api nested path =
     bindE (getE win_watchPoints) (\<lambda>points.
     case points path of
       None \<Rightarrow>
         thenE (logToJava api INFO_LEVEL ''Path is not watched: %s'' [Str (wideToUtf8String api path)])
         (ret False)
     | Some a \<Rightarrow> thenE (erase_win api nested path a) (ret True))"

fun run_work :: "'w win_api \<Rightarrow> ('w, unit) win_action \<Rightarrow> win_work \<Rightarrow> ('w, bool) win_action" where
  "run_work api nested (RegisterWork paths) = thenE (forE paths (registerPath_win api nested)) (ret True)"
| "run_work api nested (UnregisterWork paths) = conjE paths (unregisterPath_win api nested) True"
| "run_work api nested ShutdownWork = thenE (modifyE (\<lambda>s. s\<lparr>win_shouldTerminate := True\<rparr>)) (ret True)"

section \<open>Commands\<close>

text \<open>Writing to a command that was destroyed meanwhile is undefined.\<close>

definition update_command :: "nat \<Rightarrow> (command \<Rightarrow> command) \<Rightarrow> ('w, unit) win_action" where
  "update_command c f =
     modifyE (\<lambda>s. case commands s c of
         None \<Rightarrow> s\<lparr>useAfterFree := True\<rparr>
       | Some cmd \<Rightarrow> s\<lparr>commands := (commands s)(c \<mapsto> f cmd)\<rparr>)"

definition executeInsideRunLoop :: "'w win_api \<Rightarrow> ('w, unit) win_action \<Rightarrow> nat \<Rightarrow> ('w, unit) win_action" where
  "executeInsideRunLoop api nested c =
     bindE (getE commands) (\<lambda>cmds.
     case cmds c of
       None \<Rightarrow> modifyE (\<lambda>s. s\<lparr>useAfterFree := True\<rparr>)
     | Some cmd \<Rightarrow>
         tryE (bindE (run_work api nested (cmd_work cmd)) (\<lambda>r.
                 update_command c (\<lambda>cmd. cmd\<lparr>cmd_result := Some r\<rparr>)))
              (\<lambda>e. update_command c (\<lambda>cmd. cmd\<lparr>cmd_failure := Some e\<rparr>)))"

definition run_apc :: "'w win_api \<Rightarrow> ('w, unit) win_action \<Rightarrow> apc \<Rightarrow> ('w, unit) win_action" where
  "run_apc api nested call =
     (case call of
        Completion a errorCode bytesTransferred buf \<Rightarrow>
          handleEventsInBuffer api a errorCode bytesTransferred buf
      | RunCommand c \<Rightarrow> executeInsideRunLoop api nested c)"

text \<open>\<^verbatim>\<open>SleepEx(0, true)\<close>, with calls nested up to the given depth.\<close>

fun alertable :: "nat \<Rightarrow> 'w win_api \<Rightarrow> ('w, unit) win_action" where
  "alertable 0 api = ret ()"
| "alertable (Suc depth) api =
     bindE (syscall_win (sleepZero api)) (\<lambda>calls.
     forE calls (run_apc api (alertable depth api)))"

text \<open>\<^verbatim>\<open>Command::execute\<close> together with \<^verbatim>\<open>Server::executeOnRunLoop\<close>. The command lives on the stack of
  the calling thread: it is gone when the call ends, also by an exception. \<open>wait_for\<close> gives how the
  wait on the condition variable ends and the state then.\<close>

definition executeCommand ::
    "'w win_api \<Rightarrow> (int \<Rightarrow> 'w win_server \<Rightarrow> cv_status \<times> 'w win_server) \<Rightarrow> nat \<Rightarrow> ('w, bool) win_action" where
  "executeCommand api wait_for c =
     bindE (getE threadHandle) (\<lambda>thread.
     bindE (syscall_win (queueUserApc api c thread)) (\<lambda>queued.
     if \<not> queued then
       bindE (getLastError api) (\<lambda>err.
       raise (FileWatcherException_code ''Received error while queuing APC'' err))
     else
       bindE (getE commandTimeoutInMillis) (\<lambda>timeout.
       bindE (\<lambda>s. case wait_for timeout s of (cv, s') \<Rightarrow> (Inr cv, s')) (\<lambda>cv.
       if cv = Timeout then raise (FileWatcherException ''Execution timed out'')
       else
         bindE (getE (\<lambda>s. commands s c)) (\<lambda>r.
         case r of
           None \<Rightarrow> ret (uninitializedBool api)
         | Some cmd \<Rightarrow>
             (case cmd_failure cmd of
                Some e \<Rightarrow> raise e
              | None \<Rightarrow>
                  (case cmd_result cmd of
                     Some b \<Rightarrow> ret b
                   | None \<Rightarrow> ret (uninitializedBool api))))))))"

definition drop_command :: "nat \<Rightarrow> ('w, unit) win_action" where
  "drop_command c = modifyE (\<lambda>s. s\<lparr>commands := (commands s)(c := None)\<rparr>)"

definition executeOnRunLoop ::
    "'w win_api \<Rightarrow> (int \<Rightarrow> 'w win_server \<Rightarrow> cv_status \<times> 'w win_server) \<Rightarrow> win_work \<Rightarrow> ('w, bool) win_action" where
  "executeOnRunLoop api wait_for work =
     bindE (getE nextAddress) (\<lambda>c.
     thenE (modifyE (\<lambda>s. s\<lparr>nextAddress := c + 1,
       commands := (commands s)(c \<mapsto> \<lparr>cmd_work = work, cmd_result = None, cmd_failure = None\<rparr>)\<rparr>))
     (tryE (bindE (executeCommand api wait_for c) (\<lambda>r. thenE (drop_command c) (ret r)))
           (\<lambda>e. thenE (drop_command c) (raise e))))"

definition registerPaths_win where
  "registerPaths_win api wait_for paths =
     bindE (executeOnRunLoop api wait_for (RegisterWork paths)) (\<lambda>_. ret ())"

definition unregisterPaths_win where
  "unregisterPaths_win api wait_for paths = executeOnRunLoop api wait_for (UnregisterWork paths)"

definition shutdownRunLoop_win where
  "shutdownRunLoop_win api wait_for =
     bindE (executeOnRunLoop api wait_for ShutdownWork) (\<lambda>_. ret ())"

section \<open>The run loop\<close>

definition initializeRunLoop_win :: "'w win_api \<Rightarrow> ('w, unit) win_action" where
  "initializeRunLoop_win api =
     bindE (syscall_win (openThread api)) (\<lambda>r.
     thenE (modifyE (\<lambda>s. s\<lparr>threadHandle := r\<rparr>))
     (if r = None then bindE (getLastError api) (\<lambda>err.
        raise (FileWatcherException_code ''Couldn't open current thread'' err))
      else ret ()))"

partial_function (option) sleepUntilTerminated :: "nat \<Rightarrow> 'w win_api \<Rightarrow> ('w, unit) win_loop" where
  "sleepUntilTerminated depth api s =
     (if win_shouldTerminate s then Some (Inr (), s)
      else
        (case sleepInfinite api (world s) of
           None \<Rightarrow> None
         | Some (calls, w) \<Rightarrow>
             (case forE calls (run_apc api (alertable depth api)) (s\<lparr>world := w\<rparr>) of
                (Inl e, s1) \<Rightarrow> Some (Inl e, s1)
              | (Inr _, s1) \<Rightarrow> sleepUntilTerminated depth api s1)))"

definition cancelRemaining :: "'w win_api \<Rightarrow> u16string \<Rightarrow> ('w, unit) win_action" where
  "cancelRemaining api path =
     bindE (getE win_watchPoints) (\<lambda>points.
     case points path of
       None \<Rightarrow> ret ()
     | Some a \<Rightarrow>
         bindE (deref api a) (\<lambda>obj.
         if status obj = WIN_LISTENING then
           tryE (bindE (cancel_win api a) (\<lambda>_. ret ()))
                (\<lambda>ex. logToJava api ERROR_LEVEL ''%s'' [Str (what api ex)])
         else ret ()))"

definition warnUnfinished :: "'w win_api \<Rightarrow> u16string \<Rightarrow> ('w, unit) win_action" where
  "warnUnfinished api path =
     bindE (getE win_watchPoints) (\<lambda>points.
     case points path of
       None \<Rightarrow> ret ()
     | Some a \<Rightarrow>
         bindE (deref api a) (\<lambda>obj.
         if status obj = WIN_NOT_LISTENING \<or> status obj = WIN_FINISHED then ret ()
         else logToJava api WARN_LEVEL
           ''Watch point %s did not finish before termination timeout (status = %d)''
           [Str (wideToUtf8String api (registeredPath obj)), Dec (win_status_value (status obj))]))"

definition finishRunLoop :: "nat \<Rightarrow> 'w win_api \<Rightarrow> ('w, unit) win_action" where
  "finishRunLoop depth api =
     thenE (logToJava api TRACE_LEVEL
       ''Finished with run loop, now cancelling remaining watch points'' [])
    (bindE (getE (\<lambda>s. winIterationOrder api (dom (win_watchPoints s)) (world s))) (\<lambda>paths.
     thenE (forE paths (cancelRemaining api))
    (thenE (logToJava api TRACE_LEVEL
       ''Waiting for any pending watch points to abort completely'' [])
    (thenE (alertable (Suc depth) api)
    (bindE (getE (\<lambda>s. winIterationOrder api (dom (win_watchPoints s)) (world s))) (\<lambda>paths.
     thenE (forE paths (warnUnfinished api))
    (bindE (getE threadHandle) (\<lambda>h.
     bindE (syscall_win (closeHandle api (case h of Some t \<Rightarrow> t | None \<Rightarrow> 0))) (\<lambda>r.
     bindE (liftE r) (\<lambda>_. ret ()))))))))))"

definition runLoop_win :: "nat \<Rightarrow> 'w win_api \<Rightarrow> ('w, unit) win_loop" where
  "runLoop_win depth api s =
     (case sleepUntilTerminated depth api s of
        None \<Rightarrow> None
      | Some (Inl e, s1) \<Rightarrow> Some (Inl e, s1)
      | Some (Inr _, s1) \<Rightarrow> Some (finishRunLoop depth api s1))"

section \<open>Dropping moved paths, and creating a server\<close>

text \<open>One entry of the loop of \<^verbatim>\<open>Server::stopWatchingMovedPaths\<close>, which runs on the caller's thread.\<close>

definition stopWatchingIfMoved :: "'w win_api \<Rightarrow> u16string \<Rightarrow> ('w, unit) win_action" where
  "stopWatchingIfMoved api path =
     bindE (getE win_watchPoints) (\<lambda>points.
     case points path of
       None \<Rightarrow> ret ()
     | Some a \<Rightarrow>
         bindE (deref api a) (\<lambda>obj.
         if status obj = WIN_FINISHED then ret ()
         else
           bindE (resolveFinalPath api (directoryHandle obj)) (\<lambda>currentFinalPath.
           if currentFinalPath \<noteq> Some (registeredFinalPath obj) then
             thenE (callMethod api (ListAdd (registeredPath obj)))
            (bindE getJavaExceptionAndPrintStacktrace (\<lambda>_.
             bindE (cancel_win api a) (\<lambda>_. ret ())))
           else ret ())))"

definition stopWatchingMovedPaths_win :: "'w win_api \<Rightarrow> ('w, unit) win_action" where
  "stopWatchingMovedPaths_win api =
     thenE (getThreadEnv api)
    (bindE (getE (\<lambda>s. winIterationOrder api (dom (win_watchPoints s)) (world s))) (\<lambda>paths.
     forE paths (stopWatchingIfMoved api)))"

definition stopWatchingMovedPaths0_win :: "'w win_api \<Rightarrow> nat option \<Rightarrow> ('w, unit) win_action" where
  "stopWatchingMovedPaths0_win api addr =
     tryE (thenE (getServer addr) (stopWatchingMovedPaths_win api))
          (\<lambda>e. rethrowAsJavaException api e)"

definition startWatcher0_win :: "'w win_api \<Rightarrow> int \<Rightarrow> ('w, unit) win_action" where
  "startWatcher0_win api timeout =
     thenE (construct_AbstractServer api)
     (modifyE (\<lambda>s. s\<lparr>commandTimeoutInMillis := to_long 32 timeout\<rparr>))"

end
