(* ===== verification/WinInv.thy ===== *)
theory WinInv
  imports WinCommands Registry
begin

text \<open>
  What the operations of the Windows server keep. Most of them neither create nor free a watch
  point and leave the table alone: they are \<open>steady\<close>. The invariant \<open>win_inv\<close> says that the table
  refers only to live watch points, each under its own path; it survives every call the run loop
  serves, at every depth of nesting.
\<close>

section \<open>Operations on the fields of the server\<close>

lemma same_server_win:
  assumes "same_server s s'"
  shows "objects s = objects s'" "nextAddress s = nextAddress s'"
    "win_watchPoints s = win_watchPoints s'" "commands s = commands s'"
    "win_shouldTerminate s = win_shouldTerminate s'" "threadHandle s = threadHandle s'"
    "commandTimeoutInMillis s = commandTimeoutInMillis s'" "handleCalls s = handleCalls s'"
    "useAfterFree s = useAfterFree s'" "lost s = lost s'"
  using assms by (cases s; cases s'; simp add: same_server_def)+

lemma framed_syscall_win [framed_rules]: "framed (syscall_win f)"
  by (rule framedI, rule keepsI) (simp add: syscall_win_def same_server_def)

lemma framed_getLastError [framed_rules]: "framed (getLastError api)"
  unfolding getLastError_def by (intro framed_rules)

lemma framed_prod [framed_rules]: "(\<And>x y. framed (f x y)) \<Longrightarrow> framed (case r of (x, y) \<Rightarrow> f x y)"
  by (cases r) simp

lemma framed_resolveFinalPath [framed_rules]: "framed (resolveFinalPath api h)"
  unfolding resolveFinalPath_def by (intro framed_rules)

section \<open>Steady operations\<close>

definition steady :: "'w win_server \<Rightarrow> 'w win_server \<Rightarrow> bool" where
  "steady s s0 \<longleftrightarrow>
     win_watchPoints s = win_watchPoints s0 \<and> nextAddress s = nextAddress s0 \<and>
     commands s = commands s0 \<and> win_shouldTerminate s = win_shouldTerminate s0 \<and>
     (\<forall>a. map_option registeredPath (objects s a) = map_option registeredPath (objects s0 a)) \<and>
     (useAfterFree s0 \<longrightarrow> useAfterFree s) \<and> (lost s0 \<longrightarrow> lost s)"

definition steady_op :: "('w, 'a) win_action \<Rightarrow> bool" where
  "steady_op m \<longleftrightarrow> (\<forall>s0. keeps (\<lambda>s. steady s s0) m)"

lemma steady_refl [simp]: "steady s s"
  by (simp add: steady_def)

lemma steady_opI: "(\<And>s0. keeps (\<lambda>s. steady s s0) m) \<Longrightarrow> steady_op m"
  by (simp add: steady_op_def)

lemma steady_opD: "steady_op m \<Longrightarrow> steady (snd (m s)) s"
  unfolding steady_op_def by (metis keepsD steady_refl)

lemma steady_keeps:
  assumes "steady_op m" and "\<And>s s'. I s \<Longrightarrow> steady s' s \<Longrightarrow> I s'"
  shows "keeps I m"
  using steady_opD [OF assms(1)] assms(2) by (intro keepsI) blast

named_theorems steady_rules \<open>operations that neither create nor free a watch point\<close>

lemma steady_trans: "steady s s' \<Longrightarrow> steady s' s'' \<Longrightarrow> steady s s''"
  by (simp add: steady_def)

lemma same_server_steady: "same_server s s' \<Longrightarrow> steady s s'"
  by (simp add: steady_def same_server_win)

lemma steady_framed: "framed m \<Longrightarrow> steady_op m"
  by (rule steady_opI, erule framed_keeps) (erule same_server_steady [THEN steady_trans])

lemma steady_bindE [steady_rules]: "steady_op m \<Longrightarrow> (\<And>x. steady_op (f x)) \<Longrightarrow> steady_op (bindE m f)"
  and steady_thenE [steady_rules]: "steady_op m \<Longrightarrow> steady_op n \<Longrightarrow> steady_op (thenE m n)"
  and steady_tryE [steady_rules]: "steady_op m \<Longrightarrow> (\<And>e. steady_op (h e)) \<Longrightarrow> steady_op (tryE m h)"
  by (auto simp: steady_op_def intro!: keeps_rules)

lemma steady_if [steady_rules]: "steady_op m \<Longrightarrow> steady_op n \<Longrightarrow> steady_op (if b then m else n)"
  by simp

lemma steady_option [steady_rules]:
  "steady_op m \<Longrightarrow> (\<And>y. steady_op (f y)) \<Longrightarrow> steady_op (case x of None \<Rightarrow> m | Some y \<Rightarrow> f y)"
  by (simp split: option.split)

lemma steady_prod [steady_rules]: "(\<And>x y. steady_op (f x y)) \<Longrightarrow> steady_op (case r of (x, y) \<Rightarrow> f x y)"
  by (cases r) simp

lemma steady_listen_result [steady_rules]:
  "steady_op m \<Longrightarrow> steady_op n \<Longrightarrow> steady_op (case r of LISTEN_SUCCESS \<Rightarrow> m | LISTEN_DELETED \<Rightarrow> n)"
  by (simp split: listen_result.split)

lemma steady_forE [steady_rules]: "(\<And>x. steady_op (f x)) \<Longrightarrow> steady_op (forE xs f)"
  by (auto simp: steady_op_def intro!: keeps_rules)

lemmas steady_basic [steady_rules] =
  framed_ret [THEN steady_framed] framed_raise [THEN steady_framed] framed_getE [THEN steady_framed]
  framed_liftE [THEN steady_framed] framed_syscall_win [THEN steady_framed]
  framed_getLastError [THEN steady_framed] framed_resolveFinalPath [THEN steady_framed]
  framed_reports [THEN steady_framed] framed_callMethod [THEN steady_framed]
  framed_of_silent [THEN steady_framed]

lemma steady_modify: "(\<And>s. steady (f s) s) \<Longrightarrow> steady_op (modifyE f)"
  by (rule steady_opI, rule keeps_modifyE) (blast intro: steady_trans)

lemma steady_useAfterFree [steady_rules]: "steady_op (modifyE (\<lambda>s. s\<lparr>useAfterFree := True\<rparr>))"
  and steady_lose [steady_rules]: "steady_op lose"
  and steady_handleCalls [steady_rules]: "steady_op (modifyE (\<lambda>s. s\<lparr>handleCalls := f s\<rparr>))"
  by (auto intro!: steady_modify simp: steady_def lose_def)

lemma steady_update_object:
  "(\<And>obj. registeredPath (f obj) = registeredPath obj) \<Longrightarrow> steady_op (update_object a f)"
  unfolding update_object_def
  by (rule steady_modify) (auto simp: steady_def option.map_comp comp_def)

lemma steady_set_status [steady_rules]: "steady_op (set_status a st)"
  unfolding set_status_def by (rule steady_update_object) simp

lemma steady_deref [steady_rules]: "steady_op (deref api a)"
  unfolding deref_def by (intro steady_rules)

lemma steady_isValidDirectory [steady_rules]: "steady_op (isValidDirectory api a)"
  unfolding isValidDirectory_def by (intro steady_rules)

lemma steady_close_win [steady_rules]: "steady_op (close_win api a)"
  unfolding close_win_def by (intro steady_rules)

lemma steady_listen [steady_rules]: "steady_op (listen api a)"
  unfolding listen_def by (intro steady_rules)

lemma steady_cancel_win [steady_rules]: "steady_op (cancel_win api a)"
  unfolding cancel_win_def by (intro steady_rules)

lemma steady_openDirectory [steady_rules]: "steady_op (openDirectory api a path)"
  unfolding openDirectory_def startListening_def
  by (intro steady_rules steady_update_object) simp_all

lemma framed_handleEvent_win [framed_rules]: "framed (handleEvent_win api path info)"
  unfolding handleEvent_win_def Let_def
  by (cases "classify (fi_action info) (fi_attributes info)") (auto intro!: framed_rules)

lemmas steady_handleEvent_win [steady_rules] = framed_handleEvent_win [THEN steady_framed]

lemma steady_reportWatchPointDeleted [steady_rules]: "steady_op (reportWatchPointDeleted api a)"
  unfolding reportWatchPointDeleted_def by (intro steady_rules)

text \<open>What the loop over the records keeps.\<close>

lemma handleRecordsFrom_keeps:
  assumes event: "\<And>info. keeps P (handleEvent_win api path info)" and lose: "keeps P lose"
    and run: "handleRecordsFrom (api :: 'a win_api) path buf index s = Some (r, s')" and "P s"
  shows "P s'"
proof -
  let ?P = "\<lambda>a p b (i :: 32 word) (s :: 'a win_server) (q :: (exn + unit) \<times> 'a win_server).
      a = api \<and> p = path \<and> b = buf \<longrightarrow> P s \<longrightarrow> P (snd q)"
  have "?P api path buf index s (r, s')"
  proof (rule handleRecordsFrom.raw_induct [of ?P, OF _ run])
    fix loop a p b i s and q :: "(exn + unit) \<times> 'a win_server"
    assume IH: "\<And>a p b i s q. loop a p b i s = Some q \<Longrightarrow> ?P a p b i s q"
      and body: "(case if sint i < 0 then None else info_at b (nat (sint i)) of None \<Rightarrow> Some (lose s)
         | Some info \<Rightarrow>
             (case handleEvent_win a p info s of
                (Inl e, s1) \<Rightarrow> Some (Inl e, s1)
              | (Inr u, s1) \<Rightarrow>
                  if fi_next info = 0 then Some (Inr (), s1)
                  else loop a p b (i + fi_next info) s1)) = Some q"
    show "?P a p b i s q"
      using body keepsD [OF lose, of s] keepsD [OF event, of s] keepsD' [OF event, of s]
      by (auto split: option.splits prod.splits sum.splits if_splits dest!: IH)
  qed
  with \<open>P s\<close> show ?thesis by simp
qed

lemma keeps_handleRecords:
  assumes "\<And>info. keeps P (handleEvent_win api path info)" and "keeps P lose"
  shows "keeps P (handleRecords api path buf)"
proof (rule keepsI)
  fix s assume "P s"
  then show "P (snd (handleRecords api path buf s))"
    using handleRecordsFrom_keeps [OF assms] keepsD [OF assms(2)]
    by (auto simp: handleRecords_def split: option.split)
qed

lemma steady_handleRecords [steady_rules]: "steady_op (handleRecords api path buf)"
  using steady_handleEvent_win steady_lose unfolding steady_op_def by (metis keeps_handleRecords)

lemma steady_handleEventsInBuffer [steady_rules]:
  "steady_op (handleEventsInBuffer api a errorCode bytes buf)"
  unfolding handleEventsInBuffer_def handleEvents_win_def handleEventsBody_def
    listenAgain_def
  by (intro steady_rules)

lemma steady_cancelRemaining [steady_rules]: "steady_op (cancelRemaining api path)"
  unfolding cancelRemaining_def by (intro steady_rules)

lemma steady_warnUnfinished [steady_rules]: "steady_op (warnUnfinished api path)"
  unfolding warnUnfinished_def by (intro steady_rules)

lemma steady_stopWatchingIfMoved [steady_rules]: "steady_op (stopWatchingIfMoved api path)"
  unfolding stopWatchingIfMoved_def by (intro steady_rules)

section \<open>The invariant\<close>

definition win_inv :: "'w win_server \<Rightarrow> bool" where
  "win_inv s \<longleftrightarrow>
     (\<forall>p a. win_watchPoints s p = Some a \<longrightarrow>
        map_option registeredPath (objects s a) = Some p) \<and>
     (\<forall>a \<ge> nextAddress s. objects s a = None \<and> commands s a = None)"

lemma win_inv_table:
  "win_inv s \<Longrightarrow> win_watchPoints s p = Some a \<Longrightarrow> \<exists>obj. objects s a = Some obj \<and> registeredPath obj = p"
  by (auto simp: win_inv_def)

lemma win_inv_steady: "win_inv s \<Longrightarrow> steady s' s \<Longrightarrow> win_inv s'"
  unfolding win_inv_def steady_def by (metis option.map_disc_iff)

lemma init_win_inv: "win_inv (init_win_server w t)"
  by (simp add: win_inv_def init_win_server_def)

text \<open>The invariant with a set of addresses that the table does not refer to: the watch points that
  are being destroyed on the way.\<close>

definition win_inv_except :: "nat set \<Rightarrow> 'w win_server \<Rightarrow> bool" where
  "win_inv_except A s \<longleftrightarrow>
     win_inv s \<and> (\<forall>a\<in>A. a < nextAddress s \<and> a \<notin> ran (win_watchPoints s))"

lemma win_inv_except_empty: "win_inv_except {} = win_inv"
  by (auto simp: win_inv_except_def)

lemma win_inv_except_weaken: "win_inv_except B s \<Longrightarrow> A \<subseteq> B \<Longrightarrow> win_inv_except A s"
  by (auto simp: win_inv_except_def)

lemma steady_keeps_except: "steady_op m \<Longrightarrow> keeps (win_inv_except A) m"
  by (erule steady_keeps) (auto simp: win_inv_except_def steady_def intro: win_inv_steady)

definition keeps_all :: "('w, 'a) win_action \<Rightarrow> bool" where
  "keeps_all m \<longleftrightarrow> (\<forall>A. keeps (win_inv_except A) m)"

lemma keeps_allD: "keeps_all m \<Longrightarrow> keeps (win_inv_except A) m"
  by (simp add: keeps_all_def)

lemma steady_keeps_all: "steady_op m \<Longrightarrow> keeps_all m"
  by (simp add: keeps_all_def steady_keeps_except)


lemma keeps_all_bindE: "keeps_all m \<Longrightarrow> (\<And>x. keeps_all (f x)) \<Longrightarrow> keeps_all (bindE m f)"
  and keeps_all_thenE: "keeps_all m \<Longrightarrow> keeps_all n \<Longrightarrow> keeps_all (thenE m n)"
  and keeps_all_tryE: "keeps_all m \<Longrightarrow> (\<And>e. keeps_all (h e)) \<Longrightarrow> keeps_all (tryE m h)"
  and keeps_all_forE: "(\<And>x. keeps_all (g x)) \<Longrightarrow> keeps_all (forE xs g)"
  and keeps_all_conjE: "(\<And>x. keeps_all (k x)) \<Longrightarrow> keeps_all (conjE xs k b)"
  by (auto simp: keeps_all_def intro!: keeps_rules)

lemmas keeps_all_basic =
  framed_ret [THEN steady_framed, THEN steady_keeps_all]
  framed_getE [THEN steady_framed, THEN steady_keeps_all]
  framed_syscall_win [THEN steady_framed, THEN steady_keeps_all]
  steady_useAfterFree [THEN steady_keeps_all]
  steady_lose [THEN steady_keeps_all]
  steady_handleEventsInBuffer [THEN steady_keeps_all]

section \<open>Creating and destroying watch points\<close>

text \<open>The state after the memory of the next watch point was allocated.\<close>

definition alloc_point :: "u16string \<Rightarrow> 'w win_server \<Rightarrow> 'w win_server" where
  "alloc_point path s = s\<lparr>nextAddress := nextAddress s + 1,
     objects := (objects s)(nextAddress s \<mapsto> \<lparr>registeredPath = path, directoryHandle = 0,
       registeredFinalPath = [], status = WIN_NOT_LISTENING\<rparr>)\<rparr>"

lemma construct_win_run:
  "construct_win api path s =
    (case openDirectory api (nextAddress s) path (alloc_point path s) of
       (Inl e, s1) \<Rightarrow> (Inl e, s1\<lparr>objects := (objects s1)(nextAddress s := None)\<rparr>)
     | (Inr _, s1) \<Rightarrow> (Inr (nextAddress s), s1))"
  by (simp add: construct_win_def exec_simps free_object_def alloc_point_def
      split: prod.split sum.split)

lemma win_inv_alloc:
  assumes "win_inv_except A s"
  shows "win_inv_except (insert (nextAddress s) A) (alloc_point path s)"
proof -
  have "objects s (nextAddress s) = None" using assms by (simp add: win_inv_except_def win_inv_def)
  then have "nextAddress s \<notin> ran (win_watchPoints s)"
    using assms by (auto simp: win_inv_except_def ran_def dest!: win_inv_table)
  with assms show ?thesis
    by (auto simp: win_inv_except_def win_inv_def alloc_point_def ran_def)
qed

lemma free_unreferenced:
  assumes "win_inv_except (insert a A) s"
  shows "win_inv_except (insert a A) (s\<lparr>objects := (objects s)(a := None)\<rparr>)"
  using assms by (auto simp: win_inv_except_def win_inv_def ran_def)

lemma construct_win_keeps:
  assumes "win_inv_except A s"
  shows construct_win_ok: "construct_win api path s = (Inr a, s') \<Longrightarrow>
      win_inv_except (insert a A) s' \<and> a \<notin> A \<and> map_option registeredPath (objects s' a) = Some path"
    and construct_win_err: "construct_win api path s = (Inl e, s') \<Longrightarrow> win_inv_except A s'"
proof -
  let ?a = "nextAddress s"
  obtain r s1 where run: "openDirectory api ?a path (alloc_point path s) = (r, s1)" by fastforce
  have inv: "win_inv_except (insert ?a A) s1"
    using keepsD' [OF steady_keeps_except [OF steady_openDirectory] win_inv_alloc [OF assms] run] .
  have "steady s1 (alloc_point path s)"
    using steady_opD [OF steady_openDirectory, of api ?a path "alloc_point path s"] run by simp
  then have path: "map_option registeredPath (objects s1 ?a) = Some path"
    by (simp add: steady_def alloc_point_def)
  have new: "?a \<notin> A" using assms by (auto simp: win_inv_except_def)
  from inv path new show "construct_win api path s = (Inr a, s') \<Longrightarrow>
      win_inv_except (insert a A) s' \<and> a \<notin> A \<and> map_option registeredPath (objects s' a) = Some path"
    by (auto simp: construct_win_run run split: sum.splits)
  from free_unreferenced [OF inv] show "construct_win api path s = (Inl e, s') \<Longrightarrow> win_inv_except A s'"
    by (auto simp: construct_win_run run split: sum.splits intro: win_inv_except_weaken)
qed

lemma destroy_win_keeps:
  assumes "keeps_all nested"
  shows "keeps (win_inv_except (insert a A)) (destroy_win api nested a)"
  unfolding destroy_win_def
proof (rule keeps_thenE)
  show "keeps (win_inv_except (insert a A))
      (tryE (tryE (bindE (cancel_win api a) (\<lambda>_. thenE nested (close_win api a)))
        (\<lambda>ex. bindE (deref api a) (\<lambda>obj. logToJava api WARN_LEVEL ''Couldn't cancel watch point %s: %s''
          [Str (wideToUtf8String api (registeredPath obj)), Str (what api ex)]))) (\<lambda>_. lose))"
    by (intro keeps_rules keeps_allD [OF assms] steady_keeps_except steady_rules)
  show "keeps (win_inv_except (insert a A)) (free_object a)"
    unfolding free_object_def by (rule keeps_modifyE, rule free_unreferenced)
qed

lemma win_inv_erase:
  assumes "win_inv_except A s" "win_watchPoints s path = Some a"
  shows "win_inv_except (insert a A) (s\<lparr>win_watchPoints := (win_watchPoints s)(path := None)\<rparr>)"
proof -
  have inv: "win_inv s" and A: "\<forall>b\<in>A. b < nextAddress s \<and> b \<notin> ran (win_watchPoints s)"
    using assms(1) by (simp_all add: win_inv_except_def)
  obtain obj where obj: "objects s a = Some obj" "registeredPath obj = path"
    using win_inv_table [OF inv assms(2)] by blast
  have "a < nextAddress s"
    using inv obj(1) by (metis linorder_not_less option.distinct(1) win_inv_def)
  moreover have "a \<notin> ran ((win_watchPoints s)(path := None))"
    using win_inv_table [OF inv, of _ a] obj by (auto simp: ran_def)
  moreover have "ran ((win_watchPoints s)(path := None)) \<subseteq> ran (win_watchPoints s)"
    by (auto simp: ran_def)
  moreover have "win_inv (s\<lparr>win_watchPoints := (win_watchPoints s)(path := None)\<rparr>)"
    using inv by (simp add: win_inv_def)
  ultimately show ?thesis using A by (auto simp: win_inv_except_def)
qed

lemma erase_win_keeps:
  assumes "keeps_all nested" "win_inv_except A s" "win_watchPoints s path = Some a"
    and "erase_win api nested path a s = (r, s')"
  shows "win_inv_except A s'"
proof -
  let ?s = "s\<lparr>win_watchPoints := (win_watchPoints s)(path := None)\<rparr>"
  have "destroy_win api nested a ?s = (r, s')"
    using assms(4) by (simp add: erase_win_def exec_simps)
  from keepsD' [OF destroy_win_keeps [OF assms(1)] win_inv_erase [OF assms(2,3)] this]
  show ?thesis by (rule win_inv_except_weaken) auto
qed

lemma emplace_win_keeps:
  assumes "keeps_all nested" "win_inv_except (insert a A) s" "a \<notin> A"
    and "map_option registeredPath (objects s a) = Some path"
    and "emplace_win api nested path a s = (r, s')"
  shows "win_inv_except A s'"
proof (cases "win_watchPoints s path")
  case None
  then show ?thesis
    using assms(2-5)
    by (auto simp: emplace_win_def exec_simps win_inv_except_def win_inv_def split: if_splits)
next
  case (Some b)
  then have "destroy_win api nested a s = (r, s')" using assms(5) by (simp add: emplace_win_def exec_simps)
  from keepsD' [OF destroy_win_keeps [OF assms(1)] assms(2) this]
  show ?thesis by (rule win_inv_except_weaken) auto
qed


section \<open>The calls the run loop serves\<close>

lemma keeps_all_clearFinished:
  assumes "keeps_all nested"
  shows "keeps_all (clearFinished api nested path)"
  unfolding keeps_all_def
proof (intro allI keepsI)
  fix A and s :: "'a win_server"
  assume inv: "win_inv_except A s"
  show "win_inv_except A (snd (clearFinished api nested path s))"
  proof (cases "win_watchPoints s path")
    case None
    with inv show ?thesis by (simp add: clearFinished_def run_get_bind run_ret)
  next
    case (Some a)
    obtain obj where obj: "objects s a = Some obj"
      using inv Some by (auto simp: win_inv_except_def dest: win_inv_table)
    obtain r s' where run: "erase_win api nested path a s = (r, s')" by fastforce
    from erase_win_keeps [OF assms inv Some run] inv run obj Some show ?thesis
      by (simp add: clearFinished_def run_get_bind deref_def exec_simps)
  qed
qed

lemma keeps_all_create:
  assumes "keeps_all nested"
  shows "keeps_all (bindE (construct_win api path) (\<lambda>a. emplace_win api nested path a))"
  unfolding keeps_all_def
proof (intro allI keepsI)
  fix A and s :: "'a win_server"
  assume inv: "win_inv_except A s"
  obtain r s1 where s1: "construct_win api path s = (r, s1)" by fastforce
  show "win_inv_except A (snd (bindE (construct_win api path) (\<lambda>a. emplace_win api nested path a) s))"
  proof (cases r)
    case (Inl e)
    with s1 construct_win_err [OF inv] show ?thesis by (simp add: run_bindE)
  next
    case (Inr a)
    obtain r2 s2 where s2: "emplace_win api nested path a s1 = (r2, s2)" by fastforce
    from construct_win_ok [OF inv, of api path a s1] s1 Inr emplace_win_keeps [OF assms _ _ _ s2]
    have "win_inv_except A s2" by blast
    with s1 Inr s2 show ?thesis by (simp add: run_bindE)
  qed
qed

lemma keeps_all_registerPath_win:
  "keeps_all nested \<Longrightarrow> keeps_all (registerPath_win api nested path)"
  unfolding registerPath_win_def
  by (intro keeps_all_thenE keeps_all_clearFinished keeps_all_create)

lemma keeps_all_unregisterPath_win:
  assumes "keeps_all nested"
  shows "keeps_all (unregisterPath_win api nested path)"
  unfolding keeps_all_def
proof (intro allI keepsI)
  fix A and s :: "'a win_server"
  assume inv: "win_inv_except A s"
  show "win_inv_except A (snd (unregisterPath_win api nested path s))"
  proof (cases "win_watchPoints s path")
    case None
    have "keeps (win_inv_except A) (thenE (logToJava api INFO_LEVEL ''Path is not watched: %s''
        [Str (wideToUtf8String api path)]) (ret False))"
      by (intro steady_keeps_except steady_rules)
    from keepsD [OF this inv] None show ?thesis by (simp add: unregisterPath_win_def run_get_bind)
  next
    case (Some a)
    obtain r s' where run: "erase_win api nested path a s = (r, s')" by fastforce
    from erase_win_keeps [OF assms inv Some run] run Some show ?thesis
      by (cases r) (simp_all add: unregisterPath_win_def exec_simps)
  qed
qed

lemma keeps_all_modify:
  "(\<And>s. win_inv s \<Longrightarrow> win_inv (f s)) \<Longrightarrow>
   (\<And>s. nextAddress (f s) = nextAddress s \<and> win_watchPoints (f s) = win_watchPoints s) \<Longrightarrow>
   keeps_all (modifyE f)"
  by (auto simp: keeps_all_def win_inv_except_def intro!: keeps_modifyE)

lemma keeps_all_run_work:
  assumes "keeps_all nested"
  shows "keeps_all (run_work api nested w)"
proof (cases w)
  case (RegisterWork ps)
  then show ?thesis
    by (auto intro!: keeps_all_thenE keeps_all_forE keeps_all_registerPath_win [OF assms]
        keeps_all_basic)
next
  case (UnregisterWork ps)
  then show ?thesis by (auto intro!: keeps_all_conjE keeps_all_unregisterPath_win [OF assms])
next
  case ShutdownWork
  then show ?thesis
    by (auto intro!: keeps_all_thenE keeps_all_modify keeps_all_basic simp: win_inv_def)
qed

lemma keeps_all_update_command: "keeps_all (update_command c f)"
  unfolding update_command_def
  by (rule keeps_all_modify) (auto simp: win_inv_def split: option.split)

lemma keeps_all_executeInsideRunLoop:
  assumes "keeps_all nested"
  shows "keeps_all (executeInsideRunLoop api nested c)"
  unfolding executeInsideRunLoop_def
proof (rule keeps_all_bindE)
  show "keeps_all (getE commands)" by (intro keeps_all_basic)
  fix cmds :: "nat \<rightharpoonup> command"
  show "keeps_all (case cmds c of
       None \<Rightarrow> modifyE (\<lambda>s. s\<lparr>useAfterFree := True\<rparr>)
     | Some cmd \<Rightarrow>
         tryE (bindE (run_work api nested (cmd_work cmd)) (\<lambda>r.
                 update_command c (\<lambda>cmd. cmd\<lparr>cmd_result := Some r\<rparr>)))
              (\<lambda>e. update_command c (\<lambda>cmd. cmd\<lparr>cmd_failure := Some e\<rparr>)))"
    by (cases "cmds c")
      (auto intro!: keeps_all_basic keeps_all_tryE keeps_all_bindE
        keeps_all_run_work [OF assms] keeps_all_update_command)
qed

lemma keeps_all_run_apc: "keeps_all nested \<Longrightarrow> keeps_all (run_apc api nested call)"
  by (cases call)
    (auto simp: run_apc_def intro!: keeps_all_basic keeps_all_executeInsideRunLoop)

lemma keeps_all_alertable: "keeps_all (alertable depth api)"
  by (induction depth)
    (auto intro!: keeps_all_bindE keeps_all_forE keeps_all_run_apc keeps_all_basic)

section \<open>Reachable states\<close>

text \<open>The run loop serves a call or goes through its final loops; a caller queues a command, gives it
  up, or drops moved paths; the world outside moves on.\<close>

inductive win_step :: "'w win_api \<Rightarrow> 'w win_server \<Rightarrow> 'w win_server \<Rightarrow> bool" for api where
  serve: "run_apc api (alertable depth api) call s = (r, s') \<Longrightarrow> win_step api s s'"
| cancel: "cancelRemaining api path s = (r, s') \<Longrightarrow> win_step api s s'"
| warn: "warnUnfinished api path s = (r, s') \<Longrightarrow> win_step api s s'"
| queue: "win_step api s (s\<lparr>nextAddress := nextAddress s + 1, commands := (commands s)
    (nextAddress s \<mapsto> \<lparr>cmd_work = w, cmd_result = None, cmd_failure = None\<rparr>)\<rparr>)"
| give_up: "win_step api s (s\<lparr>commands := (commands s)(c := None)\<rparr>)"
| moved: "stopWatchingIfMoved api path s = (r, s') \<Longrightarrow> win_step api s s'"
| outside: "same_server s' s \<Longrightarrow> win_step api s s'"

inductive win_reachable :: "'w win_api \<Rightarrow> 'w win_server \<Rightarrow> bool" for api where
  start: "win_reachable api (init_win_server w timeout)"
| more_step: "win_reachable api s \<Longrightarrow> win_step api s s' \<Longrightarrow> win_reachable api s'"

inductive_cases win_stepE: "win_step api s s'"

lemma win_inv_keeps: "keeps_all m \<Longrightarrow> win_inv s \<Longrightarrow> m s = (r, s') \<Longrightarrow> win_inv s'"
  by (metis keepsD' keeps_allD win_inv_except_empty)

lemma win_step_inv:
  assumes "win_step api s s'" "win_inv s"
  shows "win_inv s'"
  using assms(1)
proof cases
  case (serve depth call r)
  from win_inv_keeps [OF keeps_all_run_apc [OF keeps_all_alertable] assms(2) serve] show ?thesis .
next
  case (cancel path r)
  from win_inv_keeps [OF steady_keeps_all [OF steady_cancelRemaining] assms(2) cancel] show ?thesis .
next
  case (warn path r)
  from win_inv_keeps [OF steady_keeps_all [OF steady_warnUnfinished] assms(2) warn] show ?thesis .
next
  case (moved path r)
  from win_inv_keeps [OF steady_keeps_all [OF steady_stopWatchingIfMoved] assms(2) moved] show ?thesis .
next
  case outside
  from win_inv_steady [OF assms(2) same_server_steady [OF outside]] show ?thesis .
qed (use assms(2) in \<open>auto simp: win_inv_def\<close>)

lemma win_reachable_inv: "win_reachable api s \<Longrightarrow> win_inv s"
  by (induction rule: win_reachable.induct) (auto intro: init_win_inv win_step_inv)

end
