(* ===== verification/WinLedger.thy ===== *)
theory WinLedger
  imports WinInv
begin

text \<open>
  The handles of the watch points. Closing is the only way a handle is closed, and a watch point that
  is \<open>WIN_FINISHED\<close> is not closed again; so with a logger that does not throw no handle is closed
  more often than it was opened. The invariant counts the watch points that still own their handle.
\<close>

section \<open>Closing\<close>

definition close_point :: "nat \<Rightarrow> win_watch_point \<Rightarrow> 'w win_server \<Rightarrow> 'w win_server" where
  "close_point a obj s =
     s\<lparr>handleCalls := handleCalls s @ [Closed (directoryHandle obj)],
       objects := (objects s)(a \<mapsto> obj\<lparr>status := WIN_FINISHED\<rparr>)\<rparr>"

lemma logToJava_returns: "jni_ok j \<Longrightarrow> fst (logToJava j l f args s) = Inr ()"
  by (simp add: logToJava_ok)

lemma silent_syscall_win [framed_rules]: "silent (syscall_win f)"
  by (rule silentI, rule keepsI) (simp add: syscall_win_def same_server_def reports_def)

lemma silent_getLastError [framed_rules]: "silent (getLastError api)"
  unfolding getLastError_def by (intro framed_rules)

lemma silent_resolveFinalPath [framed_rules]: "silent (resolveFinalPath api h)"
  unfolding resolveFinalPath_def by (rule silent_bindE) (auto intro!: framed_rules split: prod.split)

lemma deref_live: "objects s a = Some obj \<Longrightarrow> deref api a s = (Inr obj, s)"
  by (simp add: deref_def exec_simps)

lemma deref_freed: "objects s a = None \<Longrightarrow> deref api a s = (Inr (freedObject api a), s\<lparr>useAfterFree := True\<rparr>)"
  by (simp add: deref_def exec_simps)

lemma run_deref_live: "objects s a = Some obj \<Longrightarrow> bindE (deref api a) f s = f obj s"
  by (simp add: run_bindE deref_live)

lemma run_deref_freed:
  "objects s a = None \<Longrightarrow> bindE (deref api a) f s = f (freedObject api a) (s\<lparr>useAfterFree := True\<rparr>)"
  by (simp add: run_bindE deref_freed)

lemma close_win_run:
  assumes "jni_ok api" and obj: "objects s a = Some obj"
  obtains s' where "close_win api a s = (Inr (), s')" and "reports s' = reports s"
    and "same_server s' (if status obj = WIN_FINISHED then s else close_point a obj s)"
proof (cases "status obj = WIN_FINISHED")
  case True
  then show ?thesis
    by (intro that [of s]) (simp_all add: close_win_def run_deref_live [OF obj] run_ret)
next
  case False
  let ?s = "s\<lparr>handleCalls := handleCalls s @ [Closed (directoryHandle obj)]\<rparr>"
  let ?close = "bindE (syscall_win (closeHandle api (directoryHandle obj))) (\<lambda>r.
            bindE (liftE r) (\<lambda>success.
            if \<not> success then
              bindE (getLastError api) (\<lambda>err.
              logToJava api ERROR_LEVEL
                (closeErrorText api (directoryHandle obj) (registeredPath obj) (to_string err)) [])
            else ret ()))"
  let ?handler = "\<lambda>ex. logToJava api ERROR_LEVEL
             (closeErrorText api (directoryHandle obj) (registeredPath obj) (what api ex)) []"
  have close: "silent ?close" by (intro framed_rules)
  obtain r1 s1 where s1: "?close ?s = (r1, s1)" by fastforce
  from silentD [OF close, of ?s] s1 have same1: "same_server s1 ?s" "reports s1 = reports ?s" by simp_all
  define s2 where "s2 = snd (case r1 of Inl e \<Rightarrow> ?handler e s1 | Inr _ \<Rightarrow> (Inr (), s1))"
  have run2: "(case r1 of Inl e \<Rightarrow> ?handler e s1 | Inr u \<Rightarrow> (Inr u, s1)) = (Inr (), s2)"
    using logToJava_returns [OF assms(1)] unfolding s2_def
    by (cases r1) (auto simp: prod_eq_iff)
  have same2: "same_server s2 ?s" "reports s2 = reports s"
  proof -
    have "same_server s2 s1 \<and> reports s2 = reports s1"
      unfolding s2_def by (cases r1) (auto simp: silentD [OF silent_logToJava])
    with same1 show "same_server s2 ?s" "reports s2 = reports s"
      by (auto intro: same_server_trans simp: reports_def)
  qed
  have run: "close_win api a s = set_status a WIN_FINISHED s2"
    using False s1 run2
    by (simp add: close_win_def run_deref_live [OF obj] run_thenE run_tryE run_modifyE split: sum.splits)
  have fields: "objects s2 = objects s" "handleCalls s2 = handleCalls ?s"
    using same_server_win [OF same2(1)] by simp_all
  show ?thesis
  proof (rule that)
    show "close_win api a s = (Inr (), snd (set_status a WIN_FINISHED s2))"
      by (simp add: run set_status_def update_object_def run_modifyE)
    show "reports (snd (set_status a WIN_FINISHED s2)) = reports s"
      using same2(2) by (simp add: set_status_def update_object_def run_modifyE reports_def)
    show "same_server (snd (set_status a WIN_FINISHED s2))
        (if status obj = WIN_FINISHED then s else close_point a obj s)"
      using False same2(1) fields obj
      by (cases s2; cases s) (simp add: set_status_def update_object_def run_modifyE close_point_def
          same_server_def)
  qed
qed


section \<open>The balance of the handles\<close>

text \<open>The watch points that still own the handle, and the invariant; after a use of freed memory it
  says nothing.\<close>

definition open_points :: "'w win_server \<Rightarrow> nat \<Rightarrow> nat set" where
  "open_points s h =
     {a. \<exists>obj. objects s a = Some obj \<and> status obj \<noteq> WIN_FINISHED \<and> directoryHandle obj = h}"

definition balanced :: "'w win_server \<Rightarrow> nat set \<Rightarrow> bool" where
  "balanced s A \<longleftrightarrow> finite (dom (objects s)) \<and>
     (\<forall>h. count_list (handleCalls s) (Closed h) + card (open_points s h - A)
            \<le> count_list (handleCalls s) (Opened h))"

definition ledger :: "'w win_server \<Rightarrow> bool" where
  "ledger s \<longleftrightarrow> useAfterFree s \<or> balanced s {}"

definition unfinished :: "nat \<Rightarrow> 'w win_server \<Rightarrow> bool" where
  "unfinished a s \<longleftrightarrow> (\<forall>obj. objects s a = Some obj \<longrightarrow> status obj \<noteq> WIN_FINISHED)"

lemma open_points_sub: "open_points s h \<subseteq> dom (objects s)"
  by (auto simp: open_points_def)

lemma balanced_same: "same_server s s' \<Longrightarrow> balanced s A = balanced s' A"
  by (simp add: balanced_def open_points_def same_server_win)

lemma ledger_same: "same_server s s' \<Longrightarrow> ledger s' \<Longrightarrow> ledger s"
  by (simp add: ledger_def same_server_win balanced_same)

lemma unfinished_same: "same_server s s' \<Longrightarrow> unfinished a s' \<Longrightarrow> unfinished a s"
  by (simp add: unfinished_def same_server_win)

lemma ledger_freed: "useAfterFree s \<Longrightarrow> ledger s"
  by (simp add: ledger_def)

lemma ledger_fields:
  "ledger s \<Longrightarrow> objects s' = objects s \<Longrightarrow> handleCalls s' = handleCalls s \<Longrightarrow>
   (useAfterFree s \<Longrightarrow> useAfterFree s') \<Longrightarrow> ledger s'"
  by (auto simp: ledger_def balanced_def open_points_def)

lemma init_ledger: "ledger (init_win_server w t)"
  by (simp add: ledger_def balanced_def open_points_def init_win_server_def)

lemma balanced_mono:
  assumes "balanced s A" "handleCalls s' = handleCalls s" "finite (dom (objects s'))"
    and "\<And>h. open_points s' h - B \<subseteq> open_points s h - A"
  shows "balanced s' B"
proof -
  have fewer: "card (open_points s' h - B) \<le> card (open_points s h - A)" for h
    using assms(1,4) open_points_sub [of s h]
    by (intro card_mono) (auto simp: balanced_def intro: finite_subset)
  show ?thesis
    unfolding balanced_def
  proof (intro conjI allI)
    show "finite (dom (objects s'))" by (rule assms(3))
    fix h
    have "count_list (handleCalls s) (Closed h) + card (open_points s h - A)
        \<le> count_list (handleCalls s) (Opened h)"
      using assms(1) by (simp add: balanced_def)
    with fewer [of h] show "count_list (handleCalls s') (Closed h) + card (open_points s' h - B)
        \<le> count_list (handleCalls s') (Opened h)"
      unfolding assms(2) by linarith
  qed
qed

lemma balanced_close:
  assumes "balanced s {}" "objects s a = Some obj" "status obj \<noteq> WIN_FINISHED"
  shows "balanced (close_point a obj s) {}"
  unfolding balanced_def
proof (intro conjI allI)
  show "finite (dom (objects (close_point a obj s)))"
    using assms(1) by (simp add: balanced_def close_point_def)
  fix h
  have fin: "finite (open_points s h)"
    using assms(1) finite_subset [OF open_points_sub] by (auto simp: balanced_def)
  have le: "count_list (handleCalls s) (Closed h) + card (open_points s h) \<le> count_list (handleCalls s) (Opened h)"
    using assms(1) by (simp add: balanced_def)
  have points: "open_points (close_point a obj s) h = open_points s h - {a}"
    by (auto simp: open_points_def close_point_def split: if_splits)
  show "count_list (handleCalls (close_point a obj s)) (Closed h) +
      card (open_points (close_point a obj s) h - {}) \<le>
    count_list (handleCalls (close_point a obj s)) (Opened h)"
  proof (cases "directoryHandle obj = h")
    case True
    then have "a \<in> open_points s h" using assms(2,3) by (simp add: open_points_def)
    with fin have "card (open_points s h) = Suc (card (open_points s h - {a}))"
      by (metis card_Suc_Diff1)
    with le points True show ?thesis by (simp add: close_point_def)
  next
    case False
    then have "a \<notin> open_points s h" using assms(2) by (simp add: open_points_def)
    with le points False show ?thesis by (simp add: close_point_def)
  qed
qed

text \<open>A steady operation that starts with the dereference of a freed watch point.\<close>

lemma freed_ledger:
  assumes "steady_op m" "m = bindE (deref api a) f" "objects s a = None"
  shows "ledger (snd (m s))"
proof -
  let ?s = "s\<lparr>useAfterFree := True\<rparr>"
  have "m s = m ?s" using assms(2,3) by (simp add: run_deref_freed)
  moreover have "steady (snd (m ?s)) ?s" by (rule steady_opD [OF assms(1)])
  ultimately show ?thesis by (auto simp: steady_def intro: ledger_freed)
qed

lemma ledger_close_win:
  assumes "jni_ok api" "ledger s"
  shows "ledger (snd (close_win api a s))"
proof (cases "objects s a")
  case None
  then show ?thesis by (rule freed_ledger [OF steady_close_win close_win_def])
next
  case (Some obj)
  from assms(1) Some show ?thesis
  proof (rule close_win_run)
    fix s' assume run: "close_win api a s = (Inr (), s')"
      and same: "same_server s' (if status obj = WIN_FINISHED then s else close_point a obj s)"
    have "ledger (if status obj = WIN_FINISHED then s else close_point a obj s)"
      using assms(2) balanced_close [OF _ Some]
      by (auto simp: ledger_def close_point_def)
    with same run show ?thesis by (auto intro: ledger_same)
  qed
qed


section \<open>The operations keep the balance\<close>

definition balanced_at :: "nat \<Rightarrow> 'w win_server \<Rightarrow> bool" where
  "balanced_at a s \<longleftrightarrow> ledger s \<and> unfinished a s"

definition spends :: "nat \<Rightarrow> ('w, 'b) win_action \<Rightarrow> bool" where
  "spends a m \<longleftrightarrow> triple (balanced_at a) m (\<lambda>_. ledger) (\<lambda>_. ledger)"

lemma keeps_ledger_framed: "framed m \<Longrightarrow> keeps ledger m"
  by (rule framed_keeps) (auto intro: ledger_same)

lemma keeps_at_framed: "framed m \<Longrightarrow> keeps (balanced_at a) m"
  by (rule framed_keeps) (auto simp: balanced_at_def intro: ledger_same unfinished_same)

lemma keeps_ledger_deref: "keeps ledger (deref api a)"
  and keeps_at_deref: "keeps (balanced_at b) (deref api a)"
  by (rule keepsI,
      auto simp: deref_def exec_simps balanced_at_def unfinished_def intro: ledger_freed split: option.split)+

named_theorems spends_rules \<open>operations that may close a watch point that is not finished\<close>

lemma spends_keeps: "keeps ledger m \<Longrightarrow> spends a m"
  unfolding spends_def keeps_def by (erule triple_weaken) (auto simp: balanced_at_def)

lemma spends_bindE [spends_rules]:
  "keeps (balanced_at a) m \<Longrightarrow> (\<And>x. spends a (f x)) \<Longrightarrow> spends a (bindE m f)"
  unfolding spends_def keeps_def
  by (rule triple_bind [of _ _ "\<lambda>_. balanced_at a"], erule triple_weaken) (auto simp: balanced_at_def)

lemma spends_thenE [spends_rules]:
  "keeps (balanced_at a) m \<Longrightarrow> spends a n \<Longrightarrow> spends a (thenE m n)"
  unfolding thenE_def by (rule spends_bindE)

text \<open>What comes after needs the balance only.\<close>

lemma spends_then_ledger:
  "spends a m \<Longrightarrow> (\<And>x. keeps ledger (f x)) \<Longrightarrow> spends a (bindE m f)"
  unfolding spends_def keeps_def by (erule triple_bind)

lemma spends_tryE: "spends a m \<Longrightarrow> (\<And>e. keeps ledger (h e)) \<Longrightarrow> spends a (tryE m h)"
  unfolding spends_def keeps_def by (erule triple_try)

lemma spends_if [spends_rules]:
  "spends a m \<Longrightarrow> spends a n \<Longrightarrow> spends a (if b then m else n)"
  by simp

lemma spendsD: "spends a m \<Longrightarrow> ledger s \<Longrightarrow> unfinished a s \<Longrightarrow> ledger (snd (m s))"
  by (cases "m s"; cases "fst (m s)")
     (auto simp: spends_def balanced_at_def dest: triple_okD triple_errD)

lemma keeps_at_isValidDirectory: "keeps (balanced_at b) (isValidDirectory api a)"
  unfolding isValidDirectory_def
  by (intro keeps_rules keeps_at_deref keeps_at_framed framed_rules)

lemma keeps_ledger_isValidDirectory: "keeps ledger (isValidDirectory api a)"
  unfolding isValidDirectory_def
  by (intro keeps_rules keeps_ledger_deref keeps_ledger_framed framed_rules)

lemma keeps_ledger_close_win: "jni_ok api \<Longrightarrow> keeps ledger (close_win api a)"
  by (rule keepsI) (rule ledger_close_win)

lemma set_status_balanced:
  assumes "balanced_at a s" "st \<noteq> WIN_FINISHED"
  shows "balanced_at a (snd (set_status a st s))"
proof (cases "objects s a")
  case None
  then have "(objects s)(a := map_option (\<lambda>obj. obj\<lparr>status := st\<rparr>) (objects s a)) = objects s"
    by (simp add: fun_upd_idem)
  then show ?thesis using assms(1)
    by (simp add: balanced_at_def unfinished_def set_status_def update_object_def run_modifyE)
next
  case (Some obj)
  let ?s = "s\<lparr>objects := (objects s)(a \<mapsto> obj\<lparr>status := st\<rparr>)\<rparr>"
  have "status obj \<noteq> WIN_FINISHED" using assms(1) Some by (simp add: balanced_at_def unfinished_def)
  then have "open_points ?s h = open_points s h" for h
    using Some assms(2) by (auto simp: open_points_def)
  then have "ledger ?s" using assms(1) by (simp add: balanced_at_def ledger_def balanced_def)
  then show ?thesis using Some assms(2)
    by (simp add: balanced_at_def unfinished_def set_status_def update_object_def run_modifyE)
qed

lemma keeps_at_set_status: "st \<noteq> WIN_FINISHED \<Longrightarrow> keeps (balanced_at a) (set_status a st)"
  by (rule keepsI) (rule set_status_balanced)

lemmas framed_basic =
  framed_ret framed_raise framed_getE framed_liftE framed_syscall_win framed_getLastError
  framed_resolveFinalPath framed_reports framed_callMethod framed_of_silent framed_handleEvent_win

lemmas keeps_at_rules = keeps_rules keeps_at_deref keeps_at_isValidDirectory
  framed_basic [THEN keeps_at_framed]
lemmas keeps_ledger_rules = keeps_rules keeps_ledger_deref keeps_ledger_isValidDirectory
  keeps_ledger_close_win framed_basic [THEN keeps_ledger_framed]

lemma spends_set_status: "st \<noteq> WIN_FINISHED \<Longrightarrow> spends a (set_status a st)"
  unfolding spends_def
  using keeps_at_set_status [of st a, unfolded keeps_def]
  by (rule triple_weaken) (auto simp: balanced_at_def)

lemma spends_listen:
  assumes "jni_ok api"
  shows "spends a (listen api a)"
  unfolding listen_def
proof (rule spends_bindE [OF keeps_at_deref], rule spends_bindE, rule keeps_at_framed,
    rule framed_syscall_win, rule spends_if)
  show "spends a (thenE (set_status a WIN_LISTENING) (ret LISTEN_SUCCESS))"
    by (intro spends_rules keeps_at_set_status spends_keeps keeps_ledger_rules) simp
qed (intro spends_keeps keeps_ledger_rules assms)


lemma ledger_cancel_win:
  assumes jni: "jni_ok api" and inv: "ledger s"
  shows "ledger (snd (cancel_win api a s))"
proof (cases "objects s a")
  case None
  then show ?thesis by (rule freed_ledger [OF steady_cancel_win cancel_win_def])
next
  case (Some obj)
  show ?thesis
  proof (cases "status obj = WIN_LISTENING")
    case False
    with inv show ?thesis by (simp add: cancel_win_def run_deref_live [OF Some] run_ret)
  next
    case True
    let ?rest = "thenE (logToJava api TRACE_LEVEL ''Cancelling %s'' [Str (wideToUtf8String api (registeredPath obj))])
      (bindE (syscall_win (cancelIoEx api (directoryHandle obj) a)) (\<lambda>cancelled.
       if cancelled then thenE (set_status a WIN_CANCELLED) (ret True)
       else
         bindE (getLastError api) (\<lambda>cancelError.
         thenE (close_win api a)
        (if cancelError = ERROR_NOT_FOUND then
           thenE (logToJava api TRACE_LEVEL ''Watch point already finished %s''
             [Str (wideToUtf8String api (registeredPath obj))])
           (ret False)
         else raise (FileWatcherException_path_code ''Couldn't cancel watch point''
                (registeredPath obj) cancelError)))))"
    have "spends a ?rest"
    proof (rule spends_thenE, rule keeps_at_framed, rule framed_of_silent, rule spends_bindE,
        rule keeps_at_framed, rule framed_syscall_win, rule spends_if)
      show "spends a (thenE (set_status a WIN_CANCELLED) (ret True))"
        by (intro spends_rules keeps_at_set_status spends_keeps keeps_ledger_rules) simp
    qed (intro spends_keeps keeps_ledger_rules jni)
    moreover have "unfinished a s" using Some True by (simp add: unfinished_def)
    ultimately have "ledger (snd (?rest s))" using inv by (blast intro: spendsD)
    with True show ?thesis by (simp add: cancel_win_def run_deref_live [OF Some])
  qed
qed

lemma keeps_ledger_cancel_win: "jni_ok api \<Longrightarrow> keeps ledger (cancel_win api a)"
  by (rule keepsI) (rule ledger_cancel_win)

lemma keeps_ledger_reportWatchPointDeleted:
  "jni_ok api \<Longrightarrow> keeps ledger (reportWatchPointDeleted api a)"
  unfolding reportWatchPointDeleted_def by (intro keeps_ledger_rules)

lemma keeps_ledger_lose: "keeps ledger lose"
  unfolding lose_def by (rule keeps_modifyE) (auto elim: ledger_fields)

lemma keeps_at_handleRecords: "keeps (balanced_at a) (handleRecords api path buf)"
proof (rule keeps_handleRecords [OF keeps_at_framed [OF framed_handleEvent_win]])
  show "keeps (balanced_at a) lose"
    unfolding lose_def
    by (rule keeps_modifyE) (auto simp: balanced_at_def unfinished_def elim: ledger_fields)
qed

lemma spends_listenAgain:
  assumes "jni_ok api"
  shows "spends a (listenAgain api a path)"
  unfolding listenAgain_def
  by (rule spends_then_ledger [OF spends_listen [OF assms]])
    (auto intro!: keeps_ledger_rules split: listen_result.split)

lemma spends_handleEventsBody:
  assumes "jni_ok api"
  shows "spends a (handleEventsBody api a errorCode buf n)"
  unfolding handleEventsBody_def
  by (intro spends_rules spends_listenAgain assms
      spends_keeps [OF keeps_ledger_reportWatchPointDeleted] spends_keeps [OF keeps_raise]
      keeps_at_handleRecords keeps_at_rules
      spends_keeps [OF framed_of_silent(11) [THEN keeps_ledger_framed]])

lemma spends_handleEvents_win:
  assumes "jni_ok api"
  shows "spends a (handleEvents_win api a errorCode buf n)"
  unfolding handleEvents_win_def
  by (intro spends_thenE spends_tryE spends_handleEventsBody assms keeps_at_rules
      framed_reports [THEN keeps_ledger_framed])

lemma ledger_handleEventsInBuffer:
  assumes jni: "jni_ok api" and inv: "ledger s"
  shows "ledger (snd (handleEventsInBuffer api a errorCode n buf s))"
proof (cases "objects s a")
  case None
  then show ?thesis by (rule freed_ledger [OF steady_handleEventsInBuffer handleEventsInBuffer_def])
next
  case (Some obj)
  show ?thesis
  proof (cases "errorCode = ERROR_OPERATION_ABORTED \<or> status obj \<noteq> WIN_LISTENING")
    case True
    have log: "keeps ledger (logToJava api l f args)" for l f args
      by (intro keeps_ledger_rules)
    have closing: "keeps ledger (thenE (logToJava api l f args) (close_win api a))" for l f args
      by (intro keeps_ledger_rules jni)
    from True inv show ?thesis
      by (auto simp: handleEventsInBuffer_def run_deref_live [OF Some]
          intro!: keepsD [OF closing] keepsD [OF log])
  next
    case False
    then have "unfinished a s" using Some by (simp add: unfinished_def)
    moreover have "spends a (thenE (set_status a WIN_NOT_LISTENING) (handleEvents_win api a errorCode buf n))"
      by (intro spends_thenE keeps_at_set_status spends_handleEvents_win jni) simp
    ultimately show ?thesis using inv False
      by (simp add: handleEventsInBuffer_def run_deref_live [OF Some] spendsD)
  qed
qed


section \<open>Creating, destroying, and everything above\<close>

lemma balanced_alloc:
  assumes "balanced s {}" "objects s (nextAddress s) = None"
  shows "balanced (alloc_point path s) {nextAddress s}"
proof (rule balanced_mono [OF assms(1)])
  show "open_points (alloc_point path s) h - {nextAddress s} \<subseteq> open_points s h - {}" for h
    by (auto simp: open_points_def alloc_point_def split: if_splits)
qed (use assms(1) in \<open>simp_all add: balanced_def alloc_point_def\<close>)

lemma ledger_free:
  assumes "useAfterFree s \<or> balanced s {a} \<or> balanced s {}"
  shows "ledger (s\<lparr>objects := (objects s)(a := None)\<rparr>)"
proof (cases "useAfterFree s")
  case False
  with assms obtain A where A: "balanced s A" "A \<subseteq> {a}" by blast
  have "balanced (s\<lparr>objects := (objects s)(a := None)\<rparr>) {}"
    using A by (intro balanced_mono [OF A(1)]) (auto simp: open_points_def balanced_def)
  then show ?thesis by (simp add: ledger_def)
qed (simp add: ledger_def)

lemma keeps_ledger_free_object: "keeps ledger (free_object a)"
  unfolding free_object_def
  by (rule keeps_modifyE, rule ledger_free) (auto simp: ledger_def)

text \<open>After the handle was opened, the new watch point owns it.\<close>

lemma balanced_open:
  assumes "balanced s {a}" "objects s a = Some obj"
  shows "balanced (s\<lparr>handleCalls := handleCalls s @ [Opened h],
    objects := (objects s)(a \<mapsto> obj\<lparr>directoryHandle := h\<rparr>)\<rparr>) {}" (is "balanced ?s {}")
  unfolding balanced_def
proof (intro conjI allI)
  show "finite (dom (objects ?s))" using assms(1) by (simp add: balanced_def)
  fix k
  have fin: "finite (open_points s k)"
    using assms(1) finite_subset [OF open_points_sub] by (auto simp: balanced_def)
  have le: "count_list (handleCalls s) (Closed k) + card (open_points s k - {a})
      \<le> count_list (handleCalls s) (Opened k)"
    using assms(1) by (simp add: balanced_def)
  have sub: "open_points ?s k \<subseteq> (if k = h then insert a (open_points s k - {a}) else open_points s k - {a})"
    by (auto simp: open_points_def split: if_splits)
  have "card (open_points ?s k) \<le> card (open_points s k - {a}) + (if k = h then 1 else 0)"
    using card_mono [OF _ sub] fin by (auto simp: card_insert_if split: if_splits)
  with le show "count_list (handleCalls ?s) (Closed k) + card (open_points ?s k - {})
      \<le> count_list (handleCalls ?s) (Opened k)"
    by (cases "k = h") simp_all
qed

lemma spends_startListening:
  fixes api :: "'w win_api"
  assumes jni: "jni_ok api"
  shows "spends a (startListening api a path h)"
  unfolding startListening_def
proof (rule spends_bindE)
  show "keeps (balanced_at a) (resolveFinalPath api h)" by (intro keeps_at_rules)
  fix final
  have set: "keeps (balanced_at a)
      (update_object a (\<lambda>obj. obj\<lparr>registeredFinalPath := p\<rparr>) :: ('w, unit) win_action)" for p
  proof (rule keepsI)
    fix t :: "'w win_server" assume "balanced_at a t"
    moreover have "open_points (snd (update_object a (\<lambda>obj. obj\<lparr>registeredFinalPath := p\<rparr>) t)) k
        = open_points t k" for k
      by (auto simp: open_points_def update_object_def run_modifyE split: if_splits)
    ultimately show "balanced_at a (snd (update_object a (\<lambda>obj. obj\<lparr>registeredFinalPath := p\<rparr>) t))"
      by (auto simp: balanced_at_def unfinished_def ledger_def balanced_def update_object_def run_modifyE
          elim: finite_subset [rotated])
  qed
  have "spends a (bindE (listen api a) (\<lambda>result. case result of LISTEN_SUCCESS \<Rightarrow> ret ()
       | LISTEN_DELETED \<Rightarrow> raise (FileWatcherException_path
           ''Couldn't add watch, path is not a directory'' path)))"
    by (rule spends_then_ledger [OF spends_listen [OF jni]])
      (auto intro!: keeps_ledger_rules split: listen_result.split)
  then show "spends a (case final of
       None \<Rightarrow> bindE (getLastError api) (\<lambda>err.
         raise (FileWatcherException_path_code ''Couldn't resolve final path of'' path err))
     | Some finalPath \<Rightarrow>
         thenE (update_object a (\<lambda>obj. obj\<lparr>registeredFinalPath := finalPath\<rparr>))
        (bindE (listen api a) (\<lambda>result.
         case result of
           LISTEN_SUCCESS \<Rightarrow> ret ()
         | LISTEN_DELETED \<Rightarrow> raise (FileWatcherException_path
             ''Couldn't add watch, path is not a directory'' path))))"
  proof (cases final)
    case None
    then show ?thesis by simp (intro spends_keeps keeps_ledger_rules)
  next
    case (Some p)
    with \<open>spends a (bindE _ _)\<close> show ?thesis by (simp add: spends_thenE [OF set])
  qed
qed

lemma ledger_openDirectory:
  assumes jni: "jni_ok api" and inv: "useAfterFree s \<or> balanced s {a}"
    and obj: "objects s a = Some obj" "status obj \<noteq> WIN_FINISHED"
    and run: "openDirectory api a path s = (r, s')"
  shows "(r = Inr () \<longrightarrow> ledger s') \<and> (useAfterFree s' \<or> balanced s' {a} \<or> balanced s' {})"
proof -
  let ?create = "syscall_win (createFile api (convertToLongPathIfNeeded path) CREATE_SHARE CREATE_FLAGS)"
  obtain x s1 where s1: "?create s = (Inr x, s1)" by (simp add: syscall_win_def)
  then have same: "same_server s1 s" using framedD [OF framed_syscall_win, of _ s] by (metis snd_conv)
  note fields = same_server_win [OF same]
  have inv1: "useAfterFree s1 \<or> balanced s1 {a}" using inv balanced_same [OF same] fields by simp
  show ?thesis
  proof (cases x)
    case None
    then have "\<exists>e. r = Inl e \<and> s' = s1"
      using run s1 by (auto simp: openDirectory_def run_bindE getLastError_def run_getE run_raise)
    with inv1 show ?thesis by auto
  next
    case (Some h)
    let ?s2 = "s1\<lparr>handleCalls := handleCalls s1 @ [Opened h],
      objects := (objects s1)(a \<mapsto> obj\<lparr>directoryHandle := h\<rparr>)\<rparr>"
    have run2: "openDirectory api a path s = startListening api a path h ?s2"
      using s1 Some obj fields by (simp add: openDirectory_def run_bindE run_thenE run_modifyE update_object_def)
    have at2: "balanced_at a ?s2"
      using inv1 obj fields balanced_open [of s1 a obj h]
      by (auto simp: balanced_at_def unfinished_def ledger_def)
    have "ledger s'"
      using run run2 at2 spends_startListening [OF jni] by (metis balanced_at_def snd_conv spendsD)
    then show ?thesis by (auto simp: ledger_def)
  qed
qed


lemma ledger_construct_win:
  assumes "jni_ok api" "ledger s" "objects s (nextAddress s) = None"
  shows "ledger (snd (construct_win api path s))"
proof -
  let ?a = "nextAddress s"
  obtain r s1 where run: "openDirectory api ?a path (alloc_point path s) = (r, s1)" by fastforce
  have "useAfterFree (alloc_point path s) \<or> balanced (alloc_point path s) {?a}"
    using assms(2,3) balanced_alloc by (auto simp: ledger_def alloc_point_def)
  from ledger_openDirectory [OF assms(1) this _ _ run]
  have "(r = Inr () \<longrightarrow> ledger s1) \<and> (useAfterFree s1 \<or> balanced s1 {?a} \<or> balanced s1 {})"
    by (simp add: alloc_point_def)
  then show ?thesis by (cases r) (auto simp: construct_win_run run intro: ledger_free)
qed

text \<open>Destroying runs the calls that are pending, which rest on the invariant of the table, too: a new
  watch point must not take the place of a live one.\<close>

definition win_safe :: "'w win_server \<Rightarrow> bool" where
  "win_safe s \<longleftrightarrow> win_inv s \<and> ledger s"

definition safe_call :: "('w, 'a) win_action \<Rightarrow> bool" where
  "safe_call m \<longleftrightarrow> keeps_all m \<and> keeps win_safe m"

lemma triple_always:
  "triple P m (\<lambda>_. Q) (\<lambda>_. Q) \<longleftrightarrow> (\<forall>s. P s \<longrightarrow> Q (snd (m s)))"
  unfolding triple_def by (intro iff_allI imp_cong refl) (simp split: prod.split sum.split)

lemma keeps_safe:
  assumes "keeps_all m" "triple win_safe m (\<lambda>_. ledger) (\<lambda>_. ledger)"
  shows "keeps win_safe m"
proof (rule keepsI)
  fix s :: "'a win_server" assume safe: "win_safe s"
  have "win_inv (snd (m s))"
    using keepsD [OF keeps_allD [OF assms(1), of "{}"], of s] safe
    by (simp add: win_safe_def win_inv_except_empty)
  moreover have "ledger (snd (m s))"
    using assms(2) safe by (simp add: triple_always)
  ultimately show "win_safe (snd (m s))" by (simp add: win_safe_def)
qed

lemma ledger_settles: "keeps ledger m \<Longrightarrow> triple win_safe m (\<lambda>_. ledger) (\<lambda>_. ledger)"
  unfolding keeps_def by (erule triple_weaken) (auto simp: win_safe_def)

lemma keeps_safe_steady: "steady_op m \<Longrightarrow> keeps ledger m \<Longrightarrow> keeps win_safe m"
  by (intro keeps_safe steady_keeps_all ledger_settles)

lemma destroy_win_settles:
  assumes "jni_ok api" "keeps win_safe nested"
  shows "triple win_safe (destroy_win api nested a) (\<lambda>_. ledger) (\<lambda>_. ledger)"
  unfolding destroy_win_def
proof (rule triple_then)
  let ?body = "tryE (tryE (bindE (cancel_win api a) (\<lambda>_. thenE nested (close_win api a)))
        (\<lambda>ex. bindE (deref api a) (\<lambda>obj. logToJava api WARN_LEVEL ''Couldn't cancel watch point %s: %s''
          [Str (wideToUtf8String api (registeredPath obj)), Str (what api ex)]))) (\<lambda>_. lose)"
  have "keeps win_safe ?body"
    by (intro keeps_tryE keeps_bindE keeps_thenE assms(2) keeps_safe_steady steady_rules
        keeps_ledger_cancel_win keeps_ledger_lose keeps_ledger_rules assms(1))
  then show "triple win_safe ?body (\<lambda>_. win_safe) (\<lambda>_. ledger)"
    unfolding keeps_def by (rule triple_weaken) (auto simp: win_safe_def)
  show "triple win_safe (free_object a) (\<lambda>_. ledger) (\<lambda>_. ledger)"
    by (rule ledger_settles, rule keeps_ledger_free_object)
qed

lemma destroy_win_ledger:
  "jni_ok api \<Longrightarrow> keeps win_safe nested \<Longrightarrow> win_safe s \<Longrightarrow> ledger (snd (destroy_win api nested a s))"
  using destroy_win_settles [of api nested a] by (simp add: triple_always)

lemma erase_win_ledger:
  assumes "jni_ok api" "keeps win_safe nested" "win_safe s" "win_watchPoints s path = Some a"
  shows "ledger (snd (erase_win api nested path a s))"
proof -
  let ?s = "s\<lparr>win_watchPoints := (win_watchPoints s)(path := None)\<rparr>"
  have "win_inv ?s" using assms(3) by (simp add: win_safe_def win_inv_def)
  moreover have "ledger ?s" using assms(3) unfolding win_safe_def by (auto elim: ledger_fields)
  ultimately have "win_safe ?s" by (simp add: win_safe_def)
  from destroy_win_ledger [OF assms(1,2) this] show ?thesis by (simp add: erase_win_def exec_simps)
qed

lemma emplace_win_ledger:
  assumes "jni_ok api" "keeps win_safe nested" "win_safe s"
  shows "ledger (snd (emplace_win api nested path a s))"
proof (cases "win_watchPoints s path")
  case None
  have "ledger (s\<lparr>win_watchPoints := (win_watchPoints s)(path \<mapsto> a)\<rparr>)"
    using assms(3) unfolding win_safe_def by (auto elim: ledger_fields)
  with None show ?thesis by (simp add: emplace_win_def exec_simps)
next
  case (Some b)
  with destroy_win_ledger [OF assms] show ?thesis by (simp add: emplace_win_def exec_simps)
qed

lemma keeps_safe_construct_win:
  assumes "jni_ok api"
  shows "keeps win_safe (construct_win api path)"
proof (rule keepsI)
  fix s :: "'a win_server" assume safe: "win_safe s"
  then have "win_inv_except {} s" by (simp add: win_safe_def win_inv_except_empty)
  then have "win_inv (snd (construct_win api path s))"
    using construct_win_ok [of "{}" s api path] construct_win_err [of "{}" s api path]
    by (cases "construct_win api path s"; cases "fst (construct_win api path s)")
      (auto simp: win_inv_except_def)
  moreover have "objects s (nextAddress s) = None" using safe by (simp add: win_safe_def win_inv_def)
  ultimately show "win_safe (snd (construct_win api path s))"
    using safe ledger_construct_win [OF assms] by (auto simp: win_safe_def)
qed

lemma keeps_safe_clearFinished:
  assumes "jni_ok api" "safe_call nested"
  shows "keeps win_safe (clearFinished api nested path)"
proof (rule keeps_safe)
  show "keeps_all (clearFinished api nested path)"
    using assms(2) by (auto simp: safe_call_def intro: keeps_all_clearFinished)
  show "triple win_safe (clearFinished api nested path) (\<lambda>_. ledger) (\<lambda>_. ledger)"
    unfolding triple_always
  proof (intro allI impI)
    fix s :: "'a win_server" assume safe: "win_safe s"
    show "ledger (snd (clearFinished api nested path s))"
    proof (cases "win_watchPoints s path")
      case None
      with safe show ?thesis by (simp add: clearFinished_def run_get_bind run_ret win_safe_def)
    next
      case (Some a)
      obtain obj where "objects s a = Some obj"
        using safe Some by (auto simp: win_safe_def dest: win_inv_table)
      with erase_win_ledger [OF assms(1) _ safe Some, of nested] assms(2) safe Some show ?thesis
        by (simp add: clearFinished_def run_get_bind run_deref_live run_raise safe_call_def win_safe_def)
    qed
  qed
qed

lemma keeps_safe_registerPath_win:
  assumes "jni_ok api" "safe_call nested"
  shows "keeps win_safe (registerPath_win api nested path)"
  unfolding registerPath_win_def
proof (rule keeps_thenE [OF keeps_safe_clearFinished [OF assms]], rule keeps_safe)
  show "keeps_all (bindE (construct_win api path) (emplace_win api nested path))"
    using assms(2) keeps_all_create by (auto simp: safe_call_def)
  show "triple win_safe (bindE (construct_win api path) (emplace_win api nested path))
      (\<lambda>_. ledger) (\<lambda>_. ledger)"
  proof (rule triple_bind [where R = "\<lambda>_. win_safe"])
    show "triple win_safe (construct_win api path) (\<lambda>_. win_safe) (\<lambda>_. ledger)"
      using keeps_safe_construct_win [OF assms(1), of path] unfolding keeps_def
      by (rule triple_weaken) (auto simp: win_safe_def)
    show "triple win_safe (emplace_win api nested path a) (\<lambda>_. ledger) (\<lambda>_. ledger)" for a
      using assms emplace_win_ledger by (auto simp: triple_always safe_call_def)
  qed
qed


lemma keeps_safe_unregisterPath_win:
  assumes "jni_ok api" "safe_call nested"
  shows "keeps win_safe (unregisterPath_win api nested path)"
proof (rule keeps_safe)
  show "keeps_all (unregisterPath_win api nested path)"
    using assms(2) by (auto simp: safe_call_def intro: keeps_all_unregisterPath_win)
  show "triple win_safe (unregisterPath_win api nested path) (\<lambda>_. ledger) (\<lambda>_. ledger)"
    unfolding triple_always
  proof (intro allI impI)
    fix s :: "'a win_server" assume safe: "win_safe s"
    show "ledger (snd (unregisterPath_win api nested path s))"
    proof (cases "win_watchPoints s path")
      case None
      have "keeps ledger (thenE (logToJava api INFO_LEVEL ''Path is not watched: %s''
          [Str (wideToUtf8String api path)]) (ret False))"
        by (intro keeps_ledger_rules)
      with None safe show ?thesis
        by (auto simp: unregisterPath_win_def run_get_bind win_safe_def dest: keepsD)
    next
      case (Some a)
      have "keeps win_safe nested" using assms(2) by (simp add: safe_call_def)
      from erase_win_ledger [OF assms(1) this safe Some] Some show ?thesis
        by (cases "erase_win api nested path a s"; cases "fst (erase_win api nested path a s)")
          (simp_all add: unregisterPath_win_def run_get_bind run_thenE run_ret)
    qed
  qed
qed

lemma keeps_safe_update_command: "keeps win_safe (update_command c f)"
proof (rule keeps_safe [OF keeps_all_update_command ledger_settles])
  show "keeps ledger (update_command c f)"
    unfolding update_command_def
    by (rule keeps_modifyE) (erule ledger_fields; simp split: option.split)
qed

lemma keeps_safe_run_work:
  assumes "jni_ok api" "safe_call nested"
  shows "keeps win_safe (run_work api nested w)"
proof (cases w)
  case ShutdownWork
  have "keeps win_safe (modifyE (\<lambda>s. s\<lparr>win_shouldTerminate := True\<rparr>))"
    by (rule keeps_modifyE) (auto simp: win_safe_def win_inv_def elim: ledger_fields)
  then show ?thesis unfolding ShutdownWork run_work.simps by (intro keeps_thenE keeps_ret)
qed (auto intro!: keeps_rules keeps_safe_registerPath_win keeps_safe_unregisterPath_win assms)

lemma keeps_safe_executeInsideRunLoop:
  assumes "jni_ok api" "safe_call nested"
  shows "keeps win_safe (executeInsideRunLoop api nested c)"
proof -
  have "keeps win_safe (modifyE (\<lambda>s. s\<lparr>useAfterFree := True\<rparr>))"
    by (rule keeps_modifyE) (auto simp: win_safe_def win_inv_def intro: ledger_freed)
  then show ?thesis
    unfolding executeInsideRunLoop_def
    by (intro keeps_rules keeps_safe_run_work keeps_safe_update_command assms)
qed

lemma safe_run_apc:
  assumes "jni_ok api" "safe_call nested"
  shows "safe_call (run_apc api nested call)"
proof -
  have "keeps win_safe (handleEventsInBuffer api a errorCode n buf)" for a errorCode n buf
    by (intro keeps_safe_steady steady_handleEventsInBuffer keepsI ledger_handleEventsInBuffer assms)
  then have "keeps win_safe (run_apc api nested call)"
    by (cases call) (simp_all add: run_apc_def keeps_safe_executeInsideRunLoop assms)
  then show ?thesis using assms(2) by (simp add: safe_call_def keeps_all_run_apc)
qed

lemma safe_alertable: "jni_ok api \<Longrightarrow> safe_call (alertable depth api)"
proof (induction depth)
  case 0
  then show ?case by (simp add: safe_call_def keeps_ret keeps_all_basic)
next
  case (Suc depth)
  then have apc: "safe_call (run_apc api (alertable depth api) call)" for call
    by (simp add: safe_run_apc)
  have "keeps win_safe (syscall_win (sleepZero api))"
    by (intro keeps_safe_steady steady_rules keeps_ledger_rules)
  with apc have "keeps win_safe (alertable (Suc depth) api)"
    by (auto simp: safe_call_def intro!: keeps_bindE keeps_forE)
  then show ?case by (simp add: safe_call_def keeps_all_alertable del: alertable.simps)
qed

lemma win_step_safe:
  assumes "win_step api s s'" "win_safe s" "jni_ok api"
  shows "win_safe s'"
proof -
  have inv: "win_inv s'" using win_step_inv [OF assms(1)] assms(2) by (simp add: win_safe_def)
  have led: "ledger s" using assms(2) by (simp add: win_safe_def)
  from assms(1) have "ledger s'"
  proof cases
    case (serve depth call r)
    have "keeps win_safe (run_apc api (alertable depth api) call)"
      using safe_run_apc [OF assms(3) safe_alertable [OF assms(3)]] by (simp add: safe_call_def)
    from keepsD' [OF this assms(2) serve] show ?thesis by (simp add: win_safe_def)
  next
    case (cancel path r)
    have "keeps ledger (cancelRemaining api path)"
      unfolding cancelRemaining_def
      by (intro keeps_ledger_rules keeps_ledger_cancel_win assms(3))
    from keepsD' [OF this led cancel] show ?thesis .
  next
    case (warn path r)
    have "keeps ledger (warnUnfinished api path)"
      unfolding warnUnfinished_def by (intro keeps_ledger_rules)
    from keepsD' [OF this led warn] show ?thesis .
  next
    case (moved path r)
    have "keeps ledger (stopWatchingIfMoved api path)"
      unfolding stopWatchingIfMoved_def
      by (intro keeps_ledger_rules keeps_ledger_cancel_win assms(3))
    from keepsD' [OF this led moved] show ?thesis .
  next
    case outside
    from ledger_same [OF outside led] show ?thesis .
  qed (use led in \<open>auto elim: ledger_fields\<close>)
  with inv show ?thesis by (simp add: win_safe_def)
qed

lemma win_reachable_safe: "win_reachable api s \<Longrightarrow> jni_ok api \<Longrightarrow> win_safe s"
proof (induction rule: win_reachable.induct)
  case (start w timeout)
  show ?case by (simp add: win_safe_def init_win_inv init_ledger)
next
  case (more_step s s')
  then show ?case by (auto intro: win_step_safe)
qed

end
