(* ===== verification/WinBatch.thy ===== *)
theory WinBatch
  imports WinLedger
begin

text \<open>
  What registering and unregistering paths does to the set of watched paths on Windows, when the calls
  that are served while a watch point is destroyed are \<open>calm\<close>, that is, keep the invariants and
  leave the table and the set of watched paths as they are: the Windows server as a provider of the contract of all platforms.
\<close>

section \<open>Operations on one watch point\<close>

definition only_at :: "nat \<Rightarrow> ('w, 'a) win_action \<Rightarrow> bool" where
  "only_at a m \<longleftrightarrow> (\<forall>s0 :: 'w win_server. keeps (\<lambda>s. win_watchPoints s = win_watchPoints s0 \<and>
     nextAddress s = nextAddress s0 \<and> (\<forall>b. b \<noteq> a \<longrightarrow> objects s b = objects s0 b)) m)"

named_theorems only_rules \<open>operations on one watch point\<close>

lemma only_atD:
  assumes "only_at a m"
  shows "win_watchPoints (snd (m s)) = win_watchPoints s" "nextAddress (snd (m s)) = nextAddress s"
    "b \<noteq> a \<Longrightarrow> objects (snd (m s)) b = objects s b"
  using keepsD [OF assms [unfolded only_at_def, rule_format, of s], of s] by simp_all

lemma only_bindE [only_rules]: "only_at a m \<Longrightarrow> (\<And>x. only_at a (f x)) \<Longrightarrow> only_at a (bindE m f)"
  and only_thenE [only_rules]: "only_at a m \<Longrightarrow> only_at a n \<Longrightarrow> only_at a (thenE m n)"
  and only_tryE [only_rules]: "only_at a m \<Longrightarrow> (\<And>e. only_at a (h e)) \<Longrightarrow> only_at a (tryE m h)"
  by (auto simp: only_at_def intro!: keeps_rules)

lemma only_if [only_rules]: "only_at a m \<Longrightarrow> only_at a n \<Longrightarrow> only_at a (if b then m else n)"
  by simp

lemma only_option [only_rules]:
  "only_at a m \<Longrightarrow> (\<And>y. only_at a (f y)) \<Longrightarrow> only_at a (case x of None \<Rightarrow> m | Some y \<Rightarrow> f y)"
  by (simp split: option.split)

lemma only_prod [only_rules]: "(\<And>x y. only_at a (f x y)) \<Longrightarrow> only_at a (case r of (x, y) \<Rightarrow> f x y)"
  by (cases r) simp

lemma only_listen_result [only_rules]:
  "only_at a m \<Longrightarrow> only_at a n \<Longrightarrow> only_at a (case r of LISTEN_SUCCESS \<Rightarrow> m | LISTEN_DELETED \<Rightarrow> n)"
  by (simp split: listen_result.split)

lemma only_framed: "framed m \<Longrightarrow> only_at a m"
  unfolding only_at_def by (auto intro!: framed_keeps simp: same_server_win)

lemmas only_basic [only_rules] = framed_basic [THEN only_framed]

lemma only_modify:
  "(\<And>s. win_watchPoints (f s) = win_watchPoints s \<and> nextAddress (f s) = nextAddress s \<and>
     (\<forall>b. b \<noteq> a \<longrightarrow> objects (f s) b = objects s b)) \<Longrightarrow> only_at a (modifyE f)"
  unfolding only_at_def by (auto intro!: keeps_modifyE)

lemma only_update_object [only_rules]: "only_at a (update_object a f)"
  and only_set_status [only_rules]: "only_at a (set_status a st)"
  and only_free_object [only_rules]: "only_at a (free_object a)"
  and only_handleCalls [only_rules]: "only_at a (modifyE (\<lambda>s. s\<lparr>handleCalls := g s\<rparr>))"
  and only_useAfterFree [only_rules]: "only_at a (modifyE (\<lambda>s. s\<lparr>useAfterFree := True\<rparr>))"
  and only_lose [only_rules]: "only_at a lose"
  unfolding update_object_def set_status_def free_object_def lose_def
  by (auto intro!: only_modify)

lemma only_deref [only_rules]: "only_at a (deref api b)"
  unfolding deref_def by (intro only_rules)

lemma only_isValidDirectory [only_rules]: "only_at a (isValidDirectory api b)"
  unfolding isValidDirectory_def by (intro only_rules)

lemma only_close_win [only_rules]: "only_at a (close_win api a)"
  unfolding close_win_def by (intro only_rules)

lemma only_listen [only_rules]: "only_at a (listen api a)"
  unfolding listen_def by (intro only_rules)

lemma only_cancel_win [only_rules]: "only_at a (cancel_win api a)"
  unfolding cancel_win_def by (intro only_rules)

lemma only_openDirectory [only_rules]: "only_at a (openDirectory api a path)"
  unfolding openDirectory_def startListening_def by (intro only_rules)

section \<open>The watched paths\<close>

text \<open>A watch point that is finished does not watch its path any more.\<close>

definition watched_win :: "'w win_server \<Rightarrow> u16string set" where
  "watched_win s = {p. \<exists>a obj. win_watchPoints s p = Some a \<and> objects s a = Some obj \<and>
     status obj \<noteq> WIN_FINISHED}"

lemma watched_same:
  assumes "win_watchPoints s' = win_watchPoints s"
    and "\<And>a. a \<in> ran (win_watchPoints s) \<Longrightarrow> objects s' a = objects s a"
  shows "watched_win s' = watched_win s"
  using assms by (auto simp: watched_win_def ranI)

text \<open>The calls that the \<^verbatim>\<open>SleepEx\<close> of a destructor serves are calm: they change neither the table nor
  which of its paths are watched. Completions of watch points that have left the table are, and so
  is the one that every cancelled read queues, the abort of the watch point being destroyed.\<close>

definition calm :: "('w, unit) win_action \<Rightarrow> bool" where
  "calm nested \<longleftrightarrow> keeps_all nested \<and>
     (\<forall>s. win_inv s \<longrightarrow> win_watchPoints (snd (nested s)) = win_watchPoints s \<and>
        watched_win (snd (nested s)) = watched_win s)"

definition is_stray :: "'w win_server \<Rightarrow> apc \<Rightarrow> bool" where
  "is_stray s call = (case call of
     Completion a errorCode bytes buf \<Rightarrow> a \<notin> ran (win_watchPoints s) | RunCommand c \<Rightarrow> False)"

definition stray_completions :: "'w win_api \<Rightarrow> apc list \<Rightarrow> ('w, unit) win_action" where
  "stray_completions api calls =
     bindE (getE (\<lambda>s. filter (is_stray s) calls)) (\<lambda>cs. forE cs (run_apc api (ret ())))"

lemma calm_ret: "calm (ret ())"
  by (simp add: calm_def keeps_all_basic run_ret)

lemma only_handleRecords: "only_at a (handleRecords api path buf)"
  unfolding only_at_def
  by (intro allI keeps_handleRecords only_lose [unfolded only_at_def, THEN spec]
      only_framed [OF framed_handleEvent_win, unfolded only_at_def, THEN spec])

lemma only_handleEventsInBuffer: "only_at a (handleEventsInBuffer api a errorCode n buf)"
proof -
  have "only_at a (reportWatchPointDeleted api a)"
    unfolding reportWatchPointDeleted_def by (intro only_rules)
  moreover have "only_at a (listenAgain api a path)" for path
    unfolding listenAgain_def by (intro only_rules)
  moreover have "only_at a (handleRecords api path buf)" for path
    by (rule only_handleRecords)
  ultimately show ?thesis
    unfolding handleEventsInBuffer_def handleEvents_win_def handleEventsBody_def
    by (intro only_rules)
qed

lemma stray_loop:
  assumes "\<forall>call\<in>set cs. is_stray s call"
  shows "win_watchPoints (snd (forE cs (run_apc api (ret ())) s)) = win_watchPoints s \<and>
    (\<forall>b\<in>ran (win_watchPoints s). objects (snd (forE cs (run_apc api (ret ())) s)) b = objects s b)"
  using assms
proof (induction cs arbitrary: s)
  case Nil
  then show ?case by (simp add: run_ret)
next
  case (Cons call cs)
  obtain a e n buf where call: "call = Completion a e n buf" "a \<notin> ran (win_watchPoints s)"
    using Cons.prems by (cases call) (auto simp: is_stray_def)
  obtain r s1 where s1: "run_apc api (ret ()) call s = (r, s1)" by fastforce
  note only = only_atD [OF only_handleEventsInBuffer [of a api e n buf], where s = s]
  have same: "win_watchPoints s1 = win_watchPoints s" "b \<noteq> a \<Longrightarrow> objects s1 b = objects s b" for b
    using only s1 call(1) by (simp_all add: run_apc_def)
  have "\<forall>call\<in>set cs. is_stray s1 call"
    using Cons.prems same(1) by (auto simp: is_stray_def split: apc.splits)
  moreover have "\<forall>b\<in>ran (win_watchPoints s). objects s1 b = objects s b"
    using same(2) call(2) by metis
  ultimately show ?case
    using Cons.IH [of s1] s1 same(1) by (cases r) (simp_all add: run_thenE)
qed

lemma calm_stray: "calm (stray_completions api calls)"
  unfolding calm_def
proof (intro conjI allI impI)
  show "keeps_all (stray_completions api calls)"
    unfolding stray_completions_def
    by (intro keeps_all_bindE keeps_all_forE keeps_all_run_apc keeps_all_basic)
  fix s :: "'a win_server"
  have "\<forall>call\<in>set (filter (is_stray s) calls). is_stray s call" by simp
  note loop = stray_loop [OF this, of api]
  show "win_watchPoints (snd (stray_completions api calls s)) = win_watchPoints s"
    using loop by (simp add: stray_completions_def run_get_bind)
  show "watched_win (snd (stray_completions api calls s)) = watched_win s"
    by (rule watched_same) (use loop in \<open>simp_all add: stray_completions_def run_get_bind\<close>)
qed

text \<open>Destroying a watch point that is not in the table.\<close>

lemma keeps_unlisted:
  assumes "only_at a m" "steady_op m"
  shows "keeps (\<lambda>t. win_inv_except {a} t \<and> win_watchPoints t = win_watchPoints s \<and>
      watched_win t = watched_win s) m" (is "keeps ?Q m")
proof (rule keepsI)
  fix t assume t: "?Q t"
  have "watched_win (snd (m t)) = watched_win t"
    using only_atD [OF assms(1), where s = t] t
    by (intro watched_same) (simp_all add: win_inv_except_def, metis)
  with t only_atD(1) [OF assms(1), where s = t] keepsD [OF steady_keeps_except [OF assms(2)], of _ t]
  show "?Q (snd (m t))" by simp
qed

lemma keeps_except_free_object: "keeps (win_inv_except (insert a A)) (free_object a)"
  unfolding free_object_def by (rule keeps_modifyE, rule free_unreferenced)

lemma destroy_win_watched:
  assumes calm: "calm nested" and inv: "win_inv_except {a} s"
  shows "win_watchPoints (snd (destroy_win api nested a s)) = win_watchPoints s"
    "watched_win (snd (destroy_win api nested a s)) = watched_win s"
proof -
  let ?Q = "\<lambda>t :: 'a win_server. win_inv_except {a} t \<and> win_watchPoints t = win_watchPoints s \<and>
      watched_win t = watched_win s"
  note at = keeps_unlisted [of a _ s]
  have "keeps ?Q nested"
  proof (rule keepsI)
    fix t assume t: "?Q t"
    have "keeps (win_inv_except {a}) nested" using calm by (simp add: calm_def keeps_all_def)
    from keepsD [OF this, of t] t calm show "?Q (snd (nested t))"
      by (auto simp: calm_def win_inv_except_def)
  qed
  moreover have "keeps ?Q (cancel_win api a)" "keeps ?Q (close_win api a)" "keeps ?Q (deref api a)"
    "keeps ?Q (logToJava api l f args)" "keeps ?Q lose" for l f args
    by (intro at only_rules steady_rules)+
  moreover have "keeps ?Q (free_object a)"
  proof (rule keepsI)
    fix t assume t: "?Q t"
    have "watched_win (snd (free_object a t)) = watched_win t"
      using t only_atD [OF only_free_object, where s = t]
      by (intro watched_same) (simp_all add: win_inv_except_def, metis)
    with t only_atD(1) [OF only_free_object, where s = t] keepsD [OF keeps_except_free_object, of a "{}" t]
    show "?Q (snd (free_object a t))" by simp
  qed
  ultimately have "keeps ?Q (destroy_win api nested a)"
    unfolding destroy_win_def by (intro keeps_thenE keeps_tryE keeps_bindE)
  from keepsD [OF this, of s] inv show
    "win_watchPoints (snd (destroy_win api nested a s)) = win_watchPoints s"
    "watched_win (snd (destroy_win api nested a s)) = watched_win s" by simp_all
qed

lemma erase_win_watched:
  assumes "calm nested" "win_inv s" "win_watchPoints s p = Some a"
    and "erase_win api nested p a s = (r, s')"
  shows "win_watchPoints s' = (win_watchPoints s)(p := None)" "watched_win s' = watched_win s - {p}"
proof -
  let ?s = "s\<lparr>win_watchPoints := (win_watchPoints s)(p := None)\<rparr>"
  have s': "s' = snd (destroy_win api nested a ?s)"
    using assms(4) by (simp add: erase_win_def exec_simps)
  have "win_inv_except {} s" using assms(2) by (simp add: win_inv_except_empty)
  note destroy = destroy_win_watched [OF assms(1) win_inv_erase [OF this assms(3)], of api]
  show "win_watchPoints s' = (win_watchPoints s)(p := None)" using destroy(1) by (simp add: s')
  have "watched_win ?s = watched_win s - {p}" by (auto simp: watched_win_def)
  with destroy(2) show "watched_win s' = watched_win s - {p}" by (simp add: s')
qed


lemma clearFinished_watched:
  assumes calm: "calm nested" and inv: "win_inv s"
  shows clearFinished_ok: "clearFinished api nested p s = (Inr (), s') \<Longrightarrow>
      win_inv s' \<and> p \<notin> watched_win s \<and> win_watchPoints s' p = None \<and> watched_win s' = watched_win s"
    and clearFinished_err: "clearFinished api nested p s = (Inl e, s') \<Longrightarrow>
      watched_win s' = watched_win s"
proof -
  have nested: "keeps_all nested" using calm by (simp add: calm_def)
  have ok: "win_inv s' \<and> p \<notin> watched_win s \<and> win_watchPoints s' p = None \<and> watched_win s' = watched_win s"
    if run: "clearFinished api nested p s = (Inr (), s')" for s'
  proof (cases "win_watchPoints s p")
    case None
    with run inv show ?thesis by (simp add: clearFinished_def run_get_bind run_ret watched_win_def)
  next
    case (Some a)
    obtain obj where obj: "objects s a = Some obj" using win_inv_table [OF inv Some] by blast
    from run Some obj have fin: "status obj = WIN_FINISHED"
      and erase: "erase_win api nested p a s = (Inr (), s')"
      by (simp_all add: clearFinished_def run_get_bind run_deref_live run_raise split: if_splits)
    have "p \<notin> watched_win s" using Some obj fin by (simp add: watched_win_def)
    moreover have "win_inv s'"
      using keepsD' [OF keeps_allD [OF keeps_all_clearFinished [OF nested], of "{}"] _ run] inv
      by (simp add: win_inv_except_empty)
    ultimately show ?thesis using erase_win_watched [OF calm inv Some erase] by simp
  qed
  then show "clearFinished api nested p s = (Inr (), s') \<Longrightarrow>
      win_inv s' \<and> p \<notin> watched_win s \<and> win_watchPoints s' p = None \<and> watched_win s' = watched_win s"
    by blast
  show "watched_win s' = watched_win s" if run: "clearFinished api nested p s = (Inl e, s')"
  proof (cases "win_watchPoints s p")
    case None
    with run show ?thesis by (simp add: clearFinished_def run_get_bind run_ret)
  next
    case (Some a)
    obtain obj where obj: "objects s a = Some obj" using win_inv_table [OF inv Some] by blast
    show ?thesis
    proof (cases "status obj = WIN_FINISHED")
      case False
      with run Some obj show ?thesis by (simp add: clearFinished_def run_get_bind run_deref_live run_raise)
    next
      case True
      then have "p \<notin> watched_win s" using Some obj by (simp add: watched_win_def)
      moreover have "erase_win api nested p a s = (Inl e, s')"
        using run Some obj True by (simp add: clearFinished_def run_get_bind run_deref_live)
      ultimately show ?thesis using erase_win_watched [OF calm inv Some] by blast
    qed
  qed
qed

text \<open>A new watch point listens.\<close>

lemma listen_listening:
  assumes "listen api a s = (Inr LISTEN_SUCCESS, s')" "objects s' a = Some obj"
  shows "status obj = WIN_LISTENING"
proof -
  obtain x s1 where s1: "deref api a s = (Inr x, s1)" by (cases "objects s a") (simp_all add: deref_live deref_freed)
  obtain ok s2 where s2: "syscall_win (readDirectoryChanges api (directoryHandle x) a WIN_EVENT_MASK) s1
      = (Inr ok, s2)" by (simp add: syscall_win_def)
  have "set_status a WIN_LISTENING s2 = (Inr (), s')"
    using assms(1) s1 s2
    by (auto simp: listen_def run_bindE run_thenE run_ret run_raise set_status_def update_object_def
        run_modifyE split: if_splits prod.splits sum.splits)
  then show ?thesis
    using assms(2) by (auto simp: set_status_def update_object_def run_modifyE)
qed

lemma openDirectory_listening:
  assumes "openDirectory api a p s = (Inr (), s')" "objects s' a = Some obj"
  shows "status obj = WIN_LISTENING"
proof -
  obtain t where "listen api a t = (Inr LISTEN_SUCCESS, s')"
    using assms(1)
    by (auto simp: openDirectory_def startListening_def run_bindE run_thenE run_ret run_raise
        split: option.splits prod.splits sum.splits listen_result.splits)
  from listen_listening [OF this assms(2)] show ?thesis .
qed

lemma construct_win_watched:
  assumes inv: "win_inv s"
  shows construct_win_listening: "construct_win api p s = (Inr a, s') \<Longrightarrow>
      a = nextAddress s \<and> win_watchPoints s' = win_watchPoints s \<and>
      (\<forall>b. b \<noteq> a \<longrightarrow> objects s' b = objects s b) \<and>
      (\<exists>obj. objects s' a = Some obj \<and> status obj = WIN_LISTENING)"
    and construct_win_failed: "construct_win api p s = (Inl e, s') \<Longrightarrow>
      win_watchPoints s' = win_watchPoints s \<and> objects s' = objects s"
proof -
  let ?a = "nextAddress s"
  obtain r s1 where run: "openDirectory api ?a p (alloc_point p s) = (r, s1)" by fastforce
  note only = only_atD [OF only_openDirectory [of ?a api p], where s = "alloc_point p s", unfolded run snd_conv]
  have frame: "win_watchPoints s1 = win_watchPoints s" "b \<noteq> ?a \<Longrightarrow> objects s1 b = objects s b" for b
    using only by (simp_all add: alloc_point_def)
  have cons: "construct_win api p s = (case r of
      Inl e \<Rightarrow> (Inl e, s1\<lparr>objects := (objects s1)(?a := None)\<rparr>) | Inr _ \<Rightarrow> (Inr ?a, s1))"
    by (simp add: construct_win_run run)
  have none: "objects s ?a = None" using inv by (simp add: win_inv_def)
  have steady: "steady s1 (alloc_point p s)"
    using steady_opD [OF steady_openDirectory, of api ?a p "alloc_point p s"] run by simp
  have "map_option registeredPath (objects s1 ?a) = Some p"
    using steady by (simp add: steady_def alloc_point_def)
  then obtain obj where obj: "objects s1 ?a = Some obj" by blast
  have listening: "\<exists>obj. objects s1 ?a = Some obj \<and> status obj = WIN_LISTENING" if "r = Inr ()"
    using openDirectory_listening [OF run [unfolded that] obj] obj by blast
  show "construct_win api p s = (Inr a, s') \<Longrightarrow>
      a = nextAddress s \<and> win_watchPoints s' = win_watchPoints s \<and>
      (\<forall>b. b \<noteq> a \<longrightarrow> objects s' b = objects s b) \<and>
      (\<exists>obj. objects s' a = Some obj \<and> status obj = WIN_LISTENING)"
    using frame listening by (auto simp: cons split: sum.splits)
  show "construct_win api p s = (Inl e, s') \<Longrightarrow>
      win_watchPoints s' = win_watchPoints s \<and> objects s' = objects s"
    using frame none by (auto simp: cons fun_eq_iff split: sum.splits)
qed


section \<open>The contract\<close>

lemma registerPath_win_watched:
  assumes calm: "calm nested" and inv: "win_inv s"
  shows "registerPath_win api nested p s = (Inr (), s') \<Longrightarrow>
      p \<notin> watched_win s \<and> watched_win s' = insert p (watched_win s)"
    and "registerPath_win api nested p s = (Inl e, s') \<Longrightarrow> watched_win s' = watched_win s"
proof -
  let ?reg = "registerPath_win api nested p s"
  obtain r1 s1 where s1: "clearFinished api nested p s = (r1, s1)" by fastforce
  have "(\<forall>s'. ?reg = (Inr (), s') \<longrightarrow> p \<notin> watched_win s \<and> watched_win s' = insert p (watched_win s)) \<and>
    (\<forall>e s'. ?reg = (Inl e, s') \<longrightarrow> watched_win s' = watched_win s)"
  proof (cases r1)
    case (Inl e)
    with s1 clearFinished_err [OF calm inv] show ?thesis by (simp add: registerPath_win_def run_thenE)
  next
    case (Inr u)
    with clearFinished_ok [OF calm inv] s1 have clear: "win_inv s1" "p \<notin> watched_win s"
      "win_watchPoints s1 p = None" "watched_win s1 = watched_win s" by simp_all
    obtain r2 s2 where s2: "construct_win api p s1 = (r2, s2)" by fastforce
    have fresh: "b \<noteq> nextAddress s1" if "win_watchPoints s1 q = Some b" for q b
      using win_inv_table [OF clear(1) that] clear(1) by (auto simp: win_inv_def)
    show ?thesis
    proof (cases r2)
      case (Inl e)
      with s1 Inr s2 construct_win_failed [OF clear(1)] clear show ?thesis
        by (auto simp: registerPath_win_def run_thenE run_bindE watched_win_def)
    next
      case (Inr a)
      with construct_win_listening [OF clear(1)] s2 obtain obj
        where a: "a = nextAddress s1" "win_watchPoints s2 = win_watchPoints s1"
          "\<forall>b. b \<noteq> a \<longrightarrow> objects s2 b = objects s1 b"
          "objects s2 a = Some obj" "status obj = WIN_LISTENING" by metis
      let ?s3 = "s2\<lparr>win_watchPoints := (win_watchPoints s2)(p \<mapsto> a)\<rparr>"
      have reg: "?reg = (Inr (), ?s3)"
        using s1 \<open>r1 = Inr u\<close> s2 Inr a(2) clear(3)
        by (simp add: registerPath_win_def run_thenE run_bindE emplace_win_def run_getE run_modifyE)
      have "watched_win ?s3 = insert p (watched_win s1)"
        using a fresh clear(3) by (auto simp: watched_win_def split: if_splits)
      with reg clear show ?thesis by simp
    qed
  qed
  then show "?reg = (Inr (), s') \<Longrightarrow> p \<notin> watched_win s \<and> watched_win s' = insert p (watched_win s)"
    and "?reg = (Inl e, s') \<Longrightarrow> watched_win s' = watched_win s" by simp_all
qed

lemma unregisterPath_win_watched:
  assumes calm: "calm nested" and inv: "win_inv s" and run: "unregisterPath_win api nested p s = (r, s')"
  shows "watched_win s' = watched_win s - {p}"
proof (cases "win_watchPoints s p")
  case None
  have "framed (thenE (logToJava api INFO_LEVEL ''Path is not watched: %s''
      [Str (wideToUtf8String api p)]) (ret False))" by (intro framed_rules)
  from framedD [OF this, of s] run None have "same_server s' s"
    by (simp add: unregisterPath_win_def run_get_bind)
  with None show ?thesis by (auto simp: watched_win_def same_server_win)
next
  case (Some a)
  obtain r1 s1 where erase: "erase_win api nested p a s = (r1, s1)" by fastforce
  then have "s' = s1"
    using run Some by (cases r1) (simp_all add: unregisterPath_win_def run_get_bind run_thenE run_ret)
  with erase_win_watched(2) [OF calm inv Some erase] show ?thesis by simp
qed

interpretation win_registry: path_registry "\<lambda>s. calm nested \<and> win_inv s" watched_win
    "registerPath_win api nested" "unregisterPath_win api nested" for api nested
proof unfold_locales
  fix p
  have "keeps win_inv (registerPath_win api nested p)" "keeps win_inv (unregisterPath_win api nested p)"
    if "calm nested"
    using that keeps_allD [OF keeps_all_registerPath_win, of nested "{}" api p]
      keeps_allD [OF keeps_all_unregisterPath_win, of nested "{}" api p]
    by (simp_all add: win_inv_except_empty calm_def)
  then show "keeps (\<lambda>s. calm nested \<and> win_inv s) (registerPath_win api nested p)"
    "keeps (\<lambda>s. calm nested \<and> win_inv s) (unregisterPath_win api nested p)"
    by (auto simp: keeps_iff)
qed (use registerPath_win_watched unregisterPath_win_watched in blast)+

text \<open>Win32 for the witnesses: every call succeeds, no call is pending, and the final path of every
  handle is \<^verbatim>\<open>C:\<close>.\<close>

definition quiet_win :: "nat win_api" where
  "quiet_win = jni.extend quiet_jni (win_api.fields
     (\<lambda>_. 0) (\<lambda>wstr n. (length wstr, replicate (length wstr) (CHR ''x'')))
     (\<lambda>_ _ _ w. (Some 7, w)) (\<lambda>_ _ w. ((2, [0x43, COLON]), w)) (\<lambda>_ _ _ w. (True, w))
     (\<lambda>_ _ w. (True, w)) (\<lambda>_ w. (Inr True, w)) (\<lambda>_ w. (FILE_ATTRIBUTE_DIRECTORY, w))
     (\<lambda>w. (Some 5, w)) (\<lambda>_ _ w. (True, w)) (\<lambda>w. ([], w)) (\<lambda>_. None) (\<lambda>_ _. [])
     (\<lambda>_ _ _. ''close'') (\<lambda>_. \<lparr>registeredPath = [], directoryHandle = 0, registeredFinalPath = [],
       status = WIN_FINISHED\<rparr>) False)"

lemma quiet_win_fields [simp]:
  "createFile quiet_win p x y w = (Some 7, w)"
  "getFinalPathName quiet_win h n w = ((2, [0x43, COLON]), w)"
  "readDirectoryChanges quiet_win h a f w = (True, w)"
  "cancelIoEx quiet_win h a w = (True, w)"
  "getFileAttributes quiet_win p w = (FILE_ATTRIBUTE_DIRECTORY, w)"
  "queueUserApc quiet_win c t w = (True, w)"
  "closeHandle quiet_win h w = (Inr True, w)"
  "sleepZero quiet_win w = ([], w)"
  by (simp_all add: quiet_win_def jni.defs win_api.defs)

lemma quiet_win_ok: "jni_ok quiet_win"
  by (simp add: jni_ok_def quiet_win_def quiet_jni_def jni.defs win_api.defs)

text \<open>Registering one path there.\<close>

definition one_watched :: "u16string \<Rightarrow> nat win_server" where
  "one_watched p = (init_win_server 0 100)\<lparr>nextAddress := 1, handleCalls := [Opened 7],
     objects := Map.empty(0 \<mapsto> \<lparr>registeredPath = p, directoryHandle = 7,
       registeredFinalPath = [0x43, COLON], status = WIN_LISTENING\<rparr>),
     win_watchPoints := Map.empty(p \<mapsto> 0)\<rparr>"

lemma registerPath_quiet:
  "registerPath_win quiet_win nested p (init_win_server 0 100) = (Inr (), one_watched p)"
  by (simp add: registerPath_win_def clearFinished_def construct_win_def openDirectory_def
      startListening_def resolveFinalPath_def listen_def emplace_win_def deref_def set_status_def
      update_object_def syscall_win_def exec_simps init_win_server_def one_watched_def
      PATH_BUFFER_SIZE_def)



end
