(* ===== verification/WinRecords.thy ===== *)
theory WinRecords
  imports WinBatch
begin

text \<open>
  The records of a read buffer: how Windows lays them out (\<open>encode_records\<close>), that the loop over
  \<^verbatim>\<open>NextEntryOffset\<close> visits exactly them where a \<^verbatim>\<open>NUL\<close> follows every name (\<open>names_end\<close>) and leaves the
  buffer otherwise, and when the loop ends on a buffer of any bytes.
\<close>

section \<open>The layout\<close>

text \<open>A record with the fields the code reads, the bytes of the fields between them, and the bytes
  that align the record behind it.\<close>

record change_record =
  rec_action :: flags32
  rec_attributes :: flags32
  rec_name :: u16string
  rec_times :: string
  rec_ids :: string
  rec_padding :: string

definition record_size :: "change_record \<Rightarrow> nat" where
  "record_size r = FILE_INFO_SIZE + 2 * length (rec_name r) + length (rec_padding r)"

definition record_ok :: "change_record \<Rightarrow> bool" where
  "record_ok r \<longleftrightarrow> length (rec_times r) = 48 \<and> length (rec_ids r) = 20 \<and> record_size r < 2 ^ 32"

definition encode_record :: "flags32 \<Rightarrow> change_record \<Rightarrow> string" where
  "encode_record next r =
     bytes_u32 next @ bytes_u32 (rec_action r) @ rec_times r @ bytes_u32 (rec_attributes r) @
     rec_ids r @ bytes_u32 (of_nat (2 * length (rec_name r))) @
     concat (map bytes_u16 (rec_name r)) @ rec_padding r"

fun encode_records :: "change_record list \<Rightarrow> string" where
  "encode_records [] = []"
| "encode_records [r] = encode_record 0 r"
| "encode_records (r # rs) = encode_record (of_nat (record_size r)) r @ encode_records rs"

text \<open>A record as the code sees it. A name ends at a \<^verbatim>\<open>NUL\<close>, which no file name of Windows contains.\<close>

definition decode_record :: "flags32 \<Rightarrow> change_record \<Rightarrow> file_info" where
  "decode_record next r = \<lparr>fi_next = next, fi_action = rec_action r, fi_attributes = rec_attributes r,
     fi_name = takeWhile (\<lambda>u. u \<noteq> 0) (rec_name r)\<rparr>"

fun decode_records :: "change_record list \<Rightarrow> file_info list" where
  "decode_records [] = []"
| "decode_records [r] = [decode_record 0 r]"
| "decode_records (r # rs) = decode_record (of_nat (record_size r)) r # decode_records rs"

text \<open>Somewhere behind the start of each name the buffer has a \<^verbatim>\<open>NUL\<close>: the code needs that, and Windows
  does not promise it. \<open>rest\<close> is what the buffer holds behind the last record.\<close>

fun names_end :: "change_record list \<Rightarrow> string \<Rightarrow> bool" where
  "names_end [] rest \<longleftrightarrow> True"
| "names_end (r # rs) rest \<longleftrightarrow>
     0 \<in> set (rec_name r @ read_u16s (rec_padding r @ encode_records rs @ rest)) \<and> names_end rs rest"

lemma length_encode_record: "record_ok r \<Longrightarrow> length (encode_record next r) = record_size r"
  by (simp add: encode_record_def record_size_def record_ok_def FILE_INFO_SIZE_def)

section \<open>Reading it back\<close>

lemma unat_of_nat_small: "n < 2 ^ 32 \<Longrightarrow> unat (of_nat n :: flags32) = n"
  by (simp add: unsigned_of_nat take_bit_nat_eq_self)

text \<open>The name of a record that lies in a buffer.\<close>

lemma wide_string_at_encoded:
  assumes ok: "record_ok r" and i: "length pre = i"
  shows "wide_string_at (pre @ encode_record next r @ post) (i + FILE_INFO_SIZE) =
    (if 0 \<in> set (rec_name r @ read_u16s (rec_padding r @ post))
     then Some (takeWhile (\<lambda>u. u \<noteq> 0) (rec_name r @ read_u16s (rec_padding r @ post))) else None)"
proof -
  have "drop (i + FILE_INFO_SIZE) (pre @ encode_record next r @ post) =
      concat (map bytes_u16 (rec_name r)) @ rec_padding r @ post"
    using ok i by (simp add: encode_record_def record_ok_def FILE_INFO_SIZE_def)
  then show ?thesis by (simp add: wide_string_at_def read_u16s_append Let_def)
qed

lemma take_takeWhile: "take (length xs) (takeWhile P (xs @ ys)) = takeWhile P xs"
  by (induction xs) simp_all

lemma info_at_encoded:
  assumes ok: "record_ok r" and i: "length pre = i"
  shows "info_at (pre @ encode_record next r @ post) i =
    (if 0 \<in> set (rec_name r @ read_u16s (rec_padding r @ post)) then Some (decode_record next r) else None)"
proof -
  let ?buf = "pre @ encode_record next r @ post"
  let ?n = "2 * length (rec_name r)"
  have len: "length (rec_times r) = 48" "length (rec_ids r) = 20" using ok by (simp_all add: record_ok_def)
  have small: "?n < 2 ^ 32" using ok by (simp add: record_ok_def record_size_def)
  have nxt: "read_u32 ?buf i = next"
    unfolding encode_record_def by (simp only: append_assoc read_bytes_u32 [OF i])
  have action: "read_u32 ?buf (i + 4) = rec_action r"
    using read_bytes_u32 [of "pre @ bytes_u32 next" "i + 4"] i by (simp add: encode_record_def)
  have attributes: "read_u32 ?buf (i + 56) = rec_attributes r"
    using read_bytes_u32 [of "pre @ bytes_u32 next @ bytes_u32 (rec_action r) @ rec_times r" "i + 56"] i len
    by (simp add: encode_record_def)
  have name: "unat (read_u32 ?buf (i + 80)) = ?n"
    using read_bytes_u32 [of "pre @ bytes_u32 next @ bytes_u32 (rec_action r) @ rec_times r @
        bytes_u32 (rec_attributes r) @ rec_ids r" "i + 80" "of_nat ?n"] i len unat_of_nat_small [OF small]
    by (simp add: encode_record_def del: of_nat_mult of_nat_numeral)
  have fits: "i + FILE_INFO_SIZE \<le> length ?buf"
    using i len by (simp add: encode_record_def FILE_INFO_SIZE_def)
  have "take (length (rec_name r)) (takeWhile (\<lambda>u. u \<noteq> 0) (rec_name r @ ws)) =
      takeWhile (\<lambda>u. u \<noteq> 0) (rec_name r)" for ws :: u16string by (rule take_takeWhile)
  with fits show ?thesis
    by (simp add: info_at_def nxt action attributes name wide_string_at_encoded [OF ok i] decode_record_def)
qed

section \<open>The loop over the records\<close>

text \<open>One record of a buffer, and the next.\<close>

lemma handleRecordsFrom_encoded:
  assumes ok: "record_ok r" and i: "length pre < 2 ^ 31"
    and nul: "0 \<in> set (rec_name r @ read_u16s (rec_padding r @ post))"
  shows "handleRecordsFrom api path (pre @ encode_record next r @ post) (of_nat (length pre)) s =
    (case handleEvent_win api path (decode_record next r) s of
       (Inl e, s1) \<Rightarrow> Some (Inl e, s1)
     | (Inr _, s1) \<Rightarrow> if next = 0 then Some (Inr (), s1)
         else handleRecordsFrom api path (pre @ encode_record next r @ post) (of_nat (length pre) + next) s1)"
proof -
  have "sint (of_nat (length pre) :: 32 word) = int (length pre)"
    using i by (simp add: signed_of_nat signed_take_bit_int_eq_self)
  then show ?thesis
    using nul by (subst handleRecordsFrom.simps) (auto simp: info_at_encoded [OF ok refl] decode_record_def split: sum.split prod.split)
qed

lemma handleRecordsFrom_outside:
  assumes ok: "record_ok r" and i: "length pre < 2 ^ 31"
    and nul: "0 \<notin> set (rec_name r @ read_u16s (rec_padding r @ post))"
  shows "\<exists>q s'. handleRecordsFrom api path (pre @ encode_record next r @ post) (of_nat (length pre)) s =
    Some (q, s') \<and> lost s'"
proof -
  have "sint (of_nat (length pre) :: 32 word) = int (length pre)"
    using i by (simp add: signed_of_nat signed_take_bit_int_eq_self)
  then show ?thesis
    using nul by (subst handleRecordsFrom.simps)
      (simp add: info_at_encoded [OF ok refl] lose_def run_modifyE)
qed

lemma record_size_nonzero:
  assumes "record_ok r"
  shows "(of_nat (record_size r) :: flags32) \<noteq> 0"
  using assms unat_of_nat_small [of "record_size r"]
  by (metis FILE_INFO_SIZE_def add_is_0 record_ok_def record_size_def unat_0 zero_neq_numeral)

text \<open>
  The loop handles exactly the records Windows wrote into the buffer, in order, and never reads past
  the end of the buffer, whatever the other fields and the padding hold.
\<close>

lemma handleRecords_encoded:
  assumes "rs \<noteq> []" and "\<forall>r\<in>set rs. record_ok r" and "names_end rs rest"
    and "length (encode_records rs) < 2 ^ 31"
  shows "handleRecords api path (encode_records rs @ rest) s =
    forE (decode_records rs) (handleEvent_win api path) s"
proof -
  have "handleRecordsFrom api path (pre @ encode_records rs @ rest) (of_nat (length pre)) s =
      Some (forE (decode_records rs) (handleEvent_win api path) s)"
    if "length (pre @ encode_records rs) < 2 ^ 31" for pre s
    using assms(1-3) that
  proof (induction rs arbitrary: pre s rule: encode_records.induct)
    case (2 r)
    then have "length pre < 2 ^ 31" by simp
    with 2 show ?case
      by (simp add: handleRecordsFrom_encoded run_thenE run_ret split: prod.split sum.split)
  next
    case (3 r r2 rs)
    let ?r = "encode_record (of_nat (record_size r)) r"
    have ok: "record_ok r" using 3 by simp
    have size: "(of_nat (record_size r) :: flags32) \<noteq> 0" by (rule record_size_nonzero [OF ok])
    have rest: "handleRecordsFrom api path (pre @ ?r @ encode_records (r2 # rs) @ rest)
        (of_nat (length pre) + of_nat (record_size r)) s1 =
      Some (forE (decode_records (r2 # rs)) (handleEvent_win api path) s1)" for s1
      using "3.IH" [of "pre @ ?r" s1] "3.prems" by (simp add: length_encode_record [OF ok])
    have "length pre < 2 ^ 31"
      "0 \<in> set (rec_name r @ read_u16s (rec_padding r @ encode_records (r2 # rs) @ rest))"
      using "3.prems" by simp_all
    from handleRecordsFrom_encoded [OF ok this, of api path "of_nat (record_size r)" s] rest size
    show ?case by (simp add: run_thenE split: prod.split sum.split)
  qed simp
  from this [of "[]"] assms(4) show ?thesis by (simp add: handleRecords_def)
qed

text \<open>A name without an end leads the loop out of the buffer.\<close>

lemma handleRecords_unended:
  assumes "\<forall>r\<in>set rs. record_ok r" and "\<not> names_end rs rest"
    and "length (encode_records rs) < 2 ^ 31"
    and event: "\<And>info s. \<exists>s'. handleEvent_win api path info s = (Inr (), s')"
  shows "lost (snd (handleRecords api path (encode_records rs @ rest) s))"
proof -
  have "\<exists>r s'. handleRecordsFrom api path (pre @ encode_records rs @ rest) (of_nat (length pre)) s =
      Some (r, s') \<and> lost s'"
    if "length (pre @ encode_records rs) < 2 ^ 31" for pre s
    using assms(1,2) that
  proof (induction rs arbitrary: pre s rule: encode_records.induct)
    case (2 r)
    then have "length pre < 2 ^ 31" "0 \<notin> set (rec_name r @ read_u16s (rec_padding r @ rest))" by simp_all
    with 2(1) show ?case by (simp add: handleRecordsFrom_outside)
  next
    case (3 r r2 rs)
    let ?r = "encode_record (of_nat (record_size r)) r"
    have ok: "record_ok r" and pre: "length pre < 2 ^ 31" using "3.prems" by simp_all
    show ?case
    proof (cases "0 \<in> set (rec_name r @ read_u16s (rec_padding r @ encode_records (r2 # rs) @ rest))")
      case False
      from handleRecordsFrom_outside [OF ok pre this, of api path "of_nat (record_size r)" s]
      show ?thesis by simp
    next
      case True
      have size: "(of_nat (record_size r) :: flags32) \<noteq> 0" by (rule record_size_nonzero [OF ok])
      obtain s1 where s1: "handleEvent_win api path (decode_record (of_nat (record_size r)) r) s = (Inr (), s1)"
        using event by blast
      have "\<not> names_end (r2 # rs) rest" using "3.prems"(2) True by (simp only: names_end.simps) blast
      with "3.IH" [of "pre @ ?r" s1] "3.prems"
      have "\<exists>q s'. handleRecordsFrom api path (pre @ ?r @ encode_records (r2 # rs) @ rest)
          (of_nat (length pre) + of_nat (record_size r)) s1 = Some (q, s') \<and> lost s'"
        by (simp add: length_encode_record [OF ok])
      with handleRecordsFrom_encoded [OF ok pre True, of api path "of_nat (record_size r)" s] size s1
      show ?thesis by simp
    qed
  qed simp
  from this [of "[]" s] assms(3) show ?thesis by (auto simp: handleRecords_def)
qed

section \<open>When the loop ends\<close>

text \<open>One turn of the loop: the record at an index, and the index of the next one.\<close>

definition record_at :: "string \<Rightarrow> 32 word \<Rightarrow> file_info option" where
  "record_at buf i = (if sint i < 0 then None else info_at buf (nat (sint i)))"

inductive follows :: "string \<Rightarrow> 32 word \<Rightarrow> 32 word \<Rightarrow> bool" for buf where
  next_record: "record_at buf i = Some info \<Longrightarrow> fi_next info \<noteq> 0 \<Longrightarrow> follows buf i (i + fi_next info)"

inductive_simps follows_iff: "follows buf i j"

lemma handleRecordsFrom_turn:
  "handleRecordsFrom api path buf i s =
    (case record_at buf i of
       None \<Rightarrow> Some (lose s)
     | Some info \<Rightarrow>
         (case handleEvent_win api path info s of
            (Inl e, s1) \<Rightarrow> Some (Inl e, s1)
          | (Inr _, s1) \<Rightarrow>
              if fi_next info = 0 then Some (Inr (), s1)
              else handleRecordsFrom api path buf (i + fi_next info) s1))"
  by (subst handleRecordsFrom.simps) (simp add: record_at_def)

lemma record_at_bounds: "record_at buf i = Some info \<Longrightarrow> 0 \<le> sint i \<and> nat (sint i) < length buf"
  by (auto simp: record_at_def dest: info_at_bounds split: if_splits)

text \<open>As long as the offsets point forward, the loop ends: it runs out of the buffer at the latest.\<close>

lemma forward_index:
  fixes i n :: "32 word"
  assumes "0 \<le> sint i" "0 < sint n"
  shows "sint (i + n) < 0 \<or> sint i < sint (i + n)"
proof -
  have sum: "sint (i + n) = signed_take_bit 31 (sint i + sint n)"
    by (simp add: sint_word_ariths)
  have bounds: "sint i < 2 ^ 31" "sint n < 2 ^ 31" using sint_lt [of i] sint_lt [of n] by simp_all
  show ?thesis
  proof (cases "sint i + sint n < 2 ^ 31")
    case True
    then have "sint (i + n) = sint i + sint n"
      unfolding sum using assms by (intro signed_take_bit_int_eq_self) simp_all
    with assms show ?thesis by simp
  next
    case False
    then have "(sint i + sint n + 2 ^ 31 - 2 ^ 32 + 2 ^ 32) mod 2 ^ 32 = sint i + sint n + 2 ^ 31 - 2 ^ 32"
      using bounds by (simp only: mod_add_self2) (intro mod_pos_pos_trivial; simp)
    then have "(sint i + sint n + 2 ^ 31) mod 2 ^ 32 = sint i + sint n + 2 ^ 31 - 2 ^ 32"
      by (simp only: diff_add_cancel)
    moreover have "sint (i + n) = (sint i + sint n + 2 ^ 31) mod 2 ^ 32 - 2 ^ 31"
      by (simp add: sum signed_take_bit_eq_take_bit_shift take_bit_eq_mod)
    ultimately have "sint (i + n) = sint i + sint n - 2 ^ 32" by simp
    with bounds show ?thesis by simp
  qed
qed

lemma forward_loop_ends:
  assumes "\<And>j k. (follows buf)\<^sup>*\<^sup>* i j \<Longrightarrow> follows buf j k \<Longrightarrow> 0 < sint (k - j)"
  shows "\<exists>r. handleRecordsFrom api path buf i s = Some r"
  using assms
proof (induction "length buf - nat (sint i)" arbitrary: i s rule: less_induct)
  case less
  show ?case
  proof (cases "record_at buf i")
    case None
    then show ?thesis by (subst handleRecordsFrom_turn) simp
  next
    case (Some info)
    obtain r s1 where s1: "handleEvent_win api path info s = (r, s1)" by fastforce
    have "\<exists>r. handleRecordsFrom api path buf (i + fi_next info) s1 = Some r" if "fi_next info \<noteq> 0"
    proof -
      let ?k = "i + fi_next info"
      have step: "follows buf i ?k" using Some that by (rule next_record)
      have "0 < sint (?k - i)" by (rule less.prems [OF _ step]) simp
      then have "sint ?k < 0 \<or> sint i < sint ?k"
        using record_at_bounds [OF Some] by (intro forward_index) simp_all
      then show ?thesis
      proof
        assume "sint ?k < 0"
        then show ?thesis by (subst handleRecordsFrom_turn) (simp add: record_at_def)
      next
        assume "sint i < sint ?k"
        with record_at_bounds [OF Some] have "length buf - nat (sint ?k) < length buf - nat (sint i)"
          by linarith
        then show ?thesis
          by (rule less.hyps) (meson less.prems converse_rtranclp_into_rtranclp step)
      qed
    qed
    with Some s1 show ?thesis
      by (subst handleRecordsFrom_turn) (auto split: sum.split)
  qed
qed

text \<open>Once it comes back to a record it has handled, the loop never ends.\<close>

lemma cyclic_loop_never_ends:
  assumes event: "\<And>info s. \<exists>s'. handleEvent_win api path info s = (Inr (), s')"
    and cycle: "(follows buf)\<^sup>+\<^sup>+ i i"
  shows "handleRecordsFrom (api :: 'w win_api) path buf i s = None"
proof (rule ccontr)
  let ?P = "\<lambda>a p b i (s :: 'w win_server) (q :: (exn + unit) \<times> 'w win_server).
      a = api \<and> p = path \<and> b = buf \<longrightarrow> \<not> (follows buf)\<^sup>+\<^sup>+ i i"
  assume "handleRecordsFrom api path buf i s \<noteq> None"
  then obtain q where run: "handleRecordsFrom api path buf i s = Some q" by blast
  have "?P api path buf i s q"
  proof (rule handleRecordsFrom.raw_induct [of ?P, OF _ run], intro impI, elim conjE)
    fix loop a p b i s and q :: "(exn + unit) \<times> 'w win_server"
    assume IH: "\<And>a p b i s q. loop a p b i s = Some q \<Longrightarrow> ?P a p b i s q"
      and body: "(case if sint i < 0 then None else info_at b (nat (sint i)) of None \<Rightarrow> Some (lose s)
         | Some info \<Rightarrow>
             (case handleEvent_win a p info s of
                (Inl e, s1) \<Rightarrow> Some (Inl e, s1)
              | (Inr u, s1) \<Rightarrow>
                  if fi_next info = 0 then Some (Inr (), s1)
                  else loop a p b (i + fi_next info) s1)) = Some q"
      and same: "a = api" "p = path" "b = buf"
    show "\<not> (follows buf)\<^sup>+\<^sup>+ i i"
    proof
      assume cyc: "(follows buf)\<^sup>+\<^sup>+ i i"
      then obtain k where k: "follows buf i k" "(follows buf)\<^sup>*\<^sup>* k i" by (auto dest: tranclpD)
      then obtain info where info: "record_at buf i = Some info" "fi_next info \<noteq> 0" "k = i + fi_next info"
        by (auto simp: follows_iff)
      obtain s1 where "handleEvent_win api path info s = (Inr (), s1)" using event by blast
      with body same info have "loop api path buf k s1 = Some q"
        by (simp add: record_at_def split: if_splits)
      from IH [OF this] have "\<not> (follows buf)\<^sup>+\<^sup>+ k k" by simp
      with k show False by (meson rtranclp_into_tranclp1)
    qed
  qed
  with cycle show False by simp
qed

end
