(* ===== verification/WinProps.thy ===== *)
theory WinProps
  imports WinRecords
begin

text \<open>
  The properties of the Windows server: what the completion of a read leads to, the life of a watch
  point, the calls handed to the run loop, and the end of the run loop.
\<close>

section \<open>Reports\<close>

definition win_report :: "u16string \<Rightarrow> file_info \<Rightarrow> upcall list" where
  "win_report path info =
     (let p = (if fi_name info = [] then path else path @ [BACKSLASH] @ fi_name info) in
      if fi_action info \<in> {1, 5} then [ReportChangeEvent 0 p]
      else if fi_action info \<in> {2, 4} then [ReportChangeEvent 1 p]
      else if fi_action info = 3
      then (if IS_SET (fi_attributes info) 0x10 then [] else [ReportChangeEvent 2 p])
      else [ReportUnknownEvent p])"

lemma win_report_classify:
  "win_report path info =
     (case classify (fi_action info) (fi_attributes info) of
        Change t \<Rightarrow> [ReportChangeEvent (change_type_value t) (changed_path path (fi_name info))]
      | IgnoreDirectory \<Rightarrow> []
      | UnknownAction \<Rightarrow> [ReportUnknownEvent (changed_path path (fi_name info))])"
  by (auto simp: win_report_def classify_def changed_path_def win_actions FILE_ATTRIBUTE_DIRECTORY_def
      IS_SET_def Let_def)

lemma handleEvent_win_run:
  assumes "jni_ok api"
  obtains s' where "handleEvent_win api path info s = (Inr (), s')" "same_server s' s"
    "reports s' = reports s @ win_report path info"
proof
  let ?r = "handleEvent_win api path info s"
  show "same_server (snd ?r) s" by (rule framedD [OF framed_handleEvent_win])
  show "?r = (Inr (), snd ?r)"
    by (cases "classify (fi_action info) (fi_attributes info)")
      (simp_all add: handleEvent_win_def Let_def run_thenE logToJava_ok [OF assms]
        reportChangeEvent_run reportUnknownEvent_run)
  show "reports (snd ?r) = reports s @ win_report path info"
    by (cases "classify (fi_action info) (fi_attributes info)")
      (simp_all add: handleEvent_win_def run_thenE logToJava_ok [OF assms] reportChangeEvent_run
        reportUnknownEvent_run win_report_classify Let_def)
qed

lemma handleEvents_loop_run:
  assumes "jni_ok api"
  shows "\<exists>s'. forE infos (handleEvent_win api path) s = (Inr (), s') \<and> same_server s' s \<and>
    reports s' = reports s @ concat (map (win_report path) infos)"
proof (induction infos arbitrary: s)
  case Nil
  then show ?case by (simp add: run_ret)
next
  case (Cons info infos)
  obtain s1 where s1: "handleEvent_win api path info s = (Inr (), s1)" "same_server s1 s"
    "reports s1 = reports s @ win_report path info"
    using handleEvent_win_run [OF assms] by blast
  obtain s2 where "forE infos (handleEvent_win api path) s1 = (Inr (), s2)" "same_server s2 s1"
    "reports s2 = reports s1 @ concat (map (win_report path) infos)"
    using Cons by blast
  with s1 show ?case by (auto simp: run_thenE intro: same_server_trans)
qed

text \<open>A log call and what comes after it.\<close>

lemma then_log:
  assumes "jni_ok j"
  obtains s' where "thenE (logToJava j l f args) m s = m s'" "same_server s' s" "reports s' = reports s"
proof
  let ?s = "after_call j (LogMessage (log_level_value l) (take (LOG_BUFFER_SIZE - 1) (format_text f args))) s"
  show "thenE (logToJava j l f args) m s = m ?s" by (simp add: run_thenE logToJava_ok [OF assms])
qed simp_all

text \<open>The directory of a watch point is still where it was registered.\<close>

definition in_place :: "'w win_api \<Rightarrow> win_watch_point \<Rightarrow> bool" where
  "in_place api obj \<longleftrightarrow>
     registeredFinalPath obj \<noteq> [] \<and> length (registeredFinalPath obj) \<le> PATH_BUFFER_SIZE \<and>
     (\<forall>w. fst (getFinalPathName api (directoryHandle obj) PATH_BUFFER_SIZE w) =
        (length (registeredFinalPath obj), registeredFinalPath obj))"

lemma resolveFinalPath_in_place:
  assumes "in_place api obj"
  obtains s' where "resolveFinalPath api (directoryHandle obj) s = (Inr (Some (registeredFinalPath obj)), s')"
    "same_server s' s" "reports s' = reports s"
proof
  let ?r = "resolveFinalPath api (directoryHandle obj) s"
  show "?r = (Inr (Some (registeredFinalPath obj)), snd ?r)"
    using assms by (simp add: resolveFinalPath_def run_bindE syscall_win_def in_place_def run_ret)
  show "same_server (snd ?r) s" "reports (snd ?r) = reports s"
    by (simp_all add: silentD [OF silent_resolveFinalPath])
qed

lemma listen_success_run:
  assumes obj: "objects s a = Some obj"
    and ok: "\<And>w. fst (readDirectoryChanges api (directoryHandle obj) a WIN_EVENT_MASK w)"
  obtains s' where "listen api a s = (Inr LISTEN_SUCCESS, s')" "reports s' = reports s"
    "same_server s' (s\<lparr>objects := (objects s)(a \<mapsto> obj\<lparr>status := WIN_LISTENING\<rparr>)\<rparr>)"
proof
  let ?s = "s\<lparr>world := snd (readDirectoryChanges api (directoryHandle obj) a WIN_EVENT_MASK (world s)),
    objects := (objects s)(a \<mapsto> obj\<lparr>status := WIN_LISTENING\<rparr>)\<rparr>"
  show "listen api a s = (Inr LISTEN_SUCCESS, ?s)"
    using obj ok by (simp add: listen_def deref_live [OF obj] syscall_win_def run_bindE run_thenE
        set_status_def update_object_def run_modifyE run_ret)
  show "same_server ?s (s\<lparr>objects := (objects s)(a \<mapsto> obj\<lparr>status := WIN_LISTENING\<rparr>)\<rparr>)"
    by (cases s) (simp add: same_server_def)
qed (simp add: reports_def)

lemma set_status_run:
  "objects s a = Some obj \<Longrightarrow>
   set_status a st s = (Inr (), s\<lparr>objects := (objects s)(a \<mapsto> obj\<lparr>status := st\<rparr>)\<rparr>)"
  by (simp add: set_status_def update_object_def run_modifyE)


section \<open>Events\<close>

text \<open>
  C4: The completion of a read of a watched directory that is still in place reports exactly the
  records Windows wrote into the buffer, in order, each as the change it means (nothing for a
  modified directory, an unknown event for an unknown action), under the registered path, and
  listens again; nothing outside the buffer and no freed memory is read, the loop ends, and no
  other watch point changes. The condition is that a \<^verbatim>\<open>NUL\<close> follows each name somewhere in the
  buffer; of a name that contains one itself, only the part before it is reported.
\<close>

theorem win_events_in_order:
  assumes "jni_ok api" and obj: "objects s a = Some obj" and listening: "status obj = WIN_LISTENING"
    and "\<not> win_shouldTerminate s" and "in_place api obj"
    and again: "\<And>w. fst (readDirectoryChanges api (directoryHandle obj) a WIN_EVENT_MASK w)"
    and records: "rs \<noteq> []" "\<forall>r\<in>set rs. record_ok r" "names_end rs rest"
      "length (encode_records rs) < 2 ^ 31" and "0 < n"
  shows "\<exists>s'. handleEventsInBuffer api a ERROR_SUCCESS n (encode_records rs @ rest) s = (Inr (), s') \<and>
    reports s' = reports s @ concat (map (win_report (registeredPath obj)) (decode_records rs)) \<and>
    objects s' = objects s \<and> useAfterFree s' = useAfterFree s \<and> lost s' = lost s"
proof -
  let ?buf = "encode_records rs @ rest"
  let ?obj = "obj\<lparr>status := WIN_NOT_LISTENING\<rparr>"
  define s1 where "s1 = s\<lparr>objects := (objects s)(a \<mapsto> ?obj)\<rparr>"
  have obj1: "objects s1 a = Some ?obj" by (simp add: s1_def)
  have place: "in_place api ?obj" using assms(5) by (simp add: in_place_def)
  obtain s2 where s2: "resolveFinalPath api (directoryHandle ?obj) s1 = (Inr (Some (registeredFinalPath ?obj)), s2)"
    "same_server s2 s1" "reports s2 = reports s1"
    using resolveFinalPath_in_place [OF place] .
  have term2: "\<not> win_shouldTerminate s2"
    using same_server_win [OF s2(2)] assms(4) by (simp add: s1_def)
  obtain s3 where s3: "forE (decode_records rs) (handleEvent_win api (registeredPath ?obj)) s2 = (Inr (), s3)"
    "same_server s3 s2"
    "reports s3 = reports s2 @ concat (map (win_report (registeredPath ?obj)) (decode_records rs))"
    using handleEvents_loop_run [OF assms(1)] by blast
  have "same_server s3 s1" using s3(2) s2(2) by (rule same_server_trans)
  note fields3 = same_server_win [OF this]
  have obj3: "objects s3 a = Some ?obj" using fields3 obj1 by simp
  have again3: "fst (readDirectoryChanges api (directoryHandle ?obj) a WIN_EVENT_MASK w)" for w
    using again [of w] by simp
  obtain s4 where s4: "listen api a s3 = (Inr LISTEN_SUCCESS, s4)" "reports s4 = reports s3"
    "same_server s4 (s3\<lparr>objects := (objects s3)(a \<mapsto> ?obj\<lparr>status := WIN_LISTENING\<rparr>)\<rparr>)"
    by (rule listen_success_run [OF obj3 again3])
  have body: "handleEventsBody api a ERROR_SUCCESS ?buf n s1 = (Inr (), s4)"
    using s2(1) s3(1) s4(1) term2 \<open>0 < n\<close> handleRecords_encoded [OF records, of api]
    by (simp add: handleEventsBody_def deref_live [OF obj1] run_bindE run_thenE run_getE run_ret
        listenAgain_def)
  have "handleEventsInBuffer api a ERROR_SUCCESS n ?buf s = (Inr (), s4)"
    using listening body
    by (simp add: handleEventsInBuffer_def run_deref_live [OF obj] run_thenE set_status_run [OF obj]
        handleEvents_win_def getThreadEnv_ok [OF assms(1)] run_tryE win_errors s1_def)
  moreover have "reports s4 = reports s @ concat (map (win_report (registeredPath obj)) (decode_records rs))"
    using s4(2) s3(3) s2(3) by (simp add: s1_def reports_def)
  moreover have "objects s4 = objects s"
    using same_server_win(1) [OF s4(3)] fields3 obj listening by (simp add: s1_def fun_upd_idem)
  moreover have "useAfterFree s4 = useAfterFree s" "lost s4 = lost s"
    using same_server_win(9,10) [OF s4(3)] fields3 by (simp_all add: s1_def)
  ultimately show ?thesis by blast
qed


theorem win_events_in_order_witness:
  "\<exists>s'. handleEventsInBuffer quiet_win 0 ERROR_SUCCESS 86 (encode_records
      [\<lparr>rec_action = FILE_ACTION_ADDED, rec_attributes = 0, rec_name = [0x61],
        rec_times = replicate 48 (CHR ''t''), rec_ids = replicate 20 (CHR ''i''), rec_padding = []\<rparr>] @ [CHR 0x00, CHR 0x00])
      (one_watched [0x43, COLON]) = (Inr (), s') \<and>
    reports s' = [ReportChangeEvent 0 [0x43, COLON, BACKSLASH, 0x61]]"
proof -
  let ?r = "\<lparr>rec_action = FILE_ACTION_ADDED, rec_attributes = 0, rec_name = [0x61],
        rec_times = replicate 48 (CHR ''t''), rec_ids = replicate 20 (CHR ''i''), rec_padding = []\<rparr>"
  let ?obj = "\<lparr>registeredPath = [0x43, COLON], directoryHandle = 7,
       registeredFinalPath = [0x43, COLON], status = WIN_LISTENING\<rparr>"
  let ?s = "one_watched [0x43, COLON]"
  have "record_ok ?r" by (simp add: record_ok_def record_size_def FILE_INFO_SIZE_def)
  moreover have "objects ?s 0 = Some ?obj" "\<not> win_shouldTerminate ?s"
    by (simp_all add: one_watched_def init_win_server_def)
  moreover have "in_place quiet_win ?obj" by (simp add: in_place_def PATH_BUFFER_SIZE_def)
  ultimately obtain s' where "handleEventsInBuffer quiet_win 0 ERROR_SUCCESS 86 (encode_records [?r] @ [CHR 0x00, CHR 0x00]) ?s =
      (Inr (), s')"
    "reports s' = reports ?s @ concat (map (win_report (registeredPath ?obj)) (decode_records [?r]))"
    using win_events_in_order [OF quiet_win_ok, of ?s 0 ?obj "[?r]" "[CHR 0x00, CHR 0x00]" 86]
    by (auto simp: record_size_def FILE_INFO_SIZE_def length_encode_record)
  moreover have "reports ?s = []" by (simp add: one_watched_def init_win_server_def reports_def)
  ultimately show ?thesis
    by (simp add: win_report_def decode_record_def win_actions)
qed

lemma lost_steady: "steady_op m \<Longrightarrow> lost s \<Longrightarrow> lost (snd (m s))"
  using steady_opD [of m s] by (simp add: steady_def)

lemma steady_listenAgain: "steady_op (listenAgain api a path)"
  unfolding listenAgain_def by (intro steady_rules)

lemma steady_reportFailure: "steady_op (reportFailure api ex)"
  by (intro steady_framed framed_reports)

text \<open>
  C21: Where no \<^verbatim>\<open>NUL\<close> follows one of the names, the loop reads beyond the end of the read buffer:
  the names in the records of Windows are not terminated, but \<^verbatim>\<open>wstring(FileName, 0, n)\<close> looks for the
  end of the string before it cuts it to its length.
\<close>

theorem win_unterminated_name:
  assumes jni: "jni_ok api" and obj: "objects s a = Some obj" and listening: "status obj = WIN_LISTENING"
    and "\<not> win_shouldTerminate s" and "in_place api obj"
    and records: "\<forall>r\<in>set rs. record_ok r" "\<not> names_end rs rest"
      "length (encode_records rs) < 2 ^ 31" and "0 < n"
  shows "lost (snd (handleEventsInBuffer api a ERROR_SUCCESS n (encode_records rs @ rest) s))"
proof -
  let ?buf = "encode_records rs @ rest"
  let ?obj = "obj\<lparr>status := WIN_NOT_LISTENING\<rparr>"
  define s1 where "s1 = s\<lparr>objects := (objects s)(a \<mapsto> ?obj)\<rparr>"
  have obj1: "objects s1 a = Some ?obj" by (simp add: s1_def)
  have place: "in_place api ?obj" using assms(5) by (simp add: in_place_def)
  obtain s2 where s2: "resolveFinalPath api (directoryHandle ?obj) s1 = (Inr (Some (registeredFinalPath ?obj)), s2)"
    "same_server s2 s1"
    using resolveFinalPath_in_place [OF place] by blast
  have term2: "\<not> win_shouldTerminate s2"
    using same_server_win [OF s2(2)] assms(4) by (simp add: s1_def)
  have "\<exists>s'. handleEvent_win api path info s = (Inr (), s')" for path info s
    using handleEvent_win_run [OF jni] by metis
  then have "lost (snd (handleRecords api (registeredPath obj) ?buf s2))"
    using handleRecords_unended [OF records] by blast
  then have lost: "lost (snd (thenE (handleRecords api (registeredPath obj) ?buf)
      (listenAgain api a (registeredPath obj)) s2))"
    by (cases "handleRecords api (registeredPath obj) ?buf s2"; cases "fst (handleRecords api (registeredPath obj) ?buf s2)")
      (simp_all add: run_thenE lost_steady [OF steady_listenAgain])
  have "handleEventsBody api a ERROR_SUCCESS ?buf n s1 =
      thenE (handleRecords api (registeredPath obj) ?buf) (listenAgain api a (registeredPath obj)) s2"
    using s2(1) term2 \<open>0 < n\<close> by (simp add: handleEventsBody_def deref_live [OF obj1] run_bindE run_getE run_thenE)
  with lost have "lost (snd (handleEventsBody api a ERROR_SUCCESS ?buf n s1))" by simp
  then show ?thesis
    using listening
    by (cases "handleEventsBody api a ERROR_SUCCESS ?buf n s1"; cases "fst (handleEventsBody api a ERROR_SUCCESS ?buf n s1)")
      (simp_all add: handleEventsInBuffer_def run_deref_live [OF obj] run_thenE set_status_run [OF obj]
        handleEvents_win_def getThreadEnv_ok [OF jni] run_tryE win_errors s1_def
        lost_steady [OF steady_reportFailure])
qed

text \<open>A buffer that is full of names.\<close>

theorem win_unterminated_name_witness:
  "lost (snd (handleEventsInBuffer quiet_win 0 ERROR_SUCCESS 86 (encode_records
      [\<lparr>rec_action = FILE_ACTION_ADDED, rec_attributes = 0, rec_name = [0x61],
        rec_times = replicate 48 (CHR ''t''), rec_ids = replicate 20 (CHR ''i''), rec_padding = []\<rparr>])
      (one_watched [0x43, COLON])))"
proof -
  let ?r = "\<lparr>rec_action = FILE_ACTION_ADDED, rec_attributes = 0, rec_name = [0x61],
        rec_times = replicate 48 (CHR ''t''), rec_ids = replicate 20 (CHR ''i''), rec_padding = []\<rparr>"
  let ?obj = "\<lparr>registeredPath = [0x43, COLON], directoryHandle = 7,
       registeredFinalPath = [0x43, COLON], status = WIN_LISTENING\<rparr>"
  let ?s = "one_watched [0x43, COLON]"
  have ok: "record_ok ?r" by (simp add: record_ok_def record_size_def FILE_INFO_SIZE_def)
  have "objects ?s 0 = Some ?obj" "\<not> win_shouldTerminate ?s"
    by (simp_all add: one_watched_def init_win_server_def)
  moreover have "in_place quiet_win ?obj" by (simp add: in_place_def PATH_BUFFER_SIZE_def)
  moreover have "length (encode_records [?r]) < 2 ^ 31"
    by (simp add: length_encode_record [OF ok] record_size_def FILE_INFO_SIZE_def)
  ultimately show ?thesis
    using win_unterminated_name [OF quiet_win_ok, of ?s 0 ?obj "[?r]" "[]" 86] ok by simp
qed

section \<open>When the loop over the records ends\<close>

text \<open>
  C40: The loop over the records of a read buffer ends when every offset it meets points forward, as
  those of Windows do, whatever else the buffer holds; an offset that leads back to a record handled
  before, which the wrap-around of the index allows, makes it go round for ever.
\<close>

theorem record_loop_ends:
  shows "((\<forall>j k. (follows buf)\<^sup>*\<^sup>* i j \<longrightarrow> follows buf j k \<longrightarrow> 0 < sint (k - j)) \<longrightarrow>
      (\<exists>r. handleRecordsFrom api path buf i s = Some r)) \<and>
    (jni_ok api \<longrightarrow> (follows buf)\<^sup>+\<^sup>+ i i \<longrightarrow> handleRecordsFrom api path buf i s = None)"
proof (intro conjI impI)
  assume "\<forall>j k. (follows buf)\<^sup>*\<^sup>* i j \<longrightarrow> follows buf j k \<longrightarrow> 0 < sint (k - j)"
  then show "\<exists>r. handleRecordsFrom api path buf i s = Some r" by (blast intro: forward_loop_ends)
next
  assume jni: "jni_ok api" and cycle: "(follows buf)\<^sup>+\<^sup>+ i i"
  have "\<exists>s'. handleEvent_win api path info s = (Inr (), s')" for info s
    using handleEvent_win_run [OF jni] by metis
  from cyclic_loop_never_ends [OF this cycle] show "handleRecordsFrom api path buf i s = None" .
qed

text \<open>Two records, the second of which points back to the first.\<close>

theorem record_loop_ends_witness:
  "let r = \<lparr>rec_action = 1, rec_attributes = 0, rec_name = [], rec_times = replicate 48 (CHR ''t''),
      rec_ids = replicate 20 (CHR ''i''), rec_padding = replicate 16 (CHR 0x00)\<rparr>;
     s = one_watched [0x43, COLON]
   in (\<exists>q. handleRecordsFrom quiet_win [] (encode_record 100 r @ encode_record 0 r) 0 s = Some q) \<and>
     handleRecordsFrom quiet_win [] (encode_record 100 r @ encode_record (- 100) r) 0 s = None"
proof -
  let ?r = "\<lparr>rec_action = 1, rec_attributes = 0, rec_name = [], rec_times = replicate 48 (CHR ''t''),
      rec_ids = replicate 20 (CHR ''i''), rec_padding = replicate 16 (CHR 0x00)\<rparr>"
  have ok: "record_ok ?r" by (simp add: record_ok_def record_size_def FILE_INFO_SIZE_def)
  have nul: "0 \<in> set (rec_name ?r @ read_u16s (rec_padding ?r @ post))" for post
    by (simp add: numeral_eq_Suc)
  have len: "length (encode_record x ?r) = 100" for x
    by (simp add: length_encode_record [OF ok] record_size_def FILE_INFO_SIZE_def)
  have first: "record_at (encode_record x ?r @ post) 0 = Some (decode_record x ?r)" for x post
    using info_at_encoded [OF ok, of "[]" 0 x post] nul [of post] by (simp add: record_at_def)
  have second: "record_at (encode_record x ?r @ encode_record y ?r) 100 = Some (decode_record y ?r)" for x y
    using info_at_encoded [OF ok len, of x y "[]"] nul [of "[]"] by (simp add: record_at_def)
  let ?ends = "encode_record 100 ?r @ encode_record 0 ?r"
  let ?cycle = "encode_record 100 ?r @ encode_record (- 100) ?r"
  have start: "follows ?ends 0 k \<longleftrightarrow> k = 100" for k
    by (auto simp: follows_iff first decode_record_def)
  have stop: "\<not> follows ?ends 100 k" for k
    by (auto simp: follows_iff second decode_record_def)
  have visited: "j = 0 \<or> j = 100" if "(follows ?ends)\<^sup>*\<^sup>* 0 j" for j
    using that by (induction rule: rtranclp_induct) (use start stop in auto)
  have "\<forall>j k. (follows ?ends)\<^sup>*\<^sup>* 0 j \<longrightarrow> follows ?ends j k \<longrightarrow> 0 < sint (k - j)"
  proof (intro allI impI)
    fix j k assume "(follows ?ends)\<^sup>*\<^sup>* 0 j" "follows ?ends j k"
    then have "j = 0" "k = 100" using visited [of j] start stop by auto
    then show "0 < sint (k - j)" by simp
  qed
  moreover have "follows ?cycle 0 (0 + 100)" "follows ?cycle 100 (100 + - 100)"
    using follows.next_record [OF first [of 100 "encode_record (- 100) ?r"]]
      follows.next_record [OF second [of 100 "- 100"]]
    by (simp_all add: decode_record_def)
  then have "(follows ?cycle)\<^sup>+\<^sup>+ 0 0"
    by (simp add: tranclp.trancl_into_trancl [OF tranclp.r_into_trancl])
  ultimately show ?thesis
    using record_loop_ends [of ?ends 0 quiet_win "[]" "one_watched [0x43, COLON]"]
      record_loop_ends [of ?cycle 0 quiet_win "[]" "one_watched [0x43, COLON]"] quiet_win_ok
    by (simp add: Let_def)
qed

section \<open>The life of a watch point\<close>

lemma completion_ignored:
  assumes jni: "jni_ok api" and obj: "objects s a = Some obj"
    and "errorCode = ERROR_OPERATION_ABORTED \<or> status obj \<noteq> WIN_LISTENING"
  shows "\<exists>s'. handleEventsInBuffer api a errorCode n buf s = (Inr (), s') \<and> reports s' = reports s \<and>
    (if errorCode = ERROR_OPERATION_ABORTED \<and> status obj \<noteq> WIN_FINISHED
     then objects s' = (objects s)(a \<mapsto> obj\<lparr>status := WIN_FINISHED\<rparr>) \<and>
       handleCalls s' = handleCalls s @ [Closed (directoryHandle obj)]
     else objects s' = objects s \<and> handleCalls s' = handleCalls s)"
proof (cases "errorCode = ERROR_OPERATION_ABORTED")
  case True
  let ?log = "''Finished watching '%s', status = %d''"
  let ?args = "[Str (wideToUtf8String api (registeredPath obj)), Dec (win_status_value (status obj))]"
  obtain s1 where s1: "thenE (logToJava api TRACE_LEVEL ?log ?args) (close_win api a) s = close_win api a s1"
    "same_server s1 s" "reports s1 = reports s"
    by (rule then_log [OF jni])
  have obj1: "objects s1 a = Some obj" using same_server_win [OF s1(2)] obj by simp
  obtain s2 where s2: "close_win api a s1 = (Inr (), s2)" "reports s2 = reports s1"
    "same_server s2 (if status obj = WIN_FINISHED then s1 else close_point a obj s1)"
    by (rule close_win_run [OF jni obj1])
  have "handleEventsInBuffer api a errorCode n buf s = (Inr (), s2)"
    using True s1(1) s2(1) by (simp add: handleEventsInBuffer_def run_deref_live [OF obj])
  with True s2(2) s1(3) same_server_win [OF s1(2)] same_server_win [OF s2(3)] show ?thesis
    by (auto simp: close_point_def)
next
  case False
  with assms(3) show ?thesis
    by (simp add: handleEventsInBuffer_def run_deref_live [OF obj] logToJava_ok [OF jni] same_server_win)
qed


text \<open>
  C11: A watch point that is not listening reports nothing any more, whatever completion still
  arrives for it: an abort closes its handle, exactly if it was not closed before, and every other
  completion changes nothing; an aborted read of a listening watch point closes it without a report.
\<close>

theorem win_completion_ignored:
  assumes jni: "jni_ok api" and obj: "objects s a = Some obj"
    and "errorCode = ERROR_OPERATION_ABORTED \<or> status obj \<noteq> WIN_LISTENING"
  shows "\<exists>s'. handleEventsInBuffer api a errorCode n buf s = (Inr (), s') \<and> reports s' = reports s \<and>
    (if errorCode = ERROR_OPERATION_ABORTED \<and> status obj \<noteq> WIN_FINISHED
     then objects s' = (objects s)(a \<mapsto> obj\<lparr>status := WIN_FINISHED\<rparr>) \<and>
       handleCalls s' = handleCalls s @ [Closed (directoryHandle obj)]
     else objects s' = objects s \<and> handleCalls s' = handleCalls s)"
  using assms by (rule completion_ignored)

theorem win_completion_ignored_witness:
  "\<exists>s'. handleEventsInBuffer quiet_win 0 ERROR_OPERATION_ABORTED 0 [] (one_watched [0x43, COLON]) =
      (Inr (), s') \<and> reports s' = [] \<and> handleCalls s' = [Opened 7, Closed 7]"
proof -
  let ?s = "one_watched [0x43, COLON]"
  have "objects ?s 0 = Some \<lparr>registeredPath = [0x43, COLON], directoryHandle = 7,
       registeredFinalPath = [0x43, COLON], status = WIN_LISTENING\<rparr>"
    by (simp add: one_watched_def)
  moreover have "reports ?s = []" "handleCalls ?s = [Opened 7]"
    by (simp_all add: one_watched_def init_win_server_def reports_def)
  ultimately show ?thesis
    using win_completion_ignored [OF quiet_win_ok, of ?s 0 _ ERROR_OPERATION_ABORTED 0 "[]"] by fastforce
qed

lemma reportWatchPointDeleted_run:
  assumes jni: "jni_ok api" and obj: "objects s a = Some obj" and "status obj \<noteq> WIN_FINISHED"
  obtains s' where "reportWatchPointDeleted api a s = (Inr (), s')"
    "same_server s' (close_point a obj s)"
    "reports s' = reports s @ [ReportChangeEvent (change_type_value REMOVED) (registeredPath obj)]"
proof -
  let ?s = "after_call api (ReportChangeEvent (change_type_value REMOVED) (registeredPath obj)) s"
  have same: "same_server ?s s" by simp
  have obj1: "objects ?s a = Some obj" using same_server_win [OF same] obj by simp
  obtain s' where s': "close_win api a ?s = (Inr (), s')" "reports s' = reports ?s"
    "same_server s' (if status obj = WIN_FINISHED then ?s else close_point a obj ?s)"
    by (rule close_win_run [OF jni obj1])
  then have closed: "same_server s' (close_point a obj ?s)" using assms(3) by simp
  have run: "reportWatchPointDeleted api a s = (Inr (), s')"
    using s'(1) obj by (simp add: reportWatchPointDeleted_def run_thenE getThreadEnv_ok [OF jni]
        run_deref_live [OF obj] reportChangeEvent_run del: change_type_value.simps)
  have "same_server (close_point a obj ?s) (close_point a obj s)"
    by (cases s) (simp add: close_point_def after_call_def same_server_def)
  from same_server_trans [OF closed this] run s'(2) show thesis
    by (intro that) (simp_all del: change_type_value.simps)
qed

text \<open>The handle leads elsewhere now, or nowhere.\<close>

definition moved_away :: "'w win_api \<Rightarrow> win_watch_point \<Rightarrow> bool" where
  "moved_away api obj \<longleftrightarrow>
     (\<forall>w. case fst (getFinalPathName api (directoryHandle obj) PATH_BUFFER_SIZE w) of (n, p) \<Rightarrow>
        n = 0 \<or> n > PATH_BUFFER_SIZE \<or> take n p \<noteq> registeredFinalPath obj)"

lemma resolveFinalPath_moved:
  assumes "jni_ok api" "moved_away api obj"
  obtains r s' where "resolveFinalPath api (directoryHandle obj) s = (Inr r, s')"
    "r \<noteq> Some (registeredFinalPath obj)" "same_server s' s" "reports s' = reports s"
proof -
  let ?r = "resolveFinalPath api (directoryHandle obj) s"
  have "\<exists>x. fst ?r = Inr x \<and> x \<noteq> Some (registeredFinalPath obj)"
    using assms(2) by (auto simp: resolveFinalPath_def run_bindE syscall_win_def run_ret run_thenE
        logToJava_ok [OF assms(1)] getLastError_def run_getE moved_away_def split: prod.splits
        dest: spec [of _ "world s"])
  then show thesis
    using that [of _ "snd ?r"] silentD [OF silent_resolveFinalPath] by (metis prod.collapse)
qed

text \<open>
  C34: When the watched directory is gone (access to it is denied and it is no directory any more) or
  its handle leads to another path (the directory was moved), the next completion reports the
  removal of the registered path, once, instead of the events in the buffer, and closes the watch
  point.
\<close>

theorem win_gone_reported_once:
  assumes jni: "jni_ok api" and obj: "objects s a = Some obj" and "status obj = WIN_LISTENING"
    and gone: "errorCode = ERROR_ACCESS_DENIED \<and>
        (\<forall>w. fst (getFileAttributes api (registeredPath obj) w) = INVALID_FILE_ATTRIBUTES) \<or>
      errorCode = ERROR_SUCCESS \<and> moved_away api obj"
  shows "\<exists>s'. handleEventsInBuffer api a errorCode n buf s = (Inr (), s') \<and>
    reports s' = reports s @ [ReportChangeEvent (change_type_value REMOVED) (registeredPath obj)] \<and>
    objects s' = (objects s)(a \<mapsto> obj\<lparr>status := WIN_FINISHED\<rparr>) \<and>
    handleCalls s' = handleCalls s @ [Closed (directoryHandle obj)]"
proof -
  let ?obj = "obj\<lparr>status := WIN_NOT_LISTENING\<rparr>"
  define s1 where "s1 = s\<lparr>objects := (objects s)(a \<mapsto> ?obj)\<rparr>"
  have obj1: "objects s1 a = Some ?obj" by (simp add: s1_def)
  have start: "handleEventsInBuffer api a errorCode n buf s =
      tryE (handleEventsBody api a errorCode buf n) (\<lambda>ex. reportFailure api ex) s1"
    using assms(3) gone by (auto simp: handleEventsInBuffer_def run_deref_live [OF obj] run_thenE
        set_status_run [OF obj] handleEvents_win_def getThreadEnv_ok [OF jni] win_errors s1_def)
  obtain s2 where s2: "same_server s2 s1" "reports s2 = reports s1"
    "handleEventsBody api a errorCode buf n s1 = reportWatchPointDeleted api a s2"
  proof (cases "errorCode = ERROR_SUCCESS")
    case True
    then have "moved_away api ?obj" using gone by (simp add: win_errors moved_away_def)
    with jni obtain r s' where "resolveFinalPath api (directoryHandle ?obj) s1 = (Inr r, s')"
      "r \<noteq> Some (registeredFinalPath ?obj)" "same_server s' s1" "reports s' = reports s1"
      using resolveFinalPath_moved by blast
    with True show thesis
      by (intro that [of s']) (simp_all add: handleEventsBody_def deref_live [OF obj1] run_bindE)
  next
    case False
    let ?s2 = "s1\<lparr>world := snd (getFileAttributes api (registeredPath obj) (world s1))\<rparr>"
    have "isValidDirectory api a s1 = (Inr False, ?s2)"
      using False gone by (simp add: isValidDirectory_def deref_live [OF obj1] run_bindE
          syscall_win_def run_ret win_errors)
    with False gone show thesis
      by (intro that [of ?s2])
        (simp_all add: handleEventsBody_def deref_live [OF obj1] run_bindE run_ret same_server_def
          reports_def win_errors)
  qed
  have obj2: "objects s2 a = Some ?obj" using same_server_win [OF s2(1)] obj1 by simp
  obtain s3 where s3: "reportWatchPointDeleted api a s2 = (Inr (), s3)"
    "same_server s3 (close_point a ?obj s2)"
    "reports s3 = reports s2 @ [ReportChangeEvent (change_type_value REMOVED) (registeredPath ?obj)]"
    by (rule reportWatchPointDeleted_run [OF jni obj2]) simp
  have "handleEventsInBuffer api a errorCode n buf s = (Inr (), s3)"
    by (simp add: start run_tryE s2(3) s3(1))
  then show ?thesis
    using s3(2,3) s2(2) same_server_win [OF s3(2)] same_server_win [OF s2(1)]
    by (simp add: close_point_def s1_def reports_def)
qed


lemma jni_ok_win [simp]:
  "jni_ok (quiet_win\<lparr>getFinalPathName := f\<rparr>)" "jni_ok (quiet_win\<lparr>sleepInfinite := g\<rparr>)"
  using quiet_win_ok by (simp_all add: jni_ok_def)

theorem win_gone_reported_once_witness:
  "\<exists>s'. handleEventsInBuffer (quiet_win\<lparr>getFinalPathName := \<lambda>_ _ w. ((2, [0x44, COLON]), w)\<rparr>) 0
      ERROR_SUCCESS 86 [] (one_watched [0x43, COLON]) = (Inr (), s') \<and>
    reports s' = [ReportChangeEvent 1 [0x43, COLON]] \<and> handleCalls s' = [Opened 7, Closed 7]"
proof -
  let ?api = "quiet_win\<lparr>getFinalPathName := \<lambda>_ _ w. ((2, [0x44, COLON]), w)\<rparr>"
  let ?s = "one_watched [0x43, COLON]"
  let ?obj = "\<lparr>registeredPath = [0x43, COLON], directoryHandle = 7,
       registeredFinalPath = [0x43, COLON], status = WIN_LISTENING\<rparr>"
  have obj: "objects ?s 0 = Some ?obj" by (simp add: one_watched_def)
  have "moved_away ?api ?obj" by (simp add: moved_away_def)
  moreover have "reports ?s = []" "handleCalls ?s = [Opened 7]"
    by (simp_all add: one_watched_def init_win_server_def reports_def)
  ultimately show ?thesis
    using win_gone_reported_once [OF _ obj, of ?api ERROR_SUCCESS 86 "[]"] by auto
qed

text \<open>
  C37: Any other error of a read is reported as a failure, but the watch point stays in the table as one
  that is neither listening nor finished: its handle stays open, nothing is reported for the path
  any more, and registering the path again is refused because it is being watched already.
\<close>

theorem win_failed_read_sticks:
  assumes jni: "jni_ok api" and obj: "objects s a = Some obj" and "status obj = WIN_LISTENING"
    and table: "win_watchPoints s (registeredPath obj) = Some a"
    and err: "errorCode \<notin> {ERROR_SUCCESS, ERROR_ACCESS_DENIED, ERROR_OPERATION_ABORTED}"
    and msg: "utf8ToUtf16String (what api (FileWatcherException_path_code
      ''Error received when handling events'' (registeredPath obj) errorCode)) = Inr msg"
  shows "\<exists>s'. handleEventsInBuffer api a errorCode n buf s = (Inr (), s') \<and>
    reports s' = reports s @ [ReportFailure msg] \<and>
    objects s' a = Some (obj\<lparr>status := WIN_NOT_LISTENING\<rparr>) \<and> handleCalls s' = handleCalls s \<and>
    registerPath_win api nested (registeredPath obj) s' =
      (Inl (FileWatcherException_path ''Already watching path'' (registeredPath obj)), s')"
proof -
  let ?obj = "obj\<lparr>status := WIN_NOT_LISTENING\<rparr>"
  define s1 where "s1 = s\<lparr>objects := (objects s)(a \<mapsto> ?obj)\<rparr>"
  define s2 where "s2 = after_call api (ReportFailure msg) s1"
  have obj1: "objects s1 a = Some ?obj" by (simp add: s1_def)
  have "handleEventsBody api a errorCode buf n s1 = (Inl (FileWatcherException_path_code
      ''Error received when handling events'' (registeredPath obj) errorCode), s1)"
    using err by (simp add: handleEventsBody_def deref_live [OF obj1] run_bindE run_ret run_raise)
  then have "handleEvents_win api a errorCode buf n s1 = (Inr (), s2)"
    by (simp add: handleEvents_win_def run_thenE getThreadEnv_ok [OF jni] run_tryE
        reportFailure_def reportFailure_message_run msg s2_def)
  then have run: "handleEventsInBuffer api a errorCode n buf s = (Inr (), s2)"
    using assms(3) err by (simp add: handleEventsInBuffer_def run_deref_live [OF obj] run_thenE
        set_status_run [OF obj] s1_def)
  have same: "same_server s2 s1" by (simp add: s2_def)
  note fields = same_server_win [OF same]
  have obj2: "objects s2 a = Some ?obj" "win_watchPoints s2 (registeredPath obj) = Some a"
    using fields obj1 table by (simp_all add: s1_def)
  have "registerPath_win api nested (registeredPath obj) s2 =
      (Inl (FileWatcherException_path ''Already watching path'' (registeredPath obj)), s2)"
    using obj2 by (simp add: registerPath_win_def clearFinished_def run_thenE run_get_bind
        run_deref_live [OF obj2(1)] run_raise)
  with run obj2 fields show ?thesis by (simp add: s1_def s2_def reports_def)
qed


theorem win_failed_read_sticks_witness:
  "\<exists>s'. handleEventsInBuffer quiet_win 0 6 0 [] (one_watched [0x43, COLON]) = (Inr (), s') \<and>
    length (reports s') = 1 \<and> handleCalls s' = [Opened 7] \<and>
    fst (registerPath_win quiet_win (ret ()) [0x43, COLON] s') =
      Inl (FileWatcherException_path ''Already watching path'' [0x43, COLON])"
proof -
  let ?s = "one_watched [0x43, COLON]"
  let ?obj = "\<lparr>registeredPath = [0x43, COLON], directoryHandle = 7,
       registeredFinalPath = [0x43, COLON], status = WIN_LISTENING\<rparr>"
  have obj: "objects ?s 0 = Some ?obj" "win_watchPoints ?s (registeredPath ?obj) = Some 0"
    "reports ?s = []" "handleCalls ?s = [Opened 7]"
    by (simp_all add: one_watched_def init_win_server_def reports_def)
  have path: "utf16ToUtf8String [0x43, COLON] = Inr ''C:''"
    by (simp add: utf16ToUtf8String_def utf16_to_bytes_def utf8_unit_def high_surrogate_def
        low_surrogate_def char_of_def bit_0)
  have what: "what quiet_win (FileWatcherException_path_code ''Error received when handling events''
      (registeredPath ?obj) 6) = ''Error received when handling events, error = 6: C:''"
    by (simp add: what_def FileWatcherException_path_code_def createMessage_path_code_def path
        to_string_def show_nat.simps digit_char_def char_of_def bit_0)
  obtain msg where "bytes_to_utf16 (what quiet_win (FileWatcherException_path_code
      ''Error received when handling events'' (registeredPath ?obj) 6)) = Some msg"
    unfolding what by (simp add: bytes_to_utf16_ascii)
  then have msg: "utf8ToUtf16String (what quiet_win (FileWatcherException_path_code
      ''Error received when handling events'' (registeredPath ?obj) 6)) = Inr msg"
    by simp
  have "status ?obj = WIN_LISTENING" "(6::int) \<notin> {ERROR_SUCCESS, ERROR_ACCESS_DENIED, ERROR_OPERATION_ABORTED}"
    by (simp_all add: win_errors)
  from win_failed_read_sticks [OF quiet_win_ok obj(1) this(1) obj(2) this(2) msg, of 0 "[]" "ret ()"]
  obtain s' where "handleEventsInBuffer quiet_win 0 6 0 [] ?s = (Inr (), s')"
    "reports s' = [ReportFailure msg]" "handleCalls s' = [Opened 7]"
    "registerPath_win quiet_win (ret ()) [0x43, COLON] s' =
      (Inl (FileWatcherException_path ''Already watching path'' [0x43, COLON]), s')"
    using obj(3,4) by auto
  then show ?thesis by (intro exI [of _ s']) simp
qed


text \<open>
  C38: A directory whose final path cannot be determined is not registered, and the constructor throws
  without closing the handle it just opened: nothing refers to the handle afterwards, so it stays
  open for good.
\<close>

theorem win_constructor_leaks_handle:
  assumes jni: "jni_ok api" and inv: "win_inv s" and new: "win_watchPoints s p = None"
    and opened: "\<And>w. fst (createFile api (convertToLongPathIfNeeded p) CREATE_SHARE CREATE_FLAGS w) = Some h"
    and unresolved: "\<And>w. fst (fst (getFinalPathName api h PATH_BUFFER_SIZE w)) = 0"
  shows "\<exists>e s'. registerPath_win api nested p s = (Inl e, s') \<and>
    handleCalls s' = handleCalls s @ [Opened h] \<and> objects s' = objects s \<and>
    win_watchPoints s' = win_watchPoints s"
proof -
  let ?a = "nextAddress s"
  let ?s0 = "alloc_point p s"
  define s1 where "s1 = ?s0\<lparr>world := snd (createFile api (convertToLongPathIfNeeded p)
      CREATE_SHARE CREATE_FLAGS (world ?s0)), handleCalls := handleCalls s @ [Opened h],
      objects := (objects ?s0)(?a := map_option (\<lambda>obj. obj\<lparr>directoryHandle := h\<rparr>) (objects ?s0 ?a))\<rparr>"
  have start: "openDirectory api ?a p ?s0 = startListening api ?a p h s1"
    by (simp add: openDirectory_def run_bindE run_thenE syscall_win_def opened run_modifyE
        update_object_def s1_def alloc_point_def)
  have none: "fst (resolveFinalPath api h s1) = Inr None"
    using unresolved by (simp add: resolveFinalPath_def run_bindE syscall_win_def run_thenE run_ret
        logToJava_ok [OF jni] getLastError_def run_getE split: prod.split)
      (metis fst_conv not_gr_zero)
  obtain s2 where s2: "resolveFinalPath api h s1 = (Inr None, s2)" "same_server s2 s1"
    using none framedD [OF framed_resolveFinalPath, of api h s1] by (metis prod.collapse)
  then obtain e where "startListening api ?a p h s1 = (Inl e, s2)"
    by (auto simp: startListening_def run_bindE getLastError_def run_getE run_raise)
  then have cons: "construct_win api p s = (Inl e, s2\<lparr>objects := (objects s2)(?a := None)\<rparr>)"
    by (simp add: construct_win_run start)
  have "objects s ?a = None" using inv by (simp add: win_inv_def)
  then have "(objects s2)(?a := None) = objects s"
    using same_server_win [OF s2(2)] by (auto simp: s1_def alloc_point_def fun_eq_iff)
  with cons same_server_win [OF s2(2)] new show ?thesis
    by (simp add: registerPath_win_def clearFinished_def run_thenE run_bindE run_getE run_ret s1_def
        alloc_point_def)
qed

theorem win_constructor_leaks_handle_witness:
  "\<exists>e s'. registerPath_win (quiet_win\<lparr>getFinalPathName := \<lambda>_ _ w. ((0, []), w)\<rparr>) (ret ()) [0x43, COLON]
      (init_win_server 0 100) = (Inl e, s') \<and>
    handleCalls s' = [Opened 7] \<and> win_watchPoints s' = Map.empty"
proof -
  let ?api = "quiet_win\<lparr>getFinalPathName := \<lambda>_ _ w. ((0, []), w)\<rparr>"
  have "win_watchPoints (init_win_server (0::nat) 100) [0x43, COLON] = None"
    "handleCalls (init_win_server (0::nat) 100) = []" "win_watchPoints (init_win_server (0::nat) 100) = Map.empty"
    by (simp_all add: init_win_server_def)
  with win_constructor_leaks_handle [of ?api "init_win_server 0 100" "[0x43, COLON]" 7 "ret ()",
      OF _ init_win_inv]
  show ?thesis by auto
qed

end
