(* ===== verification/WinCalls.thy ===== *)
theory WinCalls
  imports WinProps
begin

text \<open>
  The calls that other threads hand to the run loop, the end of the run loop, and what holds in every
  reachable state of the Windows server.
\<close>

section \<open>The work leaves the command alone\<close>

definition spares :: "nat \<Rightarrow> ('w, 'a) win_action \<Rightarrow> bool" where
  "spares c m \<longleftrightarrow> (\<forall>x. keeps (\<lambda>s :: 'w win_server. commands s c = x) m)"

lemma spares_steady: "steady_op m \<Longrightarrow> spares c m"
  unfolding spares_def by (auto intro!: steady_keeps simp: steady_def)

lemma spares_bindE: "spares c m \<Longrightarrow> (\<And>x. spares c (f x)) \<Longrightarrow> spares c (bindE m f)"
  and spares_thenE: "spares c m \<Longrightarrow> spares c n \<Longrightarrow> spares c (thenE m n)"
  and spares_tryE: "spares c m \<Longrightarrow> (\<And>e. spares c (h e)) \<Longrightarrow> spares c (tryE m h)"
  and spares_forE: "(\<And>x. spares c (g x)) \<Longrightarrow> spares c (forE xs g)"
  and spares_conjE: "(\<And>x. spares c (k x)) \<Longrightarrow> spares c (conjE xs k b)"
  by (auto simp: spares_def intro!: keeps_rules)

lemma spares_if: "spares c m \<Longrightarrow> spares c n \<Longrightarrow> spares c (if b then m else n)"
  by simp

lemma spares_option: "spares c m \<Longrightarrow> (\<And>y. spares c (f y)) \<Longrightarrow>
    spares c (case x of None \<Rightarrow> m | Some y \<Rightarrow> f y)"
  by (simp split: option.split)

lemma spares_modifyE: "(\<And>s. commands (f s) c = commands s c) \<Longrightarrow> spares c (modifyE f)"
  by (auto simp: spares_def intro!: keeps_modifyE)

lemma spares_destroy_win: "spares c nested \<Longrightarrow> spares c (destroy_win api nested a)"
  unfolding destroy_win_def free_object_def
  by (intro spares_thenE spares_tryE spares_bindE spares_steady [OF steady_cancel_win]
      spares_steady [OF steady_close_win] spares_steady [OF steady_deref] spares_steady [OF steady_lose]
      spares_steady [OF framed_of_silent(11) [THEN steady_framed]] spares_modifyE) simp_all

lemma spares_construct_win: "spares c (construct_win api path)"
  unfolding construct_win_def free_object_def
  by (intro spares_thenE spares_tryE spares_bindE spares_steady [OF steady_openDirectory]
      spares_steady [OF steady_basic(1)] spares_steady [OF steady_basic(2)]
      spares_steady [OF steady_basic(3)] spares_modifyE) simp_all

lemma spares_erase_win: "spares c nested \<Longrightarrow> spares c (erase_win api nested path a)"
  unfolding erase_win_def by (intro spares_thenE spares_destroy_win spares_modifyE) simp_all

lemma spares_emplace_win: "spares c nested \<Longrightarrow> spares c (emplace_win api nested path a)"
  unfolding emplace_win_def
  by (intro spares_bindE spares_option spares_destroy_win spares_modifyE
      spares_steady [OF steady_basic(3)]) simp_all

lemma spares_registerPath_win: "spares c nested \<Longrightarrow> spares c (registerPath_win api nested path)"
  unfolding registerPath_win_def clearFinished_def
  by (intro spares_bindE spares_thenE spares_option spares_if spares_erase_win spares_emplace_win
      spares_construct_win spares_steady [OF steady_deref] spares_steady [OF steady_basic(1)]
      spares_steady [OF steady_basic(2)] spares_steady [OF steady_basic(3)])

lemma spares_unregisterPath_win: "spares c nested \<Longrightarrow> spares c (unregisterPath_win api nested path)"
  unfolding unregisterPath_win_def
  by (intro spares_bindE spares_thenE spares_option spares_erase_win
      spares_steady [OF framed_of_silent(11) [THEN steady_framed]]
      spares_steady [OF steady_basic(1)] spares_steady [OF steady_basic(3)])

lemma spares_run_work: "spares c nested \<Longrightarrow> spares c (run_work api nested w)"
  by (cases w)
    (auto intro!: spares_thenE spares_forE spares_conjE spares_modifyE spares_registerPath_win
      spares_unregisterPath_win spares_steady [OF steady_basic(1)])

section \<open>Handing a call to the run loop\<close>

text \<open>The state in which the run loop finds the command.\<close>

definition queue_command :: "'w win_api \<Rightarrow> win_work \<Rightarrow> 'w win_server \<Rightarrow> 'w win_server" where
  "queue_command api work s =
     s\<lparr>world := snd (queueUserApc api (nextAddress s) (threadHandle s) (world s)), nextAddress := nextAddress s + 1,
       commands := (commands s)(nextAddress s \<mapsto>
         \<lparr>cmd_work = work, cmd_result = None, cmd_failure = None\<rparr>)\<rparr>"

lemma executeOnRunLoop_queued:
  assumes "\<And>w. fst (queueUserApc api (nextAddress s) (threadHandle s) w)"
  shows "executeOnRunLoop api wait_for work s =
    tryE (bindE (bindE (\<lambda>s'. case wait_for (commandTimeoutInMillis s) s' of (cv, s'') \<Rightarrow> (Inr cv, s'')) (\<lambda>cv.
       if cv = Timeout then raise (FileWatcherException ''Execution timed out'')
       else
         bindE (getE (\<lambda>s'. commands s' (nextAddress s))) (\<lambda>r.
         case r of
           None \<Rightarrow> ret (uninitializedBool api)
         | Some cmd \<Rightarrow>
             (case cmd_failure cmd of
                Some e \<Rightarrow> raise e
              | None \<Rightarrow>
                  (case cmd_result cmd of
                     Some b \<Rightarrow> ret b
                   | None \<Rightarrow> ret (uninitializedBool api))))))
         (\<lambda>r. thenE (drop_command (nextAddress s)) (ret r)))
      (\<lambda>e. thenE (drop_command (nextAddress s)) (raise e)) (queue_command api work s)"
proof -
  let ?s = "s\<lparr>nextAddress := nextAddress s + 1, commands := (commands s)(nextAddress s \<mapsto>
      \<lparr>cmd_work = work, cmd_result = None, cmd_failure = None\<rparr>)\<rparr>"
  have "?s\<lparr>world := snd (queueUserApc api (nextAddress s) (threadHandle s) (world ?s))\<rparr> = queue_command api work s"
    by (simp add: queue_command_def)
  moreover have "commandTimeoutInMillis (queue_command api work s) = commandTimeoutInMillis s"
    by (simp add: queue_command_def)
  ultimately show ?thesis
    by (simp add: executeOnRunLoop_def run_get_bind run_thenE run_modifyE executeCommand_def
        syscall_win_def assms run_tryE run_bindE run_getE del: One_nat_def)
qed


text \<open>
  C8: A call handed to the run loop is transparent: where the wait is ended by the run loop executing
  the command, \<^verbatim>\<open>executeOnRunLoop\<close> has the result, the exception and the effects that the work has
  when it is run in its place; the command itself is gone afterwards.
\<close>

theorem win_call_transparent:
  assumes queued: "\<And>w. fst (queueUserApc api (nextAddress s) (threadHandle s) w)"
    and others: "spares (nextAddress s) nested"
    and woken: "wait_for (commandTimeoutInMillis s) (queue_command api work s) =
      (NoTimeout, snd (executeInsideRunLoop api nested (nextAddress s) (queue_command api work s)))"
    and work: "run_work api nested work (queue_command api work s) = (r, s1)"
  shows "executeOnRunLoop api wait_for work s =
    (r, s1\<lparr>commands := (commands s1)(nextAddress s := None)\<rparr>)"
proof -
  let ?c = "nextAddress s"
  let ?q = "queue_command api work s"
  let ?cmd = "\<lparr>cmd_work = work, cmd_result = None, cmd_failure = None\<rparr>"
  have cmd: "commands ?q ?c = Some ?cmd" by (simp add: queue_command_def)
  have cmd1: "commands s1 ?c = Some ?cmd"
    using keepsD' [OF spares_run_work [OF others, unfolded spares_def, rule_format] cmd work] .
  define served where "served = (case r of Inl e \<Rightarrow> ?cmd\<lparr>cmd_failure := Some e\<rparr>
     | Inr b \<Rightarrow> ?cmd\<lparr>cmd_result := Some b\<rparr>)"
  have inside: "snd (executeInsideRunLoop api nested ?c ?q) = s1\<lparr>commands := (commands s1)(?c \<mapsto> served)\<rparr>"
    using cmd cmd1 work
    by (cases r) (simp_all add: executeInsideRunLoop_def run_tryE run_bindE run_getE
        update_command_def run_modifyE served_def)
  show ?thesis
    by (cases r) (simp_all add: executeOnRunLoop_queued [OF queued] run_tryE run_bindE woken inside
        served_def run_getE run_ret run_raise run_thenE drop_command_def run_modifyE)
qed

theorem win_call_transparent_witness:
  "executeOnRunLoop quiet_win
      (\<lambda>t s. (NoTimeout, snd (executeInsideRunLoop quiet_win (ret ()) 0 s)))
      ShutdownWork (init_win_server 0 100) =
    (Inr True, (init_win_server 0 100)\<lparr>nextAddress := 1, win_shouldTerminate := True\<rparr>)"
proof -
  let ?s = "init_win_server (0::nat) 100"
  let ?s1 = "(queue_command quiet_win ShutdownWork ?s)\<lparr>win_shouldTerminate := True\<rparr>"
  have "run_work quiet_win (ret ()) ShutdownWork (queue_command quiet_win ShutdownWork ?s) = (Inr True, ?s1)"
    by (simp add: run_thenE run_modifyE run_ret)
  from win_call_transparent [OF _ spares_steady [OF steady_basic(1)] _ this,
      of "\<lambda>t s. (NoTimeout, snd (executeInsideRunLoop quiet_win (ret ()) 0 s))"]
  show ?thesis by (simp add: queue_command_def init_win_server_def)
qed

text \<open>
  C36: A call whose wait ends before the run loop has executed it is not undone. At a timeout the caller
  gets an exception; at a spurious wake-up it gets a result nobody has set. In both cases nothing has
  been done yet and the call stays queued, with a pointer to the command on the stack of the caller:
  when the run loop gets to it, it uses freed memory.
\<close>

theorem win_call_left_behind:
  assumes queued: "\<And>w. fst (queueUserApc api (nextAddress s) (threadHandle s) w)"
    and woken: "wait_for (commandTimeoutInMillis s) (queue_command api work s) =
      (cv, queue_command api work s)"
  shows "\<exists>s'. executeOnRunLoop api wait_for work s =
      (if cv = Timeout then Inl (FileWatcherException ''Execution timed out'')
       else Inr (uninitializedBool api), s') \<and>
    objects s' = objects s \<and> win_watchPoints s' = win_watchPoints s \<and>
    win_shouldTerminate s' = win_shouldTerminate s \<and> useAfterFree s' = useAfterFree s \<and>
    useAfterFree (snd (run_apc api nested (RunCommand (nextAddress s)) s'))"
proof -
  let ?q = "queue_command api work s"
  let ?s' = "?q\<lparr>commands := (commands ?q)(nextAddress s := None)\<rparr>"
  have cmd: "commands ?q (nextAddress s) = Some \<lparr>cmd_work = work, cmd_result = None, cmd_failure = None\<rparr>"
    by (simp add: queue_command_def)
  have "executeOnRunLoop api wait_for work s =
      (if cv = Timeout then Inl (FileWatcherException ''Execution timed out'')
       else Inr (uninitializedBool api), ?s')"
    by (cases cv) (simp_all add: executeOnRunLoop_queued [OF queued] run_tryE run_bindE woken run_getE
        cmd run_ret run_raise run_thenE drop_command_def run_modifyE)
  moreover have "useAfterFree (snd (run_apc api nested (RunCommand (nextAddress s)) ?s'))"
    by (simp add: run_apc_def executeInsideRunLoop_def run_get_bind run_modifyE)
  ultimately show ?thesis
    by (intro exI [of _ ?s']) (simp add: queue_command_def)
qed

theorem win_call_left_behind_witness:
  "\<exists>s'. executeOnRunLoop quiet_win (\<lambda>t s. (Timeout, s)) (RegisterWork [[0x43, COLON]])
      (init_win_server 0 100) = (Inl (FileWatcherException ''Execution timed out''), s') \<and>
    win_watchPoints s' = Map.empty \<and>
    useAfterFree (snd (run_apc quiet_win (ret ()) (RunCommand 0) s'))"
  using win_call_left_behind [of quiet_win "init_win_server 0 100" "\<lambda>t s. (Timeout, s)"
      "RegisterWork [[0x43, COLON]]" Timeout "ret ()"]
  by (auto simp: init_win_server_def)

section \<open>The end of the run loop\<close>

text \<open>The watch points that are listening. Serving a completion never adds one.\<close>

definition listening_points :: "'w win_server \<Rightarrow> nat set" where
  "listening_points s = {a. \<exists>obj. objects s a = Some obj \<and> status obj = WIN_LISTENING}"

lemma listening_same: "same_server s s' \<Longrightarrow> listening_points s = listening_points s'"
  by (simp add: listening_points_def same_server_win)

lemma listening_only_at:
  assumes "only_at a m" "a \<notin> listening_points s \<Longrightarrow> a \<notin> listening_points (snd (m s))"
  shows "listening_points (snd (m s)) \<subseteq> listening_points s"
proof
  fix b assume b: "b \<in> listening_points (snd (m s))"
  show "b \<in> listening_points s"
  proof (cases "b = a")
    case True
    with b assms(2) show ?thesis by blast
  next
    case False
    from only_atD(3) [OF assms(1) this, of s] b show ?thesis by (simp add: listening_points_def)
  qed
qed

lemma listening_handleEventsInBuffer:
  assumes "jni_ok api"
  shows "listening_points (snd (handleEventsInBuffer api a errorCode n buf s)) \<subseteq> listening_points s"
proof (rule listening_only_at [OF only_handleEventsInBuffer])
  assume quiet: "a \<notin> listening_points s"
  show "a \<notin> listening_points (snd (handleEventsInBuffer api a errorCode n buf s))"
  proof (cases "objects s a")
    case None
    then show ?thesis
      using steady_opD [OF steady_handleEventsInBuffer, of api a errorCode n buf s]
      by (auto simp: steady_def listening_points_def dest: spec [of _ a])
  next
    case (Some obj)
    then have "status obj \<noteq> WIN_LISTENING" using quiet by (simp add: listening_points_def)
    with completion_ignored [OF assms Some, of errorCode n buf] Some show ?thesis
      by (auto simp: listening_points_def split: if_splits)
  qed
qed

lemma cancel_win_quiet:
  assumes "jni_ok api" and obj: "objects s a = Some obj"
  shows "a \<notin> listening_points (snd (cancel_win api a s))"
proof (cases "status obj = WIN_LISTENING")
  case False
  with obj show ?thesis by (simp add: cancel_win_def run_deref_live [OF obj] run_ret listening_points_def)
next
  case True
  obtain s1 where s1: "logToJava api TRACE_LEVEL ''Cancelling %s'' [Str (wideToUtf8String api (registeredPath obj))] s
      = (Inr (), s1)" "same_server s1 s"
    using logToJava_ok [OF assms(1)] by (metis same_server_after_call)
  obtain ok s2 where s2: "syscall_win (cancelIoEx api (directoryHandle obj) a) s1 = (Inr ok, s2)"
    by (simp add: syscall_win_def)
  then have "same_server s2 s" using s1(2) framedD [OF framed_syscall_win, of _ s1]
    by (metis same_server_trans snd_conv)
  then have obj2: "objects s2 a = Some obj" using obj by (simp add: same_server_win)
  show ?thesis
  proof (cases ok)
    case True
    then show ?thesis using s1(1) s2 obj2 \<open>status obj = WIN_LISTENING\<close>
      by (simp add: cancel_win_def deref_live [OF obj] run_thenE run_bindE set_status_run run_ret
          listening_points_def)
  next
    case False
    obtain s3 where s3: "close_win api a s2 = (Inr (), s3)" "same_server s3 (close_point a obj s2)"
      by (rule close_win_run [OF assms(1) obj2]) (use \<open>status obj = WIN_LISTENING\<close> in simp)
    have "a \<notin> listening_points s3"
      using same_server_win(1) [OF s3(2)] by (simp add: listening_points_def close_point_def)
    moreover have "listening_points (snd (cancel_win api a s)) = listening_points s3"
      using False True s1(1) s2 s3(1)
      by (simp add: cancel_win_def deref_live [OF obj] run_thenE run_bindE getLastError_def run_getE
          run_raise run_ret logToJava_ok [OF assms(1)] listening_same [of "after_call _ _ s3" s3])
    ultimately show ?thesis by simp
  qed
qed

text \<open>One entry of the loop that cancels the watch points of the table.\<close>

lemma cancelRemaining_run:
  assumes jni: "jni_ok api" and inv: "win_inv s"
  obtains s' where "cancelRemaining api p s = (Inr (), s')" "steady s' s"
    "listening_points s' \<subseteq> listening_points s - (case win_watchPoints s p of None \<Rightarrow> {} | Some a \<Rightarrow> {a})"
proof -
  let ?r = "cancelRemaining api p s"
  have steady: "steady (snd ?r) s" by (rule steady_opD [OF steady_cancelRemaining])
  have "fst ?r = Inr () \<and>
    listening_points (snd ?r) \<subseteq> listening_points s - (case win_watchPoints s p of None \<Rightarrow> {} | Some a \<Rightarrow> {a})"
  proof (cases "win_watchPoints s p")
    case None
    then show ?thesis by (simp add: cancelRemaining_def run_get_bind run_ret)
  next
    case (Some a)
    obtain obj where obj: "objects s a = Some obj" using win_inv_table [OF inv Some] by blast
    show ?thesis
    proof (cases "status obj = WIN_LISTENING")
      case False
      with Some obj show ?thesis
        by (auto simp: cancelRemaining_def run_get_bind run_deref_live [OF obj] run_ret listening_points_def)
    next
      case True
      obtain r1 s1 where s1: "cancel_win api a s = (r1, s1)" by fastforce
      have quiet: "a \<notin> listening_points s1" using cancel_win_quiet [OF jni obj] s1 by simp
      have "listening_points s1 \<subseteq> listening_points s - {a}"
        using listening_only_at [OF only_cancel_win, of a s api] quiet s1 by auto
      moreover have "fst ?r = Inr () \<and> listening_points (snd ?r) = listening_points s1"
        using True Some s1
        by (cases r1) (simp_all add: cancelRemaining_def deref_live [OF obj] run_getE run_tryE
            run_bindE run_ret logToJava_ok [OF jni] listening_same [of "after_call _ _ s1" s1])
      ultimately show ?thesis using Some by simp
    qed
  qed
  then show thesis using that [of "snd ?r"] steady by (metis prod.collapse)
qed

lemma cancelRemaining_loop:
  assumes "jni_ok api" "win_inv s"
  shows "\<exists>s'. forE ps (cancelRemaining api) s = (Inr (), s') \<and> steady s' s \<and>
    listening_points s' \<subseteq> listening_points s - {a. \<exists>p\<in>set ps. win_watchPoints s p = Some a}"
  using assms(2)
proof (induction ps arbitrary: s)
  case Nil
  then show ?case by (simp add: run_ret)
next
  case (Cons p ps)
  obtain s1 where s1: "cancelRemaining api p s = (Inr (), s1)" "steady s1 s"
    "listening_points s1 \<subseteq> listening_points s - (case win_watchPoints s p of None \<Rightarrow> {} | Some a \<Rightarrow> {a})"
    by (rule cancelRemaining_run [OF assms(1) Cons.prems])
  from Cons.IH [OF win_inv_steady [OF Cons.prems s1(2)]] obtain s2
    where s2: "forE ps (cancelRemaining api) s1 = (Inr (), s2)" "steady s2 s1"
    "listening_points s2 \<subseteq> listening_points s1 - {a. \<exists>p\<in>set ps. win_watchPoints s1 p = Some a}"
    by blast
  have "win_watchPoints s1 = win_watchPoints s" using s1(2) by (simp add: steady_def)
  with s1 s2 show ?case
    by (auto simp: run_thenE intro: steady_trans split: option.splits)
qed

text \<open>What holds from there on: the server is told to terminate and no watch point of the table is
  listening.\<close>

definition wound_down :: "(u16string \<rightharpoonup> nat) \<Rightarrow> 'w win_server \<Rightarrow> bool" where
  "wound_down table s \<longleftrightarrow> win_watchPoints s = table \<and> win_shouldTerminate s \<and>
     ran table \<inter> listening_points s = {}"

lemma wound_down_steady:
  "wound_down table s \<Longrightarrow> steady s' s \<Longrightarrow> listening_points s' \<subseteq> listening_points s \<Longrightarrow> wound_down table s'"
  by (auto simp: wound_down_def steady_def)

lemma keeps_wound_framed: "framed m \<Longrightarrow> keeps (wound_down table) m"
  by (rule framed_keeps) (auto simp: wound_down_def same_server_win dest: listening_same)

lemma keeps_wound_down_rest:
  assumes jni: "jni_ok api"
    and completions: "\<And>w call. call \<in> set (fst (sleepZero api w)) \<Longrightarrow> \<exists>a e n buf. call = Completion a e n buf"
  shows "keeps (wound_down table) (alertable (Suc depth) api)"
    and "keeps (wound_down table) (forE ps (warnUnfinished api))"
proof -
  show "keeps (wound_down table) (alertable (Suc depth) api)"
  proof (rule keepsI)
    fix s :: "'a win_server" assume wound: "wound_down table s"
    obtain calls s1 where s1: "syscall_win (sleepZero api) s = (Inr calls, s1)"
      "calls = fst (sleepZero api (world s))" by (simp add: syscall_win_def)
    have wound1: "wound_down table s1"
      using keepsD' [OF keeps_wound_framed [OF framed_syscall_win] wound s1(1)] .
    have "keeps (wound_down table) (run_apc api nested call)" if pending: "call \<in> set calls" for call nested
    proof -
      obtain a e n buf where call: "call = Completion a e n buf" using completions pending s1(2) by blast
      show ?thesis
        unfolding call run_apc_def apc.case
        by (rule keepsI, erule wound_down_steady, rule steady_opD [OF steady_handleEventsInBuffer],
            rule listening_handleEventsInBuffer [OF jni])
    qed
    then have "keeps (wound_down table) (forE calls (run_apc api (alertable depth api)))"
      by (rule keeps_forE)
    from keepsD [OF this wound1] s1(1) show "wound_down table (snd (alertable (Suc depth) api s))"
      by (simp add: run_bindE)
  qed
  have "keeps (wound_down table) (deref api a)" for a
    by (rule keepsI) (auto simp: deref_def exec_simps wound_down_def listening_points_def split: option.split)
  then show "keeps (wound_down table) (forE ps (warnUnfinished api))"
    unfolding warnUnfinished_def
    by (intro keeps_forE keeps_bindE keeps_option keeps_if) (auto intro!: keeps_rules keeps_wound_framed framed_rules)
qed

lemma finishRunLoop_winds_down:
  assumes jni: "jni_ok api" and inv: "win_inv s" and "win_shouldTerminate s"
    and order: "\<And>w. set (winIterationOrder api (dom (win_watchPoints s)) w) = dom (win_watchPoints s)"
    and completions: "\<And>w call. call \<in> set (fst (sleepZero api w)) \<Longrightarrow> \<exists>a e n buf. call = Completion a e n buf"
  shows "wound_down (win_watchPoints s) (snd (finishRunLoop depth api s))"
proof -
  let ?table = "win_watchPoints s"
  obtain s1 where s1: "same_server s1 s"
    "logToJava api TRACE_LEVEL ''Finished with run loop, now cancelling remaining watch points'' [] s = (Inr (), s1)"
    using logToJava_ok [OF jni] by (metis same_server_after_call)
  have inv1: "win_inv s1" using win_inv_steady [OF inv same_server_steady [OF s1(1)]] .
  let ?paths = "winIterationOrder api (dom (win_watchPoints s1)) (world s1)"
  obtain s2 where s2: "forE ?paths (cancelRemaining api) s1 = (Inr (), s2)" "steady s2 s1"
    "listening_points s2 \<subseteq> listening_points s1 - {a. \<exists>p\<in>set ?paths. win_watchPoints s1 p = Some a}"
    using cancelRemaining_loop [OF jni inv1] by blast
  have table: "win_watchPoints s1 = ?table" "win_shouldTerminate s1"
    using same_server_win [OF s1(1)] assms(3) by simp_all
  have "wound_down ?table s2"
    using s2(2,3) table order by (auto simp: wound_down_def steady_def ran_def)
  moreover have "keeps (wound_down ?table) (thenE (logToJava api TRACE_LEVEL
       ''Waiting for any pending watch points to abort completely'' [])
    (thenE (alertable (Suc depth) api)
    (bindE (getE (\<lambda>s. winIterationOrder api (dom (win_watchPoints s)) (world s))) (\<lambda>paths.
     thenE (forE paths (warnUnfinished api))
    (bindE (getE threadHandle) (\<lambda>h.
     bindE (syscall_win (closeHandle api (case h of Some t \<Rightarrow> t | None \<Rightarrow> 0))) (\<lambda>r.
     bindE (liftE r) (\<lambda>_. ret ()))))))))"
    by (intro keeps_thenE keeps_bindE keeps_wound_down_rest jni completions keeps_getE keeps_liftE keeps_ret
        keeps_wound_framed framed_syscall_win framed_of_silent)
  ultimately show ?thesis
    using s1(2) s2(1) keepsD by (fastforce simp: finishRunLoop_def run_thenE [of "logToJava _ _ _ _"]
        run_get_bind run_thenE [of "forE _ _"])
qed

text \<open>
  C14: Shutting down ends the run loop: when the command of \<^verbatim>\<open>shutdownRunLoop\<close> is delivered, the run loop
  stops waiting and returns, and with completions of reads as the only calls that are still pending,
  no watch point of the server is listening when it does: each was cancelled or has finished.
\<close>

theorem win_shutdown_ends_run_loop:
  assumes jni: "jni_ok api" and inv: "win_inv s"
    and wakes: "sleepInfinite api (world s) = Some ([RunCommand c], w)"
    and cmd: "commands s c = Some cmd" "cmd_work cmd = ShutdownWork"
    and order: "\<And>w. set (winIterationOrder api (dom (win_watchPoints s)) w) = dom (win_watchPoints s)"
    and completions: "\<And>w call. call \<in> set (fst (sleepZero api w)) \<Longrightarrow> \<exists>a e n buf. call = Completion a e n buf"
  shows "\<exists>r s'. runLoop_win depth api s = Some (r, s') \<and> win_shouldTerminate s' \<and>
    win_watchPoints s' = win_watchPoints s \<and>
    (\<forall>p a obj. win_watchPoints s p = Some a \<longrightarrow> objects s' a = Some obj \<longrightarrow> status obj \<noteq> WIN_LISTENING)"
proof -
  have finish: "\<exists>r s'. Some (finishRunLoop depth api t) = Some (r, s') \<and> win_shouldTerminate s' \<and>
      win_watchPoints s' = win_watchPoints s \<and>
      (\<forall>p a obj. win_watchPoints s p = Some a \<longrightarrow> objects s' a = Some obj \<longrightarrow> status obj \<noteq> WIN_LISTENING)"
    if "win_inv t" "win_shouldTerminate t" "win_watchPoints t = win_watchPoints s" for t
  proof -
    obtain r s' where fin: "finishRunLoop depth api t = (r, s')" by fastforce
    have "wound_down (win_watchPoints t) (snd (finishRunLoop depth api t))"
      by (rule finishRunLoop_winds_down [OF jni that(1,2)]) (use order completions that(3) in auto)
    with fin that(3) show ?thesis
      by (auto simp: wound_down_def listening_points_def ran_def)
  qed
  show ?thesis
  proof (cases "win_shouldTerminate s")
    case True
    then have "sleepUntilTerminated depth api s = Some (Inr (), s)"
      by (simp add: sleepUntilTerminated.simps)
    with finish [OF inv True refl] show ?thesis by (simp add: runLoop_win_def)
  next
    case False
    let ?done = "s\<lparr>world := w, win_shouldTerminate := True,
      commands := (commands s)(c \<mapsto> cmd\<lparr>cmd_result := Some True\<rparr>)\<rparr>"
    have "forE [RunCommand c] (run_apc api (alertable depth api)) (s\<lparr>world := w\<rparr>) = (Inr (), ?done)"
      using cmd by (simp add: run_apc_def executeInsideRunLoop_def update_command_def exec_simps)
    then have "sleepUntilTerminated depth api s = Some (Inr (), ?done)"
      using False wakes by (subst sleepUntilTerminated.simps)
        (simp add: sleepUntilTerminated.simps [of depth api ?done] del: forE.simps)
    moreover have "win_inv ?done"
      using inv cmd(1) by (auto simp: win_inv_def)
    ultimately show ?thesis using finish [of ?done] by (simp add: runLoop_win_def)
  qed
qed

theorem win_shutdown_ends_run_loop_witness:
  "\<exists>r s'. runLoop_win 1 (quiet_win\<lparr>sleepInfinite := \<lambda>w. Some ([RunCommand 1], w),
      winIterationOrder := \<lambda>_ _. [[0x43, COLON]]\<rparr>)
      ((one_watched [0x43, COLON])\<lparr>nextAddress := 2, commands := Map.empty(1 \<mapsto>
        \<lparr>cmd_work = ShutdownWork, cmd_result = None, cmd_failure = None\<rparr>)\<rparr>) = Some (r, s') \<and>
    win_shouldTerminate s' \<and> (\<forall>obj. objects s' 0 = Some obj \<longrightarrow> status obj \<noteq> WIN_LISTENING)"
proof -
  let ?api = "quiet_win\<lparr>sleepInfinite := \<lambda>w. Some ([RunCommand 1], w),
      winIterationOrder := \<lambda>_ _. [[0x43, COLON]]\<rparr>"
  let ?cmd = "\<lparr>cmd_work = ShutdownWork, cmd_result = None, cmd_failure = None\<rparr>"
  let ?s = "(one_watched [0x43, COLON])\<lparr>nextAddress := 2, commands := Map.empty(1 \<mapsto> ?cmd)\<rparr>"
  have jni: "jni_ok ?api" using quiet_win_ok by (simp add: jni_ok_def)
  have inv: "win_inv ?s" by (simp add: win_inv_def one_watched_def init_win_server_def)
  have table: "win_watchPoints ?s = Map.empty([0x43, COLON] \<mapsto> 0)"
    by (simp add: one_watched_def)
  have "\<exists>r s'. runLoop_win 1 ?api ?s = Some (r, s') \<and> win_shouldTerminate s' \<and>
    win_watchPoints s' = win_watchPoints ?s \<and>
    (\<forall>p a obj. win_watchPoints ?s p = Some a \<longrightarrow> objects s' a = Some obj \<longrightarrow> status obj \<noteq> WIN_LISTENING)"
    by (rule win_shutdown_ends_run_loop [OF jni inv, of 1 "world ?s" ?cmd])
      (simp_all add: one_watched_def)
  then show ?thesis unfolding table by (metis map_upd_Some_unfold)
qed

section \<open>Reachable states\<close>

text \<open>
  C5: In every reachable state, also in the middle of nested calls, given-up commands and drops of
  moved paths: the table of the server refers to live watch points only, each under the path it was
  registered with and no two paths to the same one; and as long as no freed memory was used and the
  logger does not throw, no handle has been closed more often than it was opened.
\<close>

theorem win_reachable_consistent:
  assumes "win_reachable api s"
  shows "(\<forall>p a. win_watchPoints s p = Some a \<longrightarrow>
      (\<exists>obj. objects s a = Some obj \<and> registeredPath obj = p)) \<and>
    inj_on (win_watchPoints s) (dom (win_watchPoints s)) \<and>
    (jni_ok api \<longrightarrow> \<not> useAfterFree s \<longrightarrow>
      (\<forall>h. count_list (handleCalls s) (Closed h) \<le> count_list (handleCalls s) (Opened h)))"
proof (intro conjI impI allI)
  have inv: "win_inv s" by (rule win_reachable_inv [OF assms])
  show "\<exists>obj. objects s a = Some obj \<and> registeredPath obj = p" if "win_watchPoints s p = Some a" for p a
    using win_inv_table [OF inv that] .
  show "inj_on (win_watchPoints s) (dom (win_watchPoints s))"
  proof (rule inj_onI)
    fix p q assume "p \<in> dom (win_watchPoints s)" "win_watchPoints s p = win_watchPoints s q"
    then obtain a where "win_watchPoints s p = Some a" "win_watchPoints s q = Some a" by (auto dest: sym)
    then show "p = q" using win_inv_table [OF inv, of p a] win_inv_table [OF inv, of q a] by auto
  qed
  fix h assume "jni_ok api" "\<not> useAfterFree s"
  with win_reachable_safe [OF assms]
  have "count_list (handleCalls s) (Closed h) + card (open_points s h)
      \<le> count_list (handleCalls s) (Opened h)"
    by (simp add: win_safe_def ledger_def balanced_def)
  then show "count_list (handleCalls s) (Closed h) \<le> count_list (handleCalls s) (Opened h)" by simp
qed


theorem win_reachable_consistent_witness:
  "\<exists>s obj. win_reachable quiet_win s \<and> win_watchPoints s [0x43, COLON] = Some 1 \<and>
    objects s 1 = Some obj \<and> registeredPath obj = [0x43, COLON] \<and>
    count_list (handleCalls s) (Closed 7) \<le> count_list (handleCalls s) (Opened 7)"
proof -
  let ?s0 = "init_win_server (0::nat) 100"
  let ?cmd = "\<lparr>cmd_work = RegisterWork [[0x43, COLON]], cmd_result = None, cmd_failure = None\<rparr>"
  let ?s1 = "?s0\<lparr>nextAddress := nextAddress ?s0 + 1, commands := (commands ?s0)(nextAddress ?s0 \<mapsto> ?cmd)\<rparr>"
  obtain r s2 where s2: "run_apc quiet_win (alertable 0 quiet_win) (RunCommand 0) ?s1 = (r, s2)"
    by fastforce
  have "win_reachable quiet_win ?s1"
    by (rule win_reachable.more_step [OF win_reachable.start win_step.queue])
  then have reach: "win_reachable quiet_win s2"
    by (rule win_reachable.more_step [OF _ win_step.serve [OF s2]])
  have "win_watchPoints s2 [0x43, COLON] = Some 1 \<and> \<not> useAfterFree s2"
    using s2 by (auto simp: run_apc_def executeInsideRunLoop_def init_win_server_def registerPath_win_def
        clearFinished_def construct_win_def openDirectory_def startListening_def resolveFinalPath_def
        listen_def emplace_win_def deref_def set_status_def update_object_def syscall_win_def
        update_command_def exec_simps PATH_BUFFER_SIZE_def)
  with win_reachable_consistent [OF reach] quiet_win_ok reach show ?thesis by blast
qed

end
