(* ===== verification/Services.thy ===== *)
theory Services
  imports Generic "HOL-Library.Multiset"
begin

text \<open>
  Loading and unloading the library (\<^verbatim>\<open>services.cpp\<close>): the global objects that hold references to
  Java classes. The state adds the global references that are alive and the global objects, each
  with the references it holds. The Linux build is modelled, which has all of them.
\<close>

section \<open>State\<close>

text \<open>\<open>findClass\<close>: the local reference \<^verbatim>\<open>FindClass\<close> returns, \<open>globalRef\<close>: the global reference
  \<^verbatim>\<open>NewGlobalRef\<close> makes of it; \<open>None\<close> is \<^verbatim>\<open>NULL\<close>.\<close>

record 'w services_api = "'w jni" +
  findClass :: "string \<Rightarrow> 'w \<Rightarrow> nat option \<times> 'w"
  globalRef :: "nat option \<Rightarrow> 'w \<Rightarrow> nat option \<times> 'w"

record 'w library = "'w native" +
  globalRefs :: "nat list"
  baseJniConstants :: "nat list"
  nativePlatformJniConstants :: "nat list"
  logging :: "nat list"
  linuxJniConstants :: "nat list"

type_synonym ('w, 'a) library_action = "(exn, 'w library, 'a) exec"

definition JNI_VERSION_1_6 :: int where "JNI_VERSION_1_6 = 0x10006"

section \<open>Class references\<close>

definition vm_call :: "('w \<Rightarrow> 'r \<times> 'w) \<Rightarrow> ('w, 'r) library_action" where
  "vm_call f = (\<lambda>s. (Inr (fst (f (world s))), s\<lparr>world := snd (f (world s))\<rparr>))"

definition construct_JClass :: "'w services_api \<Rightarrow> string \<Rightarrow> ('w, nat) library_action" where
  "construct_JClass api className =
     thenE (getThreadEnv api)
    (bindE (vm_call (findClass api className)) (\<lambda>object.
     thenE (getJavaVm api)
    (bindE (vm_call (globalRef api object)) (\<lambda>r.
     case r of
       None \<Rightarrow> raise (RuntimeError ''Failed to create global JNI reference'')
     | Some ref \<Rightarrow> thenE (modifyE (\<lambda>s. s\<lparr>globalRefs := globalRefs s @ [ref]\<rparr>)) (ret ref)))))"

definition destroy_JClass :: "'w services_api \<Rightarrow> nat \<Rightarrow> ('w, unit) library_action" where
  "destroy_JClass api ref =
     thenE (getThreadEnv api) (modifyE (\<lambda>s. s\<lparr>globalRefs := remove1 ref (globalRefs s)\<rparr>))"

text \<open>What was constructed already is destroyed when a later part of a constructor throws.\<close>

definition or_destroy :: "'w services_api \<Rightarrow> nat \<Rightarrow> ('w, 'a) library_action \<Rightarrow> ('w, 'a) library_action" where
  "or_destroy api ref m = tryE m (\<lambda>e. thenE (destroy_JClass api ref) (raise e))"

section \<open>The global objects\<close>

definition construct_BaseJniConstants :: "'w services_api \<Rightarrow> ('w, nat list) library_action" where
  "construct_BaseJniConstants api =
     bindE (construct_JClass api ''java/lang/Class'') (\<lambda>classClass. ret [classClass])"

definition construct_NativePlatformJniConstants :: "'w services_api \<Rightarrow> ('w, nat list) library_action" where
  "construct_NativePlatformJniConstants api =
     bindE (construct_JClass api NATIVE_EXCEPTION) (\<lambda>nativeExceptionClass. ret [nativeExceptionClass])"

definition construct_Logging :: "'w services_api \<Rightarrow> ('w, nat list) library_action" where
  "construct_Logging api =
     bindE (construct_JClass api ''org/gradle/fileevents/internal/NativeLogger'') (\<lambda>clsLogger.
     or_destroy api clsLogger (thenE (getThreadEnv api) (ret [clsLogger])))"

definition construct_LinuxJniConstants :: "'w services_api \<Rightarrow> ('w, nat list) library_action" where
  "construct_LinuxJniConstants api =
     bindE (construct_JClass api ''org/gradle/fileevents/internal/InotifyWatchesLimitTooLowException'') (\<lambda>watches.
     or_destroy api watches
       (bindE (construct_JClass api ''org/gradle/fileevents/internal/InotifyInstanceLimitTooLowException'')
         (\<lambda>instances. ret [watches, instances])))"

text \<open>\<^verbatim>\<open>delete\<close>: the members are destroyed in the reverse order of their construction.\<close>

definition delete_refs :: "'w services_api \<Rightarrow> nat list \<Rightarrow> ('w, unit) library_action" where
  "delete_refs api refs = forE (rev refs) (destroy_JClass api)"

section \<open>Loading and unloading\<close>

definition JNI_OnLoad :: "'w services_api \<Rightarrow> ('w, int) library_action" where
  "JNI_OnLoad api =
     bindE (construct_BaseJniConstants api) (\<lambda>base.
     thenE (modifyE (\<lambda>s. s\<lparr>baseJniConstants := base\<rparr>))
    (bindE (construct_NativePlatformJniConstants api) (\<lambda>platform.
     thenE (modifyE (\<lambda>s. s\<lparr>nativePlatformJniConstants := platform\<rparr>))
    (bindE (construct_Logging api) (\<lambda>log.
     thenE (modifyE (\<lambda>s. s\<lparr>logging := log\<rparr>))
    (bindE (construct_LinuxJniConstants api) (\<lambda>linux.
     thenE (modifyE (\<lambda>s. s\<lparr>linuxJniConstants := linux\<rparr>))
     (ret JNI_VERSION_1_6))))))))"

definition JNI_OnUnload :: "'w services_api \<Rightarrow> ('w, unit) library_action" where
  "JNI_OnUnload api =
     bindE (getE linuxJniConstants) (\<lambda>linux.
     thenE (delete_refs api linux)
    (bindE (getE logging) (\<lambda>log.
     thenE (delete_refs api log)
    (bindE (getE nativePlatformJniConstants) (\<lambda>platform.
     thenE (delete_refs api platform)
    (bindE (getE baseJniConstants) (\<lambda>base.
     delete_refs api base)))))))"

section \<open>Properties\<close>

definition attached :: "'w services_api \<Rightarrow> bool" where
  "attached api \<longleftrightarrow> (\<forall>w. getEnv api w = JNI_OK) \<and> (\<forall>w. getJavaVM api w = 0)"

lemma getThreadEnv_attached: "attached api \<Longrightarrow> getThreadEnv api s = (Inr (), s)"
  by (simp add: getThreadEnv_def exec_simps attached_def)

lemma getJavaVm_attached: "attached api \<Longrightarrow> getJavaVm api s = (Inr (), s)"
  by (simp add: getJavaVm_def exec_simps attached_def)

text \<open>A class reference is alive after its construction, and nothing else of the state of the library
  changes; a constructor that fails leaves no reference.\<close>

lemma construct_JClass_ok:
  assumes "construct_JClass api c s = (Inr ref, s')"
  shows "globalRefs s' = globalRefs s @ [ref] \<and> baseJniConstants s' = baseJniConstants s \<and>
    nativePlatformJniConstants s' = nativePlatformJniConstants s \<and> logging s' = logging s"
  using assms
  by (auto simp: construct_JClass_def run_thenE run_bindE run_ret run_raise run_modifyE vm_call_def
      getThreadEnv_def getJavaVm_def run_getE split: if_splits option.splits)

lemma or_destroy_ok:
  "or_destroy api ref m s = (Inr x, s') \<Longrightarrow> m s = (Inr x, s')"
  by (auto simp: or_destroy_def run_tryE run_thenE run_raise split: prod.splits sum.splits)

lemma construct_Logging_ok:
  assumes "construct_Logging api s = (Inr refs, s')"
  shows "globalRefs s' = globalRefs s @ refs \<and> baseJniConstants s' = baseJniConstants s \<and>
    nativePlatformJniConstants s' = nativePlatformJniConstants s"
proof -
  obtain c s1 where s1: "construct_JClass api ''org/gradle/fileevents/internal/NativeLogger'' s = (Inr c, s1)"
    and rest: "or_destroy api c (thenE (getThreadEnv api) (ret [c])) s1 = (Inr refs, s')"
    using assms by (auto simp: construct_Logging_def run_bindE split: prod.splits sum.splits)
  have "s' = s1 \<and> refs = [c]"
    using or_destroy_ok [OF rest]
    by (auto simp: run_thenE getThreadEnv_def run_bindE run_getE run_ret run_raise split: if_splits)
  with construct_JClass_ok [OF s1] show ?thesis by simp
qed

lemma construct_LinuxJniConstants_ok:
  assumes "construct_LinuxJniConstants api s = (Inr refs, s')"
  shows "globalRefs s' = globalRefs s @ refs \<and> baseJniConstants s' = baseJniConstants s \<and>
    nativePlatformJniConstants s' = nativePlatformJniConstants s \<and> logging s' = logging s"
proof -
  let ?second = "construct_JClass api ''org/gradle/fileevents/internal/InotifyInstanceLimitTooLowException''"
  obtain c s1 where s1: "construct_JClass api
      ''org/gradle/fileevents/internal/InotifyWatchesLimitTooLowException'' s = (Inr c, s1)"
    and rest: "or_destroy api c (bindE ?second (\<lambda>instances. ret [c, instances])) s1 = (Inr refs, s')"
    using assms by (auto simp: construct_LinuxJniConstants_def run_bindE split: prod.splits sum.splits)
  obtain d where s2: "?second s1 = (Inr d, s')" "refs = [c, d]"
    using or_destroy_ok [OF rest] by (auto simp: run_bindE run_ret split: prod.splits sum.splits)
  from construct_JClass_ok [OF s1] construct_JClass_ok [OF s2(1)] s2(2) show ?thesis by simp
qed

lemma destroy_JClass_run:
  "attached api \<Longrightarrow> destroy_JClass api ref s = (Inr (), s\<lparr>globalRefs := remove1 ref (globalRefs s)\<rparr>)"
  by (simp add: destroy_JClass_def run_thenE run_modifyE getThreadEnv_attached)

lemma forE_destroy:
  assumes "attached api"
  shows "forE refs (destroy_JClass api) s =
    (Inr (), s\<lparr>globalRefs := foldl (\<lambda>l r. remove1 r l) (globalRefs s) refs\<rparr>)"
  by (induction refs arbitrary: s)
    (simp_all add: run_ret run_thenE destroy_JClass_run [OF assms])


lemma mset_remove_all: "mset (foldl (\<lambda>l r. remove1 r l) l refs) = mset l - mset refs"
  by (induction refs arbitrary: l) (simp_all add: diff_diff_add_mset [symmetric])

lemma delete_refs_run:
  assumes "attached api"
  obtains s' where "delete_refs api refs s = (Inr (), s')"
    "mset (globalRefs s') = mset (globalRefs s) - mset refs" "baseJniConstants s' = baseJniConstants s"
    "nativePlatformJniConstants s' = nativePlatformJniConstants s" "logging s' = logging s"
proof
  show "delete_refs api refs s =
      (Inr (), s\<lparr>globalRefs := foldl (\<lambda>l r. remove1 r l) (globalRefs s) (rev refs)\<rparr>)"
    by (simp add: delete_refs_def forE_destroy [OF assms])
qed (simp_all add: mset_remove_all)

text \<open>What a successful load has constructed.\<close>

lemma JNI_OnLoad_ok:
  assumes "JNI_OnLoad api s = (Inr v, s')"
  shows "v = JNI_VERSION_1_6 \<and> globalRefs s' = globalRefs s @ baseJniConstants s' @
    nativePlatformJniConstants s' @ logging s' @ linuxJniConstants s'"
proof -
  obtain b s1 where s1: "construct_JClass api ''java/lang/Class'' s = (Inr b, s1)"
    and rest1: "thenE (modifyE (\<lambda>s. s\<lparr>baseJniConstants := [b]\<rparr>))
      (bindE (construct_NativePlatformJniConstants api) (\<lambda>platform.
       thenE (modifyE (\<lambda>s. s\<lparr>nativePlatformJniConstants := platform\<rparr>))
      (bindE (construct_Logging api) (\<lambda>log.
       thenE (modifyE (\<lambda>s. s\<lparr>logging := log\<rparr>))
      (bindE (construct_LinuxJniConstants api) (\<lambda>linux.
       thenE (modifyE (\<lambda>s. s\<lparr>linuxJniConstants := linux\<rparr>))
       (ret JNI_VERSION_1_6))))))) s1 = (Inr v, s')"
    using assms by (auto simp: JNI_OnLoad_def construct_BaseJniConstants_def run_bindE [of "bindE _ _"]
        run_bindE [of "construct_JClass _ _"] run_ret split: prod.splits sum.splits)
  obtain p s2 where s2: "construct_JClass api NATIVE_EXCEPTION (s1\<lparr>baseJniConstants := [b]\<rparr>) = (Inr p, s2)"
    and rest2: "thenE (modifyE (\<lambda>s. s\<lparr>nativePlatformJniConstants := [p]\<rparr>))
      (bindE (construct_Logging api) (\<lambda>log.
       thenE (modifyE (\<lambda>s. s\<lparr>logging := log\<rparr>))
      (bindE (construct_LinuxJniConstants api) (\<lambda>linux.
       thenE (modifyE (\<lambda>s. s\<lparr>linuxJniConstants := linux\<rparr>))
       (ret JNI_VERSION_1_6))))) s2 = (Inr v, s')"
    using rest1 by (auto simp: run_thenE [of "modifyE _"] run_modifyE construct_NativePlatformJniConstants_def
        run_bindE [of "bindE _ _"] run_bindE [of "construct_JClass _ _"] run_ret split: prod.splits sum.splits)
  obtain log s3 where s3: "construct_Logging api (s2\<lparr>nativePlatformJniConstants := [p]\<rparr>) = (Inr log, s3)"
    and rest3: "bindE (construct_LinuxJniConstants api) (\<lambda>linux.
       thenE (modifyE (\<lambda>s. s\<lparr>linuxJniConstants := linux\<rparr>))
       (ret JNI_VERSION_1_6)) (s3\<lparr>logging := log\<rparr>) = (Inr v, s')"
    using rest2 by (auto simp: run_thenE [of "modifyE _"] run_modifyE run_bindE [of "construct_Logging _"]
        split: prod.splits sum.splits)
  obtain linux s4 where s4: "construct_LinuxJniConstants api (s3\<lparr>logging := log\<rparr>) = (Inr linux, s4)"
    and s': "v = JNI_VERSION_1_6" "s' = s4\<lparr>linuxJniConstants := linux\<rparr>"
    using rest3 by (auto simp: run_bindE [of "construct_LinuxJniConstants _"] run_thenE run_modifyE run_ret
        split: prod.splits sum.splits)
  note log = construct_Logging_ok [OF s3] and lin = construct_LinuxJniConstants_ok [OF s4]
  show ?thesis
    using construct_JClass_ok [OF s1] construct_JClass_ok [OF s2] log lin s' by simp
qed


text \<open>
  C31: Unloading the library undoes loading it: after a load that returns (its result is the JNI version)
  and an unload on attached threads, exactly the global references are alive that were alive before,
  whichever references the virtual machine hands out.
\<close>

theorem load_unload_balanced:
  assumes "attached api" and load: "JNI_OnLoad api s = (Inr v, s1)"
  shows "v = JNI_VERSION_1_6 \<and>
    (\<exists>s2. JNI_OnUnload api s1 = (Inr (), s2) \<and> mset (globalRefs s2) = mset (globalRefs s))"
proof -
  note loaded = JNI_OnLoad_ok [OF load]
  obtain t1 where t1: "delete_refs api (linuxJniConstants s1) s1 = (Inr (), t1)"
    "mset (globalRefs t1) = mset (globalRefs s1) - mset (linuxJniConstants s1)"
    "baseJniConstants t1 = baseJniConstants s1"
    "nativePlatformJniConstants t1 = nativePlatformJniConstants s1" "logging t1 = logging s1"
    by (rule delete_refs_run [OF assms(1)])
  obtain t2 where t2: "delete_refs api (logging t1) t1 = (Inr (), t2)"
    "mset (globalRefs t2) = mset (globalRefs t1) - mset (logging t1)"
    "baseJniConstants t2 = baseJniConstants t1"
    "nativePlatformJniConstants t2 = nativePlatformJniConstants t1"
    by (rule delete_refs_run [OF assms(1)])
  obtain t3 where t3: "delete_refs api (nativePlatformJniConstants t2) t2 = (Inr (), t3)"
    "mset (globalRefs t3) = mset (globalRefs t2) - mset (nativePlatformJniConstants t2)"
    "baseJniConstants t3 = baseJniConstants t2"
    by (rule delete_refs_run [OF assms(1)])
  obtain t4 where t4: "delete_refs api (baseJniConstants t3) t3 = (Inr (), t4)"
    "mset (globalRefs t4) = mset (globalRefs t3) - mset (baseJniConstants t3)"
    by (rule delete_refs_run [OF assms(1)])
  have "JNI_OnUnload api s1 = (Inr (), t4)"
    using t1(1) t2(1) t3(1) t4(1) by (simp add: JNI_OnUnload_def run_get_bind run_thenE)
  moreover have "mset (globalRefs t4) = mset (globalRefs s)"
    using t1 t2 t3 t4 loaded by (simp add: diff_diff_add_mset [symmetric])
  ultimately show ?thesis using loaded by blast
qed

text \<open>A virtual machine that finds every class and hands out the references 1, 2, 3, ...\<close>

definition counting_vm :: "nat services_api" where
  "counting_vm = jni.extend quiet_jni (services_api.fields
     (\<lambda>_ w. (Some 0, w)) (\<lambda>_ w. (Some (w + 1), w + 1)))"

definition unloaded_library :: "nat library" where
  "unloaded_library = native.extend idle_native (library.fields [9] [] [] [] [])"

theorem load_unload_balanced_witness:
  "\<exists>s1 s2. JNI_OnLoad counting_vm unloaded_library = (Inr JNI_VERSION_1_6, s1) \<and>
    globalRefs s1 = [9, 1, 2, 3, 4, 5] \<and> JNI_OnUnload counting_vm s1 = (Inr (), s2) \<and>
    mset (globalRefs s2) = {#9#}"
proof -
  have "attached counting_vm"
    by (simp add: attached_def counting_vm_def quiet_jni_def jni.defs services_api.defs)
  moreover obtain s1 where s1: "JNI_OnLoad counting_vm unloaded_library = (Inr JNI_VERSION_1_6, s1)"
    "globalRefs s1 = [9, 1, 2, 3, 4, 5]"
    by (simp add: JNI_OnLoad_def construct_BaseJniConstants_def construct_NativePlatformJniConstants_def
        construct_Logging_def construct_LinuxJniConstants_def construct_JClass_def or_destroy_def
        vm_call_def getThreadEnv_def getJavaVm_def exec_simps counting_vm_def quiet_jni_def jni.defs
        services_api.defs unloaded_library_def idle_native_def native.defs library.defs)
  ultimately show ?thesis
    using load_unload_balanced [of counting_vm unloaded_library JNI_VERSION_1_6 s1]
    by (auto simp: unloaded_library_def idle_native_def native.defs library.defs)
qed

end
