(* ===== verification/Spec2Isabelle.thy ===== *)
theory Spec2Isabelle
  imports LinuxLife LinuxMoved AppleProps WinCalls WinPaths Services
begin

text \<open>
  A model of the native part of gradle-fileevents, and the properties that make it correct.

  \<^bold>\<open>The program.\<close> The library (\<^verbatim>\<open>src/main/cpp\<close>, \<^verbatim>\<open>src/main/headers\<close>) reports changes of files
  under watched directories to a Java callback. Java creates a server with \<^verbatim>\<open>startWatcher0\<close>, a thread of
  its own runs \<^verbatim>\<open>executeRunLoop0\<close>, other threads call \<^verbatim>\<open>startWatching0\<close>, \<^verbatim>\<open>stopWatching0\<close> and
  \<^verbatim>\<open>shutdown0\<close>, and \<^verbatim>\<open>awaitTermination0\<close> deletes the server. \<^verbatim>\<open>generic_fsnotifier.cpp\<close> holds what all
  platforms share; the servers are \<^verbatim>\<open>linux_fsnotifier.cpp\<close> (inotify, \<^verbatim>\<open>poll\<close>, an eventfd for the
  shutdown), \<^verbatim>\<open>apple_fsnotifier.cpp\<close> (FSEvents streams that feed a blocking queue) and
  \<^verbatim>\<open>win_fsnotifier.cpp\<close> (overlapped reads whose completions run on the run loop's thread, and commands
  of \<^verbatim>\<open>command.h\<close> queued to it). \<^verbatim>\<open>jni_support.cpp\<close>, \<^verbatim>\<open>logging.cpp\<close>, \<^verbatim>\<open>exception.h\<close> and \<^verbatim>\<open>services.cpp\<close> are
  the ground they stand on.

  \<^bold>\<open>How it is modelled.\<close> An operation maps a state to an outcome and the state it leaves, also when it
  throws (theory \<^verbatim>\<open>Prelude\<close>, with triples and the rules that follow the text of an operation). The state
  of a server extends the record \<open>native\<close>: the world outside, \<^verbatim>\<open>errno\<close>, the pending Java exception, the
  calls into Java so far, in order, and the flags of the life cycle. What the operating system and the
  virtual machine do is a parameter, a record of functions over the world (\<open>jni\<close> and its extensions
  \<open>linux_api\<close>, \<open>apple_api\<close>, \<open>win_api\<close>, \<open>services_api\<close>). What other threads do while a thread waits on a
  condition variable is a function from states to states (\<open>wait_for\<close>, \<open>wake\<close>). Loops that need not end
  are \<open>partial_function (option)\<close>: \<open>None\<close> is a run that never returns, or reads past a buffer. On Windows
  a use of freed memory sets the flag \<open>useAfterFree\<close>, and a thread that never comes back (it reads beyond
  a buffer, goes round in a loop, or an exception leaves a destructor) sets the flag \<open>lost\<close>, which no
  operation clears.

  \<^bold>\<open>The theories.\<close>
  \<^item> \<^verbatim>\<open>Prelude\<close>: effects, triples, C strings. \<^verbatim>\<open>Bytes\<close>: little-endian integers in buffers. \<^verbatim>\<open>Registry\<close>:
    the contract of registering and unregistering paths, as the locales \<open>path_registry\<close> and
    \<open>strict_path_registry\<close>; every server interprets one of them. \<^verbatim>\<open>Queue\<close>: the locale \<open>fifo\<close>, which the
    blocking queue of macOS interprets.
  \<^item> \<^verbatim>\<open>Utf\<close>, \<^verbatim>\<open>Errors\<close>, \<^verbatim>\<open>Jni\<close>: \<^verbatim>\<open>jni_support.cpp\<close>, \<^verbatim>\<open>exception.h\<close>, \<^verbatim>\<open>logging.cpp\<close>: the conversions
    between UTF-8 and UTF-16, the exceptions with their messages, the JNI helpers and the logger.
  \<^item> \<^verbatim>\<open>Generic\<close>: \<^verbatim>\<open>generic_fsnotifier.cpp\<close>: the reports to the callback, the life cycle of a run loop,
    and the JNI entry points over the virtual functions of a server (\<open>server_ops\<close>).
  \<^item> \<^verbatim>\<open>Services\<close>: \<^verbatim>\<open>services.cpp\<close> and the constructors of the global objects: loading, unloading, and the
    global references that are alive.
  \<^item> \<^verbatim>\<open>Inotify\<close>, \<^verbatim>\<open>LinuxServer\<close>, \<^verbatim>\<open>LinuxEvents\<close>: \<^verbatim>\<open>linux_fsnotifier.cpp\<close>: the records of a read buffer, the
    tables and the operations on them, the event handlers and the run loop. \<^verbatim>\<open>LinuxTables\<close> and
    \<^verbatim>\<open>LinuxInv\<close>: what each operation does to the tables, and the invariant that they are mutually inverse.
    \<^verbatim>\<open>LinuxSteps\<close>: the atomic steps of all threads, reachable states, the run loop as steps.
    \<^verbatim>\<open>LinuxSpec\<close>: the abstract server (\<open>watch_view\<close>), which knows only the watched paths of each
    descriptor, and the reports an event means. \<^verbatim>\<open>LinuxTrace\<close>: the run loop as a protocol, an
    automaton over its labelled calls. \<^verbatim>\<open>LinuxProps\<close>, \<^verbatim>\<open>LinuxMoved\<close>, \<^verbatim>\<open>LinuxLife\<close>: the properties.
  \<^item> \<^verbatim>\<open>AppleServer\<close>: \<^verbatim>\<open>apple_fsnotifier.cpp\<close>, with the ownership of its native objects as a list of calls.
    \<^verbatim>\<open>AppleInv\<close>: every object is released, or owned by one watch point, or, the dispatch queue, by the
    server. \<^verbatim>\<open>AppleProps\<close>: the queue, the run loop, the shutdown and the destruction of the server.
  \<^item> \<^verbatim>\<open>WinPaths\<close>, \<^verbatim>\<open>WinServer\<close>, \<^verbatim>\<open>WinEvents\<close>, \<^verbatim>\<open>WinCommands\<close>: \<^verbatim>\<open>win_fsnotifier.cpp\<close> and \<^verbatim>\<open>command.h\<close>: the
    path functions, the watch points in a store of objects under their addresses, the completions of
    reads, the commands and the run loop. \<^verbatim>\<open>WinInv\<close>: the table refers to live watch points only.
    \<^verbatim>\<open>WinLedger\<close>: no handle is closed more often than it was opened. \<^verbatim>\<open>WinBatch\<close>: the contract of the
    registry, where the calls served while a watch point is destroyed are \<open>calm\<close>. \<^verbatim>\<open>WinRecords\<close>: the
    layout of a read buffer, and when the loop over it ends. \<^verbatim>\<open>WinProps\<close>, \<^verbatim>\<open>WinCalls\<close>: the properties.
  \<^item> This theory: what holds of the JNI entry points of all platforms.

  \<^bold>\<open>What is shown.\<close> For each server: which reports an event leads to, against a specification of what
  an event means (\<open>event_report\<close>, \<open>flags_reports\<close>, \<open>win_report\<close>: the masks and numbers are spelled
  out; where an event can carry several flags, the specification has the order of the code's tests); that a buffer, a queue or a batch is handled completely and in
  order; that the tables stay consistent in every reachable state, that native objects and handles
  are released once; that a shutdown ends the run loop; how failures surface in Java; and what goes
  wrong where the code leaves a gap (spurious wake-ups, timed-out commands, watch points that stay
  half dead, invalid UTF-8 in the middle of a buffer, unterminated names).

  \<^bold>\<open>Bounds and depths.\<close> \<open>alertable depth\<close> serves the calls that Windows delivers to \<^verbatim>\<open>SleepEx(0, true)\<close>,
  nested up to \<open>depth\<close>; every property holds for every depth. \<open>rounds n\<close> counts the rounds of the Linux
  run loop until the one that is told to terminate. The loop over the bytes of a read ends on Linux
  because every record is at least as long as its fixed part; its index is a natural number, since a
  read holds at most 16 KiB. On Windows the index is the signed 32-bit number of the code and wraps
  around: the loop ends where all offsets lead forward (\<open>record_loop_ends\<close>), and need not otherwise.

  \<^bold>\<open>Not modelled.\<close> The version string (\<^verbatim>\<open>fileevents_version.cpp\<close>, a generated constant); local
  references and method identifiers of JNI; closing the descriptors of inotify and the eventfd, also
  where a constructor fails; the destruction of a server by \<^verbatim>\<open>awaitTermination0\<close> beyond the flag
  \<open>deleted\<close> (the destructor of the macOS server is \<open>destroy_Server_apple\<close>); data races between threads that do not take the same lock, which are
  undefined in C++: operations of other threads interleave with the run loop at the granularity of
  the steps. The Java classes, the build and the tests are not part of the model.
\<close>

section \<open>Properties of all platforms\<close>

text \<open>
  C28: No native exception leaves a JNI entry point that works on an existing server, whatever its
  virtual functions throw: whether the server was closed already, the operation failed, or a path
  could not be converted, the entry point returns normally to Java (the run loop, if it returns at
  all). That holds for the entry points of all platforms and for both \<^verbatim>\<open>stopWatchingMovedPaths0\<close>, where
  the calling thread is attached to the virtual machine and the Java logger does not throw. The exception is \<^verbatim>\<open>startWatcher0\<close>, which creates the
  server: see \<^verbatim>\<open>startWatcher0_errors\<close>.
\<close>

theorem jni_entry_points_return:
  assumes "jni_ok j" and "jni_ok linux" and "jni_ok win"
  shows "(\<exists>r s'. initializeRunLoop0 j ops addr s = (Inr r, s')) \<and>
    (\<forall>r s'. executeRunLoop0 j ops addr s = Some (r, s') \<longrightarrow> (\<exists>x. r = Inr x)) \<and>
    (\<exists>r s'. startWatching0 j ops addr paths s = (Inr r, s')) \<and>
    (\<exists>r s'. stopWatching0 j ops addr paths s = (Inr r, s')) \<and>
    (\<exists>r s'. shutdown0 j ops addr s = (Inr r, s')) \<and>
    (\<exists>r s'. awaitTermination0 j longBits wait_for addr timeout s = (Inr r, s')) \<and>
    (\<exists>r s'. stopWatchingMovedPaths0_linux linux addr paths sl = (Inr r, s')) \<and>
    (\<exists>r s'. stopWatchingMovedPaths0_win win addr sw = (Inr r, s'))"
proof (intro conjI op_entry_points_return [OF assms(1)])
  show "\<forall>r s'. executeRunLoop0 j ops addr s = Some (r, s') \<longrightarrow> (\<exists>x. r = Inr x)"
    using executeRunLoop0_returns [OF assms(1)] by blast
  show "\<exists>r s'. stopWatchingMovedPaths0_linux linux addr paths sl = (Inr r, s')"
    unfolding stopWatchingMovedPaths0_linux_def
    by (intro tryE_returns rethrow_unless_java_returns [OF assms(2)])
  show "\<exists>r s'. stopWatchingMovedPaths0_win win addr sw = (Inr r, s')"
    unfolding stopWatchingMovedPaths0_win_def
    by (intro tryE_returns rethrowAsJavaException_returns [OF assms(3)])
qed

text \<open>Every operation of the server throws; on Linux and Windows one path is watched.\<close>

theorem jni_entry_points_return_witness:
  "(\<exists>r s'. shutdown0 quiet_jni (failing_ops (RuntimeError ''write'')) (Some 1) idle_native = (Inr r, s')) \<and>
   (\<exists>r s'. stopWatchingMovedPaths0_linux quiet_linux (Some 1) [sample_path] sample_server = (Inr r, s')) \<and>
   (\<exists>r s'. stopWatchingMovedPaths0_win quiet_win (Some 1) (one_watched [0x43]) = (Inr r, s'))"
  using jni_entry_points_return [OF quiet_jni_ok quiet_linux_ok(1) quiet_win_ok,
      of "failing_ops (RuntimeError ''write'')" "Some 1" idle_native "[sample_path]" 64
        "\<lambda>_ s. (NoTimeout, s)" 0 sample_server "one_watched [0x43]"]
  by blast

end
